(* ===== verification/NPU_Prelude.thy ===== *)
theory NPU_Prelude
  imports Main "HOL-Library.Word"
begin

text \<open>
  Shared vocabulary of the development: the C++ integer conversions the simulator relies on
  (\<open>static_cast\<close>, integral promotion, \<open>std::numeric_limits\<close>), counted \<open>for\<close> loops over
  arrays, and the little-endian byte views that \<open>DataBuffer::Get<T>\<close> and \<open>memcpy\<close> give.
  A value of a fixed-width C++ type is an \<open>'t word\<close>; whether the type is signed is a
  \<open>bool\<close> argument (\<open>sg\<close>), as in \<open>std::is_signed<T>\<close>.
\<close>

unbundle bit_operations_syntax

named_theorems lane_simps \<open>facts that read a lane operation as integer arithmetic\<close>
named_theorems loop_simps \<open>facts that summarise a counted loop over an array\<close>

type_synonym u8 = "8 word"
type_synonym u16 = "16 word"
type_synonym u32 = "32 word"
type_synonym u64 = "64 word"

subsection \<open>C++ integer types\<close>

definition sizeof :: "'t::len itself \<Rightarrow> nat" where
  "sizeof T = LENGTH('t) div 8"

text \<open>The mathematical value of a lane of type \<open>T\<close>.\<close>

definition lane_int :: "bool \<Rightarrow> 't::len word \<Rightarrow> int" where
  "lane_int sg w = (if sg then sint w else uint w)"

definition type_min :: "bool \<Rightarrow> 't::len itself \<Rightarrow> int" where
  "type_min sg T = (if sg then - (2 ^ (LENGTH('t) - 1)) else 0)"

definition type_max :: "bool \<Rightarrow> 't::len itself \<Rightarrow> int" where
  "type_max sg T = (if sg then 2 ^ (LENGTH('t) - 1) - 1 else 2 ^ LENGTH('t) - 1)"

text \<open>Conversion of a value to an \<open>n\<close>-bit (un)signed type, and the type in which C++
  evaluates arithmetic on operands of that type: anything narrower than \<open>int\<close> is promoted.\<close>

definition c_wrap :: "bool \<Rightarrow> nat \<Rightarrow> int \<Rightarrow> int" where
  "c_wrap sg n v = (if sg then signed_take_bit (n - 1) v else take_bit n v)"

definition c_arith :: "bool \<Rightarrow> nat \<Rightarrow> int \<Rightarrow> int" where
  "c_arith sg n v = (if n < 32 then c_wrap True 32 v else c_wrap sg n v)"

definition static_cast :: "bool \<Rightarrow> 's::len word \<Rightarrow> 'd::len word" where
  "static_cast sg w = word_of_int (lane_int sg w)"

text \<open>Saturation to the range of \<open>T\<close>: the abstract meaning of the saturating instructions.\<close>

definition saturate :: "bool \<Rightarrow> 't::len itself \<Rightarrow> int \<Rightarrow> int" where
  "saturate sg T v = max (type_min sg T) (min (type_max sg T) v)"

lemma lane_int_bounds:
  "type_min sg TYPE('t) \<le> lane_int sg (w :: 't::len word)" "lane_int sg (w :: 't::len word) \<le> type_max sg TYPE('t)"
  using sint_range_size [of w] uint_bounded [of w] uint_nonnegative [of w]
  by (auto simp: lane_int_def type_min_def type_max_def word_size)

lemma c_wrap_id:
  assumes "n \<noteq> 0" "if sg then - (2 ^ (n - 1)) \<le> v \<and> v < 2 ^ (n - 1) else 0 \<le> v \<and> v < 2 ^ n"
  shows "c_wrap sg n v = v"
  using assms by (auto simp: c_wrap_def signed_take_bit_int_eq_self_iff take_bit_int_eq_self_iff split: if_splits)

lemma lane_int_of_int: "lane_int sg (word_of_int v :: 't::len word) = c_wrap sg LENGTH('t) v"
  by (simp add: lane_int_def c_wrap_def unsigned_of_int signed_of_int)

lemma word_of_lane_int [simp]: "word_of_int (lane_int sg w) = (w :: 't::len word)"
  by (simp add: lane_int_def)

lemma lane_int_of_int_id:
  assumes "type_min sg TYPE('t) \<le> v" "v \<le> type_max sg TYPE('t)"
  shows "lane_int sg (word_of_int v :: 't::len word) = v"
  using assms by (auto simp: lane_int_of_int type_min_def type_max_def intro!: c_wrap_id split: if_splits)

lemma lane_int_inject: "lane_int sg (a :: 't::len word) = lane_int sg b \<longleftrightarrow> a = b"
  by (metis word_of_lane_int)

lemma type_min_le_max: "type_min sg TYPE('t::len) \<le> type_max sg TYPE('t)"
  using order_trans [OF lane_int_bounds] by blast

lemma saturate_bounds:
  "type_min sg TYPE('t::len) \<le> saturate sg TYPE('t) v" "saturate sg TYPE('t) v \<le> type_max sg TYPE('t)"
  using type_min_le_max [of sg, where 't = 't] by (auto simp: saturate_def)

lemma lane_int_saturate [simp]:
  "lane_int sg (word_of_int (saturate sg TYPE('t) v) :: 't::len word) = saturate sg TYPE('t) v"
  by (rule lane_int_of_int_id) (rule saturate_bounds)+

lemma saturate_id:
  "type_min sg TYPE('t) \<le> v \<Longrightarrow> v \<le> type_max sg TYPE('t::len) \<Longrightarrow> saturate sg TYPE('t) v = v"
  by (simp add: saturate_def)

subsection \<open>Wrapping arithmetic\<close>

lemma mod_int_over: "m \<le> x \<Longrightarrow> x < 2 * m \<Longrightarrow> x mod m = x - (m::int)"
  by (smt (verit) minus_mod_self2 mod_pos_pos_trivial)

lemma mod_int_under: "- m \<le> x \<Longrightarrow> x < 0 \<Longrightarrow> x mod m = x + (m::int)"
  by (smt (verit) mod_add_self2 mod_pos_pos_trivial)

lemma c_wrap_signed_mod: "n \<noteq> 0 \<Longrightarrow> c_wrap True n v = (v + 2 ^ (n - 1)) mod 2 ^ n - 2 ^ (n - 1)"
  by (cases n) (simp_all add: c_wrap_def signed_take_bit_eq_take_bit_shift take_bit_eq_mod)

lemma c_wrap_signed_over:
  assumes "n \<noteq> 0" "2 ^ (n - 1) \<le> v" "v < 2 ^ n + 2 ^ (n - 1)"
  shows "c_wrap True n v = v - 2 ^ n"
proof -
  have "(2::int) ^ n = 2 * 2 ^ (n - 1)" using assms(1) by (cases n) simp_all
  then have "(v + 2 ^ (n - 1)) mod 2 ^ n = v + 2 ^ (n - 1) - 2 ^ n"
    using assms by (intro mod_int_over) auto
  then show ?thesis using assms(1) by (simp add: c_wrap_signed_mod)
qed

lemma c_wrap_signed_under:
  assumes "n \<noteq> 0" "- (2 ^ n) - 2 ^ (n - 1) \<le> v" "v < - (2 ^ (n - 1))"
  shows "c_wrap True n v = v + 2 ^ n"
proof -
  have "(2::int) ^ n = 2 * 2 ^ (n - 1)" using assms(1) by (cases n) simp_all
  then have "(v + 2 ^ (n - 1)) mod 2 ^ n = v + 2 ^ (n - 1) + 2 ^ n"
    using assms by (intro mod_int_under) auto
  then show ?thesis using assms(1) by (simp add: c_wrap_signed_mod)
qed

lemma sint_neg_bit: "sint (w :: 't::len word) < 0 \<longleftrightarrow> bit w (LENGTH('t) - 1)"
  by (simp add: bit_last_iff)

lemma sint_xor_neg: "sint ((a :: 't::len word) XOR b) < 0 \<longleftrightarrow> (sint a < 0) \<noteq> (sint b < 0)"
  by (simp add: sint_neg_bit bit_xor_iff)

lemma sint_xor_nonneg: "0 \<le> sint ((a :: 't::len word) XOR b) \<longleftrightarrow> (sint a < 0) = (sint b < 0)"
  using sint_xor_neg [of a b] by linarith

lemma c_wrap_cong_word: "word_of_int (c_wrap sg n v) = (word_of_int v :: 't::len word)" if "LENGTH('t) \<le> n"
proof (rule bit_word_eqI)
  fix i assume i: "i < LENGTH('t)"
  show "bit (word_of_int (c_wrap sg n v) :: 't word) i = bit (word_of_int v :: 't word) i"
  proof (cases "n - 1 \<le> i")
    case True
    then have "i = n - 1" using i that by linarith
    then show ?thesis using i that by (simp add: c_wrap_def bit_simps)
  next
    case False
    then show ?thesis using i that by (simp add: c_wrap_def bit_simps min_def)
  qed
qed

lemma sint_add: "sint (a + b :: 't::len word) = c_wrap True LENGTH('t) (sint a + sint b)"
proof -
  have "a + b = word_of_int (sint a + sint b)" by simp
  then show ?thesis by (metis lane_int_def lane_int_of_int)
qed

lemma sint_sub: "sint (a - b :: 't::len word) = c_wrap True LENGTH('t) (sint a - sint b)"
proof -
  have "a - b = word_of_int (sint a - sint b)" by simp
  then show ?thesis by (metis lane_int_def lane_int_of_int)
qed

lemma sint_lower: "- (2 ^ (LENGTH('t) - 1)) \<le> sint (a :: 't::len word)"
  and sint_upper: "sint (a :: 't::len word) < 2 ^ (LENGTH('t) - 1)"
  using sint_range_size [of a] by (simp_all add: word_size)

lemma two_pow_len: "(2::int) ^ LENGTH('t::len) = 2 * 2 ^ (LENGTH('t) - 1)"
  by (simp flip: power_Suc)

lemma uint_type_max: "uint (word_of_int (2 ^ LENGTH('t) - 1) :: 't::len word) = 2 ^ LENGTH('t) - 1"
  by (simp add: uint_word_of_int flip: mask_eq_exp_minus_1 take_bit_eq_mod)

lemma drop_bit_int_div: "drop_bit k (v::int) = v div 2 ^ k"
  by (simp add: drop_bit_eq_div)

lemma word_of_int_cong_mod:
  "word_of_int v = (word_of_int w :: 't::len word) \<longleftrightarrow> v mod 2 ^ LENGTH('t) = w mod 2 ^ LENGTH('t)"
  by (simp add: word_of_int_eq_iff take_bit_eq_mod)

lemma c_wrap_bit: "i < n - 1 \<Longrightarrow> bit (c_wrap sg n v) i = bit v i"
  by (auto simp: c_wrap_def bit_simps min_def)

lemma c_wrap_bit_le: "i < n \<Longrightarrow> bit (c_wrap sg n v) i = bit v i"
  by (cases "i = n - 1") (auto simp: c_wrap_def bit_simps min_def)

lemma c_arith_bit: "i < n \<Longrightarrow> bit (c_arith sg n v) i = bit v i"
  by (auto simp: c_arith_def c_wrap_bit_le)

text \<open>The low half of a shifted wide value does not depend on how the wide type wraps.\<close>

lemma word_of_int_drop_arith:
  assumes "k + LENGTH('t) \<le> n"
  shows "(word_of_int (drop_bit k (c_arith sg n v)) :: 't::len word) = word_of_int (drop_bit k v)"
  using assms by (intro bit_word_eqI) (simp add: bit_simps c_arith_bit)

lemma len_pos: "0 < LENGTH('t::len)"
  by simp

subsection \<open>Values that fit a type\<close>

lemma c_arith_id:
  assumes "n \<noteq> 0" "if sg then - (2 ^ (n - 1)) \<le> v \<and> v < 2 ^ (n - 1) else 0 \<le> v \<and> v < 2 ^ n"
  shows "c_arith sg n v = v"
proof (cases "n < 32")
  case True
  then have a: "(2::int) ^ (n - 1) \<le> 2 ^ 31" "(2::int) ^ n \<le> 2 ^ 31"
    by (intro power_increasing; simp)+
  have "- (2 ^ 31) \<le> v" "v < 2 ^ 31" using assms(2) a by (auto split: if_splits)
  then have "c_wrap True 32 v = v" by (intro c_wrap_id) auto
  then show ?thesis using True by (simp add: c_arith_def)
next
  case False
  then show ?thesis using assms by (simp add: c_arith_def c_wrap_id)
qed

lemma sizeof_bits: "8 dvd LENGTH('t::len) \<Longrightarrow> sizeof TYPE('t) * 8 = LENGTH('t)"
  by (simp add: sizeof_def)

lemma div_pow2_range:
  assumes "(a::int) \<le> v" "v < b" "a \<le> 0" "0 < b"
  shows "a \<le> v div 2 ^ k" "v div 2 ^ k < b"
proof -
  have p: "0 < (2::int) ^ k" by simp
  show "a \<le> v div 2 ^ k"
  proof (cases "0 \<le> v")
    case True then show ?thesis using assms(3) p by (simp add: pos_imp_zdiv_nonneg_iff order_trans)
  next
    case False
    have "a * 2 ^ k \<le> a * 1" using assms(3) by (intro mult_left_mono_neg) auto
    then have "a * 2 ^ k \<le> v" using assms(1) by simp
    then have "(a * 2 ^ k) div 2 ^ k \<le> v div 2 ^ k" using p by (rule zdiv_mono1)
    then show ?thesis by simp
  qed
  show "v div 2 ^ k < b"
  proof (cases "0 \<le> v")
    case True
    then have "v div 2 ^ k \<le> v" using zdiv_mono2 [of v 1 "2 ^ k"] by simp
    then show ?thesis using assms(2) by simp
  next
    case False
    then have "v div 2 ^ k < 0" using p by (simp add: pos_imp_zdiv_neg_iff)
    then show ?thesis using assms(4) by simp
  qed
qed

definition fits :: "bool \<Rightarrow> nat \<Rightarrow> int \<Rightarrow> bool" where
  "fits sg n v = (if sg then - (2 ^ (n - 1)) \<le> v \<and> v < 2 ^ (n - 1) else 0 \<le> v \<and> v < 2 ^ n)"

lemma fits_wrap: "n \<noteq> 0 \<Longrightarrow> fits sg n v \<Longrightarrow> c_wrap sg n v = v"
  unfolding fits_def by (rule c_wrap_id)

lemma fits_arith: "n \<noteq> 0 \<Longrightarrow> fits sg n v \<Longrightarrow> c_arith sg n v = v"
  unfolding fits_def by (rule c_arith_id)

lemma fits_div: "fits sg n v \<Longrightarrow> fits sg n (v div 2 ^ k)"
  unfolding fits_def using div_pow2_range [of "- (2 ^ (n - 1))" v "2 ^ (n - 1)" k]
    div_pow2_range [of 0 v "2 ^ n" k] by (auto split: if_splits)

lemma fits_wide_pow: "k < n \<Longrightarrow> fits sg (2 * n) (2 ^ k)"
proof -
  assume k: "k < n"
  then have "(2::int) ^ k < 2 ^ (2 * n - 1)" "(2::int) ^ k < 2 ^ (2 * n)"
    "(0::int) < 2 ^ (2 * n - 1)" "(0::int) < 2 ^ k"
    by (auto intro!: power_strict_increasing)
  then show ?thesis unfolding fits_def by (cases sg; simp only: if_True if_False; linarith)
qed

lemma fits_wide_add:
  assumes "fits sg n v" "0 \<le> r" "r \<le> 2 ^ (n - 1)" "n \<noteq> 0"
  shows "fits sg (2 * n) (v + r)"
proof -
  have n: "(2::int) ^ n = 2 * 2 ^ (n - 1)" using assms(4) by (cases n) auto
  have "(2::int) ^ n \<le> 2 ^ (2 * n - 1)"
    using assms(4) by (intro power_increasing) auto
  moreover have "(2::int) ^ (2 * n) = 2 * 2 ^ (2 * n - 1)"
    using assms(4) by (simp flip: power_Suc)
  moreover have "0 < (2::int) ^ (n - 1)" by simp
  ultimately show ?thesis using assms(1-3) n unfolding fits_def
    by (cases sg; simp only: if_True if_False; linarith)
qed

lemma drop_bit_in_wide:
  assumes "0 < k" "k \<le> n" "fits sg n v"
  shows "c_wrap sg (2 * n) (drop_bit k (c_arith sg (2 * n)
           (v + (if round then c_wrap sg (2 * n) (2 ^ (k - 1)) else 0))))
       = (v + (if round then 2 ^ (k - 1) else 0)) div 2 ^ k"
proof -
  let ?r = "if round then 2 ^ (k - 1) else 0 :: int"
  have n: "2 * n \<noteq> 0" "n \<noteq> 0" using assms by auto
  have w: "c_wrap sg (2 * n) (2 ^ (k - 1)) = 2 ^ (k - 1)"
    using n(1) assms by (intro fits_wrap fits_wide_pow) auto
  have f: "fits sg (2 * n) (v + ?r)"
    using assms n by (intro fits_wide_add) (auto intro: power_increasing)
  show ?thesis
    using fits_arith [OF n(1) f] fits_wrap [OF n(1) fits_div [OF f, of k]] w
    by (cases round) (simp_all add: drop_bit_int_div)
qed

lemma fits_sint: "fits True LENGTH('t) (sint (a :: 't::len word))"
  using sint_lower [of a] sint_upper [of a] by (simp add: fits_def)

lemma fits_uint: "fits False LENGTH('t) (uint (a :: 't::len word))"
  by (simp add: fits_def)

lemma fits_lane: "fits sg LENGTH('t) (lane_int sg (a :: 't::len word))"
  by (cases sg) (simp_all add: lane_int_def fits_sint fits_uint)

lemma fits_wide_mult:
  assumes "fits sg n v" "u \<le> n" "n \<noteq> 0"
  shows "fits sg (2 * n) (v * 2 ^ u)"
proof -
  have u: "(2::int) ^ u \<le> 2 ^ n" "0 < (2::int) ^ u" using assms by (auto intro: power_increasing)
  have n1: "(2::int) ^ (2 * n - 1) = 2 ^ (n - 1) * 2 ^ n" "(2::int) ^ (2 * n) = 2 ^ n * 2 ^ n"
    using assms(3) by (simp_all add: mult_2 flip: power_add)
  show ?thesis
  proof (cases sg)
    case True
    then have v: "- (2 ^ (n - 1)) \<le> v" "v < 2 ^ (n - 1)" using assms(1) by (auto simp: fits_def)
    have a: "- (2 ^ (n - 1)) * 2 ^ u \<le> v * 2 ^ u" "v * 2 ^ u < 2 ^ (n - 1) * 2 ^ u"
      using mult_right_mono [OF v(1), of "2 ^ u"] mult_strict_right_mono [OF v(2), of "2 ^ u"] u by simp_all
    have b: "(2::int) ^ (n - 1) * 2 ^ u \<le> 2 ^ (n - 1) * 2 ^ n"
      using u by (intro mult_left_mono) auto
    show ?thesis using a b n1(1) True unfolding fits_def by (simp only: if_True) linarith
  next
    case False
    then have v: "0 \<le> v" "v < 2 ^ n" using assms(1) by (auto simp: fits_def)
    have "v * 2 ^ u < 2 ^ n * 2 ^ u" using v u by (auto intro: mult_strict_right_mono)
    moreover have "(2::int) ^ n * 2 ^ u \<le> 2 ^ n * 2 ^ n" using u by (intro mult_left_mono) auto
    ultimately have "v * 2 ^ u < 2 ^ n * 2 ^ n" by (rule less_le_trans)
    then show ?thesis using v u n1(2) False by (simp add: fits_def)
  qed
qed

lemma saturate_fits: "fits sg LENGTH('t) v \<Longrightarrow> saturate sg TYPE('t::len) v = v"
  by (auto simp: fits_def saturate_def type_min_def type_max_def split: if_splits)

lemma c_wrap_arith: "0 < n \<Longrightarrow> c_wrap sg n (c_arith sg' n v) = c_wrap sg n v"
  by (rule bit_eqI) (auto simp: c_wrap_def bit_simps min_def c_arith_bit)

lemma shift_left_wide:
  assumes "fits sg n v" "u \<le> n" "n \<noteq> 0"
  shows "c_wrap sg (2 * n) (c_arith False (2 * n) (push_bit u (take_bit (2 * n) v))) = v * 2 ^ u"
proof -
  have "c_wrap sg (2 * n) (push_bit u (take_bit (2 * n) v)) = c_wrap sg (2 * n) (push_bit u v)"
    using assms(3) by (intro bit_eqI) (auto simp: c_wrap_def bit_simps min_def)
  also have "\<dots> = v * 2 ^ u"
    using fits_wrap [OF _ fits_wide_mult [OF assms]] assms(3) by (simp add: push_bit_eq_mult)
  finally show ?thesis using assms(3) by (simp add: c_wrap_arith)
qed

lemma left_saturates:
  assumes "n \<le> k" "v \<noteq> 0"
  shows "2 ^ n \<le> \<bar>v * 2 ^ k :: int\<bar>"
proof -
  have "(2::int) ^ n \<le> 2 ^ k" using assms(1) by (intro power_increasing) auto
  also have "\<dots> = 1 * 2 ^ k" by simp
  also have "\<dots> \<le> \<bar>v\<bar> * 2 ^ k" using assms(2) by (intro mult_right_mono) auto
  finally show ?thesis by (simp add: abs_mult)
qed

lemma type_bounds:
  "type_min sg TYPE('t::len) \<le> 0" "0 \<le> type_max sg TYPE('t)" "type_max sg TYPE('t) < 2 ^ LENGTH('t)"
  "- (2 ^ LENGTH('t)) < type_min sg TYPE('t)"
proof -
  have "0 < (2::int) ^ (LENGTH('t) - 1)" by simp
  then show "- (2 ^ LENGTH('t)) < type_min sg TYPE('t)" "type_max sg TYPE('t) < 2 ^ LENGTH('t)"
    using two_pow_len [where 't = 't] unfolding type_min_def type_max_def
    by (cases sg; simp only: if_True if_False; linarith)+
qed (simp_all add: type_min_def type_max_def)

lemma unat_and_pred_lt:
  assumes "0 < m"
  shows "unat (b AND word_of_nat (m - 1) :: 't::len word) < m"
proof -
  have "unat (b AND word_of_nat (m - 1) :: 't word) \<le> unat (word_of_nat (m - 1) :: 't word)"
    by (simp flip: word_le_nat_alt add: word_and_le1)
  also have "\<dots> \<le> m - 1" by (simp add: unat_of_nat)
  finally show ?thesis using assms by linarith
qed

lemma fits_mult:
  assumes "fits sg n v" "fits sg n w" "n \<noteq> 0"
  shows "fits sg (2 * n) (v * w)"
proof (cases sg)
  case True
  let ?h = "2 ^ (n - 1) :: int"
  have "\<bar>v\<bar> \<le> ?h" "\<bar>w\<bar> \<le> ?h" using assms(1,2) True by (auto simp: fits_def)
  then have m: "\<bar>v * w\<bar> \<le> ?h * ?h" unfolding abs_mult by (intro mult_mono) auto
  have "?h * ?h < 2 ^ (2 * n - 1)" using assms(3) by (simp flip: power_add)
  with m show ?thesis using True unfolding fits_def by (simp only: if_True abs_le_iff) linarith
next
  case False
  then have v: "0 \<le> v" "v < 2 ^ n" "0 \<le> w" "w < 2 ^ n" using assms by (auto simp: fits_def)
  then have "v * w < 2 ^ n * 2 ^ n" by (intro mult_strict_mono) auto
  then show ?thesis using v False by (simp add: fits_def mult_2 power_add)
qed

lemma c_wrap_c_arith_word:
  assumes "LENGTH('t) + k \<le> n"
  shows "(word_of_int (drop_bit k (c_wrap sg n v)) :: 't::len word) = word_of_int (drop_bit k v)"
  using assms by (intro bit_word_eqI) (simp add: bit_simps c_wrap_bit_le)

subsection \<open>Byte views\<close>

text \<open>Little-endian bytes of a value, as \<open>memcpy\<close> and \<open>DataBuffer::Get<T>\<close> see it, and the lanes
  of a register given by its bytes.\<close>

definition to_bytes :: "'t::len word \<Rightarrow> u8 list" where
  "to_bytes w = map (\<lambda>i. ucast (drop_bit (8 * i) w)) [0..<sizeof TYPE('t)]"

definition from_bytes :: "u8 list \<Rightarrow> 't::len word" where
  "from_bytes bs = foldr (\<lambda>b acc. ucast b OR push_bit 8 acc) bs 0"

definition lanes :: "u8 list \<Rightarrow> 't::len word list" where
  "lanes bs = map (\<lambda>e. from_bytes (take (sizeof TYPE('t)) (drop (e * sizeof TYPE('t)) bs)))
     [0..<length bs div sizeof TYPE('t)]"

definition unlanes :: "'t::len word list \<Rightarrow> u8 list" where
  "unlanes ws = concat (map to_bytes ws)"

lemma length_to_bytes [simp]: "length (to_bytes (w :: 't::len word)) = sizeof TYPE('t)"
  by (simp add: to_bytes_def)

lemma bit_from_bytes:
  "bit (from_bytes bs :: 't::len word) i \<longleftrightarrow>
     i < LENGTH('t) \<and> i div 8 < length bs \<and> bit (bs ! (i div 8)) (i mod 8)"
proof (induction bs arbitrary: i)
  case Nil
  then show ?case by (simp add: from_bytes_def)
next
  case (Cons b bs)
  have "bit (from_bytes (b # bs) :: 't word) i
      \<longleftrightarrow> (i < LENGTH('t) \<and> bit b i) \<or> (8 \<le> i \<and> i < LENGTH('t) \<and> bit (from_bytes bs :: 't word) (i - 8))"
    by (auto simp: from_bytes_def bit_simps dest: bit_imp_le_length)
  also have "\<dots> \<longleftrightarrow> i < LENGTH('t) \<and> i div 8 < length (b # bs) \<and> bit ((b # bs) ! (i div 8)) (i mod 8)"
  proof (cases "i < 8")
    case True
    then show ?thesis by auto
  next
    case False
    then have "i div 8 = Suc ((i - 8) div 8)" "i mod 8 = (i - 8) mod 8"
      by (simp_all add: le_div_geq le_mod_geq)
    moreover have "\<not> bit b i" using False by (auto dest: bit_imp_le_length)
    ultimately show ?thesis using False by (auto simp: Cons.IH)
  qed
  finally show ?case .
qed

lemma from_to_bytes [simp]:
  assumes "8 dvd LENGTH('t)"
  shows "from_bytes (to_bytes w) = (w :: 't::len word)"
proof (rule bit_word_eqI)
  fix i assume i: "i < LENGTH('t)"
  then have "i div 8 < sizeof TYPE('t)"
    using assms by (auto simp: sizeof_def dvd_def)
  then show "bit (from_bytes (to_bytes w) :: 't word) i = bit w i"
    using i by (simp add: bit_from_bytes to_bytes_def bit_simps)
qed

lemma to_from_bytes [simp]:
  assumes "length bs = sizeof TYPE('t::len)"
  shows "to_bytes (from_bytes bs :: 't word) = bs"
proof (rule nth_equalityI)
  show "length (to_bytes (from_bytes bs :: 't word)) = length bs" using assms by simp
  fix k assume "k < length (to_bytes (from_bytes bs :: 't word))"
  then have k: "k < sizeof TYPE('t)" by simp
  then have "8 * k + 8 \<le> LENGTH('t)" by (simp add: sizeof_def)
  then show "to_bytes (from_bytes bs :: 't word) ! k = bs ! k"
    using k assms by (intro bit_word_eqI) (simp add: to_bytes_def bit_simps bit_from_bytes)
qed

lemma length_unlanes [simp]: "length (unlanes (ws :: 't::len word list)) = length ws * sizeof TYPE('t)"
  by (induction ws) (simp_all add: unlanes_def)

lemma length_lanes [simp]: "length (lanes bs :: 't::len word list) = length bs div sizeof TYPE('t)"
  by (simp add: lanes_def)

lemma unlanes_slice:
  "e < length ws \<Longrightarrow> take (sizeof TYPE('t)) (drop (e * sizeof TYPE('t)) (unlanes ws)) = to_bytes (ws ! e :: 't::len word)"
proof (induction ws arbitrary: e)
  case (Cons w ws)
  then show ?case by (cases e) (simp_all add: unlanes_def)
qed simp

lemma sizeof_pos: "8 dvd LENGTH('t::len) \<Longrightarrow> 0 < sizeof TYPE('t)"
  using dvd_imp_le [of 8 "LENGTH('t)"] by (simp add: sizeof_def div_greater_zero_iff)

lemma lanes_unlanes [simp]:
  assumes "8 dvd LENGTH('t)"
  shows "lanes (unlanes ws) = (ws :: 't::len word list)"
  using sizeof_pos [OF assms] assms
  by (intro nth_equalityI) (simp_all add: lanes_def unlanes_slice)

lemma unlanes_lanes [simp]:
  assumes "sizeof TYPE('t::len) dvd length bs" "0 < sizeof TYPE('t)"
  shows "unlanes (lanes bs :: 't word list) = bs"
proof -
  let ?k = "sizeof TYPE('t)"
  have "concat (map (\<lambda>e. take ?k (drop (e * ?k) bs)) [0..<n]) = take (n * ?k) bs" if "n * ?k \<le> length bs" for n
    using that
  proof (induction n)
    case (Suc n)
    moreover have "Suc n * ?k = n * ?k + ?k" by simp
    ultimately show ?case by (simp add: take_add del: mult_Suc)
  qed simp
  from this [of "length bs div ?k"]
  have c: "concat (map (\<lambda>e. take ?k (drop (e * ?k) bs)) [0..<length bs div ?k]) = bs" using assms by simp
  have "map (to_bytes \<circ> (\<lambda>e. from_bytes (take ?k (drop (e * ?k) bs)) :: 't word)) [0..<length bs div ?k]
      = map (\<lambda>e. take ?k (drop (e * ?k) bs)) [0..<length bs div ?k]"
  proof (rule map_cong [OF refl])
    fix e assume "e \<in> set [0..<length bs div ?k]"
    then have "Suc e * ?k \<le> length bs div ?k * ?k" by (intro mult_le_mono1) simp
    also have "\<dots> \<le> length bs" by simp
    finally have "Suc e * ?k \<le> length bs" .
    then show "(to_bytes \<circ> (\<lambda>e. from_bytes (take ?k (drop (e * ?k) bs)) :: 't word)) e = take ?k (drop (e * ?k) bs)"
      by simp
  qed
  then show ?thesis using c by (simp only: unlanes_def lanes_def map_map)
qed

subsection \<open>Counted loops\<close>

lemma fold_list_update [loop_simps]:
  "n \<le> length xs \<Longrightarrow> fold (\<lambda>i xs. xs[i := f i (xs ! i)]) [0..<n] xs
     = map (\<lambda>i. if i < n then f i (xs ! i) else xs ! i) [0..<length xs]"
proof (induction n)
  case 0
  then show ?case by (simp add: map_nth)
next
  case (Suc n)
  then show ?case by (auto intro!: nth_equalityI simp: nth_list_update)
qed

end
