(* ===== verification/NPU_Lanes.thy ===== *)
theory NPU_Lanes
  imports NPU_Prelude
begin

text \<open>
  The lane functions of \<open>sim/coralnpu_vector_instructions.cc\<close>: what each CoralNPU SIMD
  instruction computes for one element. A C++ template over \<open>T\<close> becomes a function over
  \<open>'t word\<close>; where the code depends on the signedness of \<open>T\<close> it takes \<open>sg\<close>.
  \<open>WideType<T>\<close> is the type of twice the width and the same signedness (\<open>wide\<close>);
  wide computations are done with the promotions and wraps C++ prescribes.
\<close>

unbundle bit_operations_syntax

definition wide :: "'t::len itself \<Rightarrow> nat" where
  "wide T = 2 * LENGTH('t)"

subsection \<open>Addition, subtraction and comparison\<close>

definition VAdd_lane :: "'t::len word \<Rightarrow> 't word \<Rightarrow> 't word" where
  "VAdd_lane vs1 vs2 = vs1 + vs2"

definition VSub_lane :: "'t::len word \<Rightarrow> 't word \<Rightarrow> 't word" where
  "VSub_lane vs1 vs2 = vs1 - vs2"

definition VRSub_lane :: "'t::len word \<Rightarrow> 't word \<Rightarrow> 't word" where
  "VRSub_lane vs1 vs2 = vs2 - vs1"

definition VEq_lane :: "'t::len word \<Rightarrow> 't word \<Rightarrow> 't word" where
  "VEq_lane vs1 vs2 = of_bool (vs1 = vs2)"

definition VNe_lane :: "'t::len word \<Rightarrow> 't word \<Rightarrow> 't word" where
  "VNe_lane vs1 vs2 = of_bool (vs1 \<noteq> vs2)"

definition VLt_lane :: "bool \<Rightarrow> 't::len word \<Rightarrow> 't word \<Rightarrow> 't word" where
  "VLt_lane sg vs1 vs2 = of_bool (lane_int sg vs1 < lane_int sg vs2)"

definition VLe_lane :: "bool \<Rightarrow> 't::len word \<Rightarrow> 't word \<Rightarrow> 't word" where
  "VLe_lane sg vs1 vs2 = of_bool (lane_int sg vs1 \<le> lane_int sg vs2)"

definition VGt_lane :: "bool \<Rightarrow> 't::len word \<Rightarrow> 't word \<Rightarrow> 't word" where
  "VGt_lane sg vs1 vs2 = of_bool (lane_int sg vs1 > lane_int sg vs2)"

definition VGe_lane :: "bool \<Rightarrow> 't::len word \<Rightarrow> 't word \<Rightarrow> 't word" where
  "VGe_lane sg vs1 vs2 = of_bool (lane_int sg vs1 \<ge> lane_int sg vs2)"

definition VAbsd_lane :: "bool \<Rightarrow> 't::len word \<Rightarrow> 't word \<Rightarrow> 't word" where
  "VAbsd_lane sg vs1 vs2 =
     (if lane_int sg vs1 > lane_int sg vs2 then vs1 - vs2 else vs2 - vs1)"

definition VMax_lane :: "bool \<Rightarrow> 't::len word \<Rightarrow> 't word \<Rightarrow> 't word" where
  "VMax_lane sg vs1 vs2 = (if lane_int sg vs1 < lane_int sg vs2 then vs2 else vs1)"

definition VMin_lane :: "bool \<Rightarrow> 't::len word \<Rightarrow> 't word \<Rightarrow> 't word" where
  "VMin_lane sg vs1 vs2 = (if lane_int sg vs2 < lane_int sg vs1 then vs2 else vs1)"

definition VAdd3_lane :: "'t::len word \<Rightarrow> 't word \<Rightarrow> 't word \<Rightarrow> 't word" where
  "VAdd3_lane vd vs1 vs2 = vd + vs1 + vs2"

subsection \<open>Saturating addition and subtraction\<close>

definition VAddsHelper :: "'t::len word \<Rightarrow> 't word \<Rightarrow> 't word" where
  "VAddsHelper vs1 vs2 =
     (let sum = vs1 + vs2 in
      if sint (vs1 XOR vs2) \<ge> 0 \<and> sint (sum XOR vs1) < 0
      then (if sint vs1 > 0 then word_of_int (type_max True TYPE('t))
            else word_of_int (type_min True TYPE('t)))
      else sum)"

definition VAddsuHelper :: "'t::len word \<Rightarrow> 't word \<Rightarrow> 't word" where
  "VAddsuHelper vs1 vs2 =
     (let sum = vs1 + vs2 in
      if sum < vs1 then word_of_int (type_max False TYPE('t)) else sum)"

definition VSubsHelper :: "'t::len word \<Rightarrow> 't word \<Rightarrow> 't word" where
  "VSubsHelper vs1 vs2 =
     (let sub = vs1 - vs2 in
      if sint (vs1 XOR vs2) < 0 \<and> sint (sub XOR vs2) \<ge> 0
      then (if sint vs2 < 0 then word_of_int (type_max True TYPE('t))
            else word_of_int (type_min True TYPE('t)))
      else sub)"

definition VSubsu_lane :: "'t::len word \<Rightarrow> 't word \<Rightarrow> 't word" where
  "VSubsu_lane vs1 vs2 = (if vs1 < vs2 then 0 else vs1 - vs2)"

subsection \<open>Widening and pairwise addition\<close>

definition VAddw_lane :: "bool \<Rightarrow> 's::len word \<Rightarrow> 's word \<Rightarrow> 'd::len word" where
  "VAddw_lane sg vs1 vs2 = static_cast sg vs1 + static_cast sg vs2"

definition VSubw_lane :: "bool \<Rightarrow> 's::len word \<Rightarrow> 's word \<Rightarrow> 'd::len word" where
  "VSubw_lane sg vs1 vs2 = static_cast sg vs1 - static_cast sg vs2"

definition VAcc_lane :: "bool \<Rightarrow> 'd::len word \<Rightarrow> 's::len word \<Rightarrow> 'd word" where
  "VAcc_lane sg vs1 vs2 = vs1 + static_cast sg vs2"

definition VPadd_lane :: "bool \<Rightarrow> 's::len word \<Rightarrow> 's word \<Rightarrow> 'd::len word" where
  "VPadd_lane sg vs1 vs2 = static_cast sg vs1 + static_cast sg vs2"

definition VPsub_lane :: "bool \<Rightarrow> 's::len word \<Rightarrow> 's word \<Rightarrow> 'd::len word" where
  "VPsub_lane sg vs1 vs2 = static_cast sg vs1 - static_cast sg vs2"

subsection \<open>Halving addition and subtraction\<close>

definition CoralNPUVHaddHelper :: "bool \<Rightarrow> bool \<Rightarrow> 't::len word \<Rightarrow> 't word \<Rightarrow> 't word" where
  "CoralNPUVHaddHelper sg round vs1 vs2 =
     word_of_int (drop_bit 1 (c_arith sg (wide TYPE('t))
       (lane_int sg vs1 + lane_int sg vs2 + (if round then 1 else 0))))"

definition CoralNPUVHsubHelper :: "bool \<Rightarrow> bool \<Rightarrow> 't::len word \<Rightarrow> 't word \<Rightarrow> 't word" where
  "CoralNPUVHsubHelper sg round vs1 vs2 =
     word_of_int (drop_bit 1 (c_arith sg (wide TYPE('t))
       (lane_int sg vs1 - lane_int sg vs2 + (if round then 1 else 0))))"

subsection \<open>Bitwise operations\<close>

definition VAnd_lane :: "'t::len word \<Rightarrow> 't word \<Rightarrow> 't word" where
  "VAnd_lane vs1 vs2 = vs1 AND vs2"

definition VOr_lane :: "'t::len word \<Rightarrow> 't word \<Rightarrow> 't word" where
  "VOr_lane vs1 vs2 = vs1 OR vs2"

definition VXor_lane :: "'t::len word \<Rightarrow> 't word \<Rightarrow> 't word" where
  "VXor_lane vs1 vs2 = vs1 XOR vs2"

definition rev_step :: "nat \<Rightarrow> 't::len word \<Rightarrow> 't word \<Rightarrow> 't word \<Rightarrow> 't word" where
  "rev_step k lo hi r = push_bit k (r AND lo) OR drop_bit k (r AND hi)"

definition VRev_lane :: "'t::len word \<Rightarrow> 't word \<Rightarrow> 't word" where
  "VRev_lane vs1 vs2 =
     (let count = vs2 AND 0b11111;
          r = vs1;
          r = (if count AND 1 \<noteq> 0 then rev_step 1 0x55555555 0xAAAAAAAA r else r);
          r = (if count AND 2 \<noteq> 0 then rev_step 2 0x33333333 0xCCCCCCCC r else r);
          r = (if count AND 4 \<noteq> 0 then rev_step 4 0x0F0F0F0F 0xF0F0F0F0 r else r)
      in if sizeof TYPE('t) = 1 then r
         else let r = (if count AND 8 \<noteq> 0 then rev_step 8 0x00FF00FF 0xFF00FF00 r else r)
         in if sizeof TYPE('t) = 2 then r
         else if count AND 16 \<noteq> 0 then rev_step 16 0x0000FFFF 0xFFFF0000 r else r)"

definition VRor_lane :: "'t::len word \<Rightarrow> 't word \<Rightarrow> 't word" where
  "VRor_lane vs1 vs2 =
     (let count = vs2 AND word_of_nat (sizeof TYPE('t) * 8 - 1)
      in fold (\<lambda>shift r. if count AND word_of_nat shift \<noteq> 0
                 then drop_bit shift r OR push_bit (sizeof TYPE('t) * 8 - shift) r else r)
           [1, 2, 4, 8, 16] vs1)"

definition VMvp_lane :: "'t::len word \<Rightarrow> 't word \<Rightarrow> 't word" where
  "VMvp_lane vs1 vs2 = vs1"

subsection \<open>Shifts\<close>

definition shift_amount :: "'t::len word \<Rightarrow> nat" where
  "shift_amount vs2 = unat (vs2 AND word_of_nat (sizeof TYPE('t) * 8 - 1))"

definition VSll_lane :: "'t::len word \<Rightarrow> 't word \<Rightarrow> 't word" where
  "VSll_lane vs1 vs2 = push_bit (shift_amount vs2) vs1"

definition VSra_lane :: "'t::len word \<Rightarrow> 't word \<Rightarrow> 't word" where
  "VSra_lane vs1 vs2 = word_of_int (drop_bit (shift_amount vs2) (sint vs1))"

definition VSrl_lane :: "'t::len word \<Rightarrow> 't word \<Rightarrow> 't word" where
  "VSrl_lane vs1 vs2 = drop_bit (shift_amount vs2) vs1"

text \<open>
  \<open>vshift\<close>: a positive amount shifts right (optionally rounding), a negative one shifts left
  with saturation. \<open>None\<close> is the one input on which the code has no defined result: negating a
  shift amount of \<open>INT32_MIN\<close> overflows \<open>int\<close> (only reachable for 32-bit lanes), and the
  \<open>CHECK_LE\<close> that follows it fails.
\<close>

definition int_min :: int where
  "int_min = - (2 ^ 31)"

definition CoralNPUVShiftHelper_signed ::
    "bool \<Rightarrow> 't::len word \<Rightarrow> 't word \<Rightarrow> 't word option" where
  "CoralNPUVShiftHelper_signed round vs1 vs2 =
     (let kMaxShiftBit = int (sizeof TYPE('t) * 8);
          W = wide TYPE('t);
          shamt = sint vs2;
          v = sint vs1;
          neg_max = type_min True TYPE('t);
          pos_max = type_max True TYPE('t);
          finish = (\<lambda>shift.
            if v < 0 \<and> (shamt \<le> - kMaxShiftBit \<or> shift < neg_max) then word_of_int neg_max
            else if v > 0 \<and> (shamt \<le> - kMaxShiftBit \<or> shift > pos_max) then word_of_int pos_max
            else word_of_int shift)
      in if v = 0 then Some 0
         else if v < 0 \<and> shamt \<ge> kMaxShiftBit then Some (finish (-1 + (if round then 1 else 0)))
         else if v > 0 \<and> shamt \<ge> kMaxShiftBit then Some (finish 0)
         else if shamt > 0 then
           Some (finish (c_wrap True W (drop_bit (nat shamt) (c_arith True W
             (v + (if round then c_wrap True W (2 ^ nat (shamt - 1)) else 0))))))
         else if shamt = int_min then None
         else let ushamt = (if - shamt \<le> kMaxShiftBit then - shamt else kMaxShiftBit)
           in Some (finish (c_wrap True W (c_arith False W
                (push_bit (nat ushamt) (take_bit W v))))))"

definition CoralNPUVShiftHelper_unsigned ::
    "bool \<Rightarrow> 't::len word \<Rightarrow> 't word \<Rightarrow> 't word option" where
  "CoralNPUVShiftHelper_unsigned round vs1 vs2 =
     (let kMaxShiftBit = int (sizeof TYPE('t) * 8);
          W = wide TYPE('t);
          shamt = sint vs2;
          v = uint vs1;
          pos_max = type_max False TYPE('t);
          finish = (\<lambda>shift.
            if v \<noteq> 0 \<and> (shamt < - kMaxShiftBit \<or> shift > pos_max) then word_of_int pos_max
            else word_of_int shift)
      in if v = 0 then Some 0
         else if shamt > kMaxShiftBit then Some (finish 0)
         else if shamt > 0 then
           Some (finish (c_wrap False W (drop_bit (nat shamt) (c_arith False W
             (v + (if round then c_wrap False W (2 ^ nat (shamt - 1)) else 0))))))
         else if shamt = int_min then None
         else let ushamt = (if - shamt \<le> kMaxShiftBit then - shamt else kMaxShiftBit)
           in Some (finish (c_wrap False W (c_arith False W (push_bit (nat ushamt) v)))))"

definition CoralNPUVShiftHelper ::
    "bool \<Rightarrow> bool \<Rightarrow> 't::len word \<Rightarrow> 't word \<Rightarrow> 't word option" where
  "CoralNPUVShiftHelper sg round vs1 vs2 =
     (if sg then CoralNPUVShiftHelper_signed round vs1 vs2
      else CoralNPUVShiftHelper_unsigned round vs1 vs2)"

text \<open>
  \<open>vsrans\<close>/\<open>vsraqs\<close>: rounding right shift of a wide lane, saturated into a lane two or four times
  narrower. \<open>Ts\<close> is the source type, \<open>Td\<close> the destination type, both of signedness \<open>sg\<close>.
\<close>

definition CoralNPUVSransHelper ::
    "bool \<Rightarrow> bool \<Rightarrow> 's::len word \<Rightarrow> 'd::len word \<Rightarrow> 'd word" where
  "CoralNPUVSransHelper sg round vs1 vs2 =
     (let src_bits = sizeof TYPE('s) * 8;
          shift = unat (vs2 AND word_of_nat (src_bits - 1));
          W = wide TYPE('s);
          res = c_wrap sg W (drop_bit shift (c_arith sg W
            (lane_int sg vs1 +
             (if shift \<noteq> 0 \<and> round then c_wrap sg W (2 ^ (shift - 1)) else 0))))
      in if res < type_min sg TYPE('d) then word_of_int (type_min sg TYPE('d))
         else if res > type_max sg TYPE('d) then word_of_int (type_max sg TYPE('d))
         else if vs1 = 0 then 0
         else word_of_int res)"

subsection \<open>Unary operations\<close>

text \<open>
  \<open>absl::countl_zero\<close>, \<open>absl::countl_one\<close> and \<open>absl::popcount\<close> are library functions, so the
  operations that use them take them as arguments.
\<close>

definition VNot_lane :: "'t::len word \<Rightarrow> 't word" where
  "VNot_lane vs = NOT vs"

definition VClb_lane ::
    "('t::len word \<Rightarrow> nat) \<Rightarrow> ('t word \<Rightarrow> nat) \<Rightarrow> 't word \<Rightarrow> 't word" where
  "VClb_lane countl_one countl_zero vs =
     (if vs AND push_bit (sizeof TYPE('t) * 8 - 1) 1 \<noteq> 0
      then word_of_nat (countl_one vs) else word_of_nat (countl_zero vs))"

definition VClz_lane :: "('t::len word \<Rightarrow> nat) \<Rightarrow> 't word \<Rightarrow> 't word" where
  "VClz_lane countl_zero vs = word_of_nat (countl_zero vs)"

definition VCpop_lane :: "('t::len word \<Rightarrow> nat) \<Rightarrow> 't word \<Rightarrow> 't word" where
  "VCpop_lane popcount vs = word_of_nat (popcount vs)"

definition VMv_lane :: "'t::len word \<Rightarrow> 't word" where
  "VMv_lane vs = vs"

subsection \<open>Multiplication\<close>

definition VMul_lane :: "'t::len word \<Rightarrow> 't word \<Rightarrow> 't word" where
  "VMul_lane vs1 vs2 = word_of_int (c_arith True (wide TYPE('t)) (sint vs1 * sint vs2))"

definition VMuls_lane :: "bool \<Rightarrow> 't::len word \<Rightarrow> 't word \<Rightarrow> 't word" where
  "VMuls_lane sg vs1 vs2 =
     (let W = wide TYPE('t);
          result = c_wrap sg W (c_arith sg W (lane_int sg vs1 * lane_int sg vs2))
      in if sg then word_of_int (max (type_min sg TYPE('t)) (min (type_max sg TYPE('t)) result))
         else word_of_int (min (type_max sg TYPE('t)) result))"

definition VMulw_lane :: "bool \<Rightarrow> 's::len word \<Rightarrow> 's word \<Rightarrow> 'd::len word" where
  "VMulw_lane sg vs1 vs2 = static_cast sg vs1 * static_cast sg vs2"

definition CoralNPUVMulhHelper :: "bool \<Rightarrow> bool \<Rightarrow> 't::len word \<Rightarrow> 't word \<Rightarrow> 't word" where
  "CoralNPUVMulhHelper sg round vs1 vs2 =
     (let n = sizeof TYPE('t) * 8;
          W = wide TYPE('t);
          result = c_wrap sg W (c_arith sg W (lane_int sg vs1 * lane_int sg vs2));
          result = c_wrap sg W (c_arith sg W
            (result + (if round then c_wrap sg W (2 ^ (n - 1)) else 0)))
      in word_of_int (drop_bit n result))"

definition CoralNPUVDmulhHelper :: "bool \<Rightarrow> bool \<Rightarrow> 't::len word \<Rightarrow> 't word \<Rightarrow> 't word" where
  "CoralNPUVDmulhHelper round round_neg vs1 vs2 =
     (let n = sizeof TYPE('t) * 8;
          W = wide TYPE('t);
          result = c_wrap True W (c_arith True W (sint vs1 * sint vs2));
          result = (if round then
              (let rnd = c_wrap True W (drop_bit (32 - n) 0x40000000);
                   rnd = (if result < 0 \<and> round_neg
                          then c_wrap True W (drop_bit (32 - n) (- 0x40000000)) else rnd)
               in c_wrap True W (c_arith True W (result + rnd)))
            else result);
          result = drop_bit (n - 1) result;
          result = (if sint vs1 = type_min True TYPE('t) \<and> sint vs2 = type_min True TYPE('t)
                    then type_max True TYPE('t) else result)
      in word_of_int result)"

definition VMacc_lane :: "'t::len word \<Rightarrow> 't word \<Rightarrow> 't word \<Rightarrow> 't word" where
  "VMacc_lane vd vs1 vs2 =
     word_of_int (c_arith True (wide TYPE('t)) (sint vd + sint vs1 * sint vs2))"

definition VMadd_lane :: "'t::len word \<Rightarrow> 't word \<Rightarrow> 't word \<Rightarrow> 't word" where
  "VMadd_lane vd vs1 vs2 =
     word_of_int (c_arith True (wide TYPE('t)) (sint vs1 + sint vd * sint vs2))"

subsection \<open>Lane selection\<close>

definition VSel_lane :: "'t::len word \<Rightarrow> 't word \<Rightarrow> 't word \<Rightarrow> 't word" where
  "VSel_lane vd vs1 vs2 = (if vs1 AND 1 \<noteq> 0 then vd else vs2)"

definition first_arg_lane :: "'t::len word \<Rightarrow> 't word \<Rightarrow> 't word" where
  "first_arg_lane vs1 vs2 = vs1"

end
