(* ===== verification/NPU_VectorEngine.thy ===== *)
theory NPU_VectorEngine
  imports NPU_Lanes
begin

text \<open>
  The vector-operation engine of \<open>sim/coralnpu_vector_instructions.cc\<close> and the SIMD instructions
  built on it: \<open>CoralNPUBinaryVectorOp\<close> and \<open>CoralNPUUnaryVectorOp\<close> walk the destination
  registers of a (possibly strip-mined) operation, fetch the operands of every lane through an
  argument getter, apply the lane function and submit the result.

  The operands themselves (\<open>RV32VectorSourceOperand\<close>, \<open>RV32VectorDestinationOperand\<close>,
  \<open>DataBuffer\<close>) belong to the MPACT library. They are the fields of a \<open>vinst\<close>:
  \<open>source1 s i k\<close> is \<open>GetInstructionSource<Vs1>(inst, i, k)\<close> in state \<open>s\<close>, and so on.
\<close>

record (overloaded) ('st, 'd::len, 'a::len, 'b::len) vinst =
  vector_register_width :: nat
  source1 :: "'st \<Rightarrow> nat \<Rightarrow> nat \<Rightarrow> 'a word"
  source2 :: "'st \<Rightarrow> nat \<Rightarrow> nat \<Rightarrow> 'b word"
  AllocateDataBuffer :: "nat \<Rightarrow> 'd word list"
  CopyDataBuffer :: "'st \<Rightarrow> nat \<Rightarrow> 'd word list"
  Submit :: "nat \<Rightarrow> 'd word list \<Rightarrow> 'st \<Rightarrow> 'st"

text \<open>The operation of a vector instruction: two operands, or the old destination lane as well.\<close>

datatype ('d, 'a, 'b) vop = Op2 "'a \<Rightarrow> 'b \<Rightarrow> 'd" | Op3 "'d \<Rightarrow> 'a \<Rightarrow> 'b \<Rightarrow> 'd"

fun BinaryOpInvoke :: "('d, 'a, 'b) vop \<Rightarrow> 'd \<Rightarrow> 'a \<Rightarrow> 'b \<Rightarrow> 'd" where
  "BinaryOpInvoke (Op2 f) vd vs1 vs2 = f vs1 vs2"
| "BinaryOpInvoke (Op3 f) vd vs1 vs2 = f vd vs1 vs2"

fun is_reading_dest :: "('d, 'a, 'b) vop \<Rightarrow> bool" where
  "is_reading_dest (Op2 f) = False"
| "is_reading_dest (Op3 f) = True"

type_synonym ('st, 'd, 'a, 'b, 'x) getter =
  "('st, 'd, 'a, 'b) vinst \<Rightarrow> 'st \<Rightarrow> bool \<Rightarrow> nat \<Rightarrow> nat \<Rightarrow> nat \<Rightarrow> nat \<Rightarrow> 'x word"

subsection \<open>Argument getters\<close>

definition CommonBinaryOpGetArg1 :: "('st, 'd::len, 'a::len, 'b::len, 'a) getter" where
  "CommonBinaryOpGetArg1 inst s scalar num_ops op_index dst_element_index dst_reg_index =
     (let elts_per_register = vector_register_width inst div sizeof TYPE('a);
          src_element_index = op_index * elts_per_register
            + dst_element_index * sizeof TYPE('d) div sizeof TYPE('a);
          src_element_index =
            (if sizeof TYPE('d) = sizeof TYPE('a) \<and> sizeof TYPE('a) = 2 * sizeof TYPE('b)
             then src_element_index + num_ops * elts_per_register * dst_reg_index
             else src_element_index + dst_reg_index)
      in source1 inst s 0 src_element_index)"

definition CommonBinaryOpGetArg2 :: "('st, 'd::len, 'a::len, 'b::len, 'b) getter" where
  "CommonBinaryOpGetArg2 inst s scalar num_ops op_index dst_element_index dst_reg_index =
     (let elts_per_register = vector_register_width inst div sizeof TYPE('b);
          src_element_index = op_index * elts_per_register
            + dst_element_index * sizeof TYPE('d) div sizeof TYPE('b) + dst_reg_index
      in source2 inst s 1 (if scalar then 0 else src_element_index))"

definition PackedBinaryOpGetArg1 :: "('st, 'd::len, 'a::len, 'b::len, 'a) getter" where
  "PackedBinaryOpGetArg1 inst s scalar num_ops op_index dst_element_index dst_reg_index =
     (let elts_per_register = vector_register_width inst div sizeof TYPE('a);
          src_element_index = op_index * elts_per_register
            + dst_element_index * sizeof TYPE('d) div sizeof TYPE('a)
      in source1 inst s 0 src_element_index)"

definition PackedBinaryOpGetArg2 :: "('st, 'd::len, 'a::len, 'b::len, 'b) getter" where
  "PackedBinaryOpGetArg2 inst s scalar num_ops op_index dst_element_index dst_reg_index =
     (let elts_per_register = vector_register_width inst div sizeof TYPE('b);
          src_element_index = op_index * elts_per_register
            + dst_element_index * sizeof TYPE('d) div sizeof TYPE('b) + 1
      in source2 inst s 0 src_element_index)"

text \<open>The getters of the permutation instructions take both operands with one element type.\<close>

definition VMvpOpGetArg1 :: "('st, 't::len, 't, 't, 't) getter" where
  "VMvpOpGetArg1 inst s scalar num_ops op_index dst_element_index dst_reg_index =
     (if dst_reg_index = 0
      then CommonBinaryOpGetArg1 inst s scalar num_ops op_index dst_element_index 0
      else CommonBinaryOpGetArg2 inst s scalar num_ops op_index dst_element_index 0)"

definition VSransOpGetArg1 :: "('st, 'd::len, 'a::len, 'b::len, 'a) getter" where
  "VSransOpGetArg1 inst s scalar num_ops op_index dst_element_index dst_reg_index =
     (let elts_per_register = vector_register_width inst div sizeof TYPE('a);
          src_element_index = op_index * elts_per_register
            + dst_element_index * sizeof TYPE('d) div sizeof TYPE('a);
          src_element_index =
            (if sizeof TYPE('a) div sizeof TYPE('d) = 2
             then src_element_index + (if odd dst_element_index then num_ops * elts_per_register else 0)
             else src_element_index
               + [0, 2, 1, 3] ! (dst_element_index mod 4) * num_ops * elts_per_register)
      in source1 inst s 0 src_element_index)"

text \<open>\<open>size_t\<close> arithmetic of the slide getters: subtraction wraps modulo \<open>2 ^ 64\<close>.\<close>

definition size_t :: "int \<Rightarrow> nat" where
  "size_t v = nat (v mod 2 ^ 64)"

definition interleave :: "(nat \<times> nat) list \<Rightarrow> (nat \<times> nat) list \<Rightarrow> bool \<Rightarrow> nat \<Rightarrow> nat \<times> nat" where
  "interleave vertical horizontal h op_index = (if h then horizontal else vertical) ! op_index"

definition VSlidenOpGetArg1 :: "bool \<Rightarrow> int \<Rightarrow> ('st, 't::len, 't, 't, 't) getter" where
  "VSlidenOpGetArg1 horizontal index inst s scalar num_ops op_index dst_element_index dst_reg_index =
     (let elts_per_register = vector_register_width inst div sizeof TYPE('t);
          interleave_start = interleave [(0, 0), (1, 0), (2, 0), (3, 0)] [(0, 0), (1, 0), (2, 0), (3, 0)]
            horizontal op_index;
          interleave_end = interleave [(0, 1), (1, 1), (2, 1), (3, 1)] [(1, 0), (2, 0), (3, 0), (0, 1)]
            horizontal op_index
      in if size_t (int dst_element_index + index) < elts_per_register
         then source1 inst s (snd interleave_start)
           (size_t (int (fst interleave_start * elts_per_register + dst_element_index) + index))
         else source1 inst s (snd interleave_end)
           (size_t (int (fst interleave_end * elts_per_register + dst_element_index) + index
              - int elts_per_register)))"

definition VSlidepOpGetArg1 :: "bool \<Rightarrow> int \<Rightarrow> ('st, 't::len, 't, 't, 't) getter" where
  "VSlidepOpGetArg1 horizontal index inst s scalar num_ops op_index dst_element_index dst_reg_index =
     (let elts_per_register = vector_register_width inst div sizeof TYPE('t);
          interleave_start = interleave [(0, 0), (1, 0), (2, 0), (3, 0)] [(3, 0), (0, 1), (1, 1), (2, 1)]
            horizontal op_index;
          interleave_end = interleave [(0, 1), (1, 1), (2, 1), (3, 1)] [(0, 1), (1, 1), (2, 1), (3, 1)]
            horizontal op_index
      in if int dst_element_index < index
         then source1 inst s (snd interleave_start)
           (size_t (int (fst interleave_start * elts_per_register + dst_element_index) - index
              + int elts_per_register))
         else source1 inst s (snd interleave_end)
           (size_t (int (fst interleave_end * elts_per_register + dst_element_index) - index)))"

definition VEvnOpGetArg1 :: "('st, 't::len, 't, 't, 't) getter" where
  "VEvnOpGetArg1 inst s scalar num_ops op_index dst_element_index dst_reg_index =
     (let elts_per_register = vector_register_width inst div sizeof TYPE('t);
          src_element_index = op_index * elts_per_register * 2 + dst_element_index * 2;
          elts_per_src = elts_per_register * num_ops
      in if src_element_index < elts_per_src then source1 inst s 0 src_element_index
         else source1 inst s 1 (if scalar then 0 else src_element_index - elts_per_src))"

definition VOddOpGetArg1 :: "('st, 't::len, 't, 't, 't) getter" where
  "VOddOpGetArg1 inst s scalar num_ops op_index dst_element_index dst_reg_index =
     (let elts_per_register = vector_register_width inst div sizeof TYPE('t);
          src_element_index = op_index * elts_per_register * 2 + dst_element_index * 2 + 1;
          elts_per_src = elts_per_register * num_ops
      in if src_element_index < elts_per_src then source1 inst s 0 src_element_index
         else source1 inst s 1 (if scalar then 0 else src_element_index - elts_per_src))"

definition VEvnoddOpGetArg1 :: "('st, 't::len, 't, 't, 't) getter" where
  "VEvnoddOpGetArg1 inst s scalar num_ops op_index dst_element_index dst_reg_index =
     (if dst_reg_index = 0
      then VEvnOpGetArg1 inst s scalar num_ops op_index dst_element_index dst_reg_index
      else VOddOpGetArg1 inst s scalar num_ops op_index dst_element_index dst_reg_index)"

definition VZipOpGetArg1 :: "('st, 't::len, 't, 't, 't) getter" where
  "VZipOpGetArg1 inst s scalar num_ops op_index dst_element_index dst_reg_index =
     (let elts_per_register = vector_register_width inst div sizeof TYPE('t);
          half_elts_per_register = elts_per_register div 2;
          src_element_index = op_index * half_elts_per_register + dst_element_index div 2
            + dst_reg_index * half_elts_per_register * num_ops
      in if odd dst_element_index
         then source1 inst s 1 (if scalar then 0 else src_element_index)
         else source1 inst s 0 src_element_index)"

subsection \<open>The engine\<close>

definition strip_num_ops :: "bool \<Rightarrow> nat" where
  "strip_num_ops strip_mine = (if strip_mine then 4 else 1)"

definition dest_regs_per_op :: "bool \<Rightarrow> bool \<Rightarrow> 'd::len itself \<Rightarrow> 'b::len itself \<Rightarrow> nat" where
  "dest_regs_per_op halftype widen_dst D B =
     (if (sizeof TYPE('d) > sizeof TYPE('b) \<and> \<not> halftype) \<or> widen_dst then 2 else 1)"

text \<open>The two inner loops: every lane of every destination buffer of one operation.\<close>

definition op_lanes ::
    "('st, 'd::len, 'a::len, 'b::len) vinst \<Rightarrow> bool \<Rightarrow> ('d word, 'a word, 'b word) vop
     \<Rightarrow> ('st, 'd, 'a, 'b, 'a) getter \<Rightarrow> ('st, 'd, 'a, 'b, 'b) getter
     \<Rightarrow> nat \<Rightarrow> nat \<Rightarrow> nat \<Rightarrow> 'st \<Rightarrow> 'd word list list \<Rightarrow> 'd word list list" where
  "op_lanes inst scalar op get1 get2 num_ops regs op_index s dest_span =
     fold (\<lambda>e dest_span. fold (\<lambda>i dest_span. dest_span[i := (dest_span ! i)[e :=
          BinaryOpInvoke op (dest_span ! i ! e)
            (get1 inst s scalar num_ops op_index e i) (get2 inst s scalar num_ops op_index e i)]])
        [0..<regs] dest_span)
      [0..<vector_register_width inst div sizeof TYPE('d)] dest_span"

definition vector_op_step ::
    "bool \<Rightarrow> bool \<Rightarrow> ('st, 'd::len, 'a::len, 'b::len) vinst \<Rightarrow> bool \<Rightarrow> bool
     \<Rightarrow> ('d word, 'a word, 'b word) vop
     \<Rightarrow> ('st, 'd, 'a, 'b, 'a) getter \<Rightarrow> ('st, 'd, 'a, 'b, 'b) getter \<Rightarrow> nat \<Rightarrow> 'st \<Rightarrow> 'st" where
  "vector_op_step halftype widen_dst inst scalar strip_mine op get1 get2 op_index s =
     (let num_ops = strip_num_ops strip_mine;
          regs = dest_regs_per_op halftype widen_dst TYPE('d) TYPE('b);
          dest_db = map (\<lambda>i. if is_reading_dest op then CopyDataBuffer inst s (op_index + i * num_ops)
            else AllocateDataBuffer inst (op_index + i * num_ops)) [0..<regs];
          dest_db = op_lanes inst scalar op get1 get2 num_ops regs op_index s dest_db
      in fold (\<lambda>i s. Submit inst (op_index + i * num_ops) (dest_db ! i) s) [0..<regs] s)"

definition CoralNPUBinaryVectorOp ::
    "bool \<Rightarrow> bool \<Rightarrow> ('st, 'd::len, 'a::len, 'b::len) vinst \<Rightarrow> bool \<Rightarrow> bool
     \<Rightarrow> ('d word, 'a word, 'b word) vop
     \<Rightarrow> ('st, 'd, 'a, 'b, 'a) getter \<Rightarrow> ('st, 'd, 'a, 'b, 'b) getter \<Rightarrow> 'st \<Rightarrow> 'st" where
  "CoralNPUBinaryVectorOp halftype widen_dst inst scalar strip_mine op get1 get2 s =
     fold (vector_op_step halftype widen_dst inst scalar strip_mine op get1 get2)
       [0..<strip_num_ops strip_mine] s"

definition CoralNPUUnaryVectorOp ::
    "('st, 'd::len, 'a::len, 'a) vinst \<Rightarrow> bool \<Rightarrow> ('a word \<Rightarrow> 'd word)
     \<Rightarrow> ('st, 'd, 'a, 'a, 'a) getter \<Rightarrow> 'st \<Rightarrow> 'st" where
  "CoralNPUUnaryVectorOp inst strip_mine op arg_getter s =
     (let num_ops = strip_num_ops strip_mine in
      fold (\<lambda>op_index s.
         let dest_db = AllocateDataBuffer inst op_index;
             dest_db = fold (\<lambda>e dest_span. dest_span[e :=
                 op (arg_getter inst s False num_ops op_index e 0)])
               [0..<vector_register_width inst div sizeof TYPE('d)] dest_db
         in Submit inst op_index dest_db s)
       [0..<num_ops] s)"

subsection \<open>Two-operand instructions\<close>

text \<open>\<open>inst\<close> is the decoded instruction, \<open>scalar\<close> and \<open>strip_mine\<close> the bound template arguments.\<close>

definition CoralNPUVAdd ::
    "bool \<Rightarrow> bool \<Rightarrow> ('st, 't::len, 't, 't) vinst \<Rightarrow> 'st \<Rightarrow> 'st" where
  "CoralNPUVAdd scalar strip_mine inst =
     CoralNPUBinaryVectorOp False False inst scalar strip_mine (Op2 VAdd_lane)
       CommonBinaryOpGetArg1 CommonBinaryOpGetArg2"

definition CoralNPUVSub ::
    "bool \<Rightarrow> bool \<Rightarrow> ('st, 't::len, 't, 't) vinst \<Rightarrow> 'st \<Rightarrow> 'st" where
  "CoralNPUVSub scalar strip_mine inst =
     CoralNPUBinaryVectorOp False False inst scalar strip_mine (Op2 VSub_lane)
       CommonBinaryOpGetArg1 CommonBinaryOpGetArg2"

definition CoralNPUVRSub ::
    "bool \<Rightarrow> bool \<Rightarrow> ('st, 't::len, 't, 't) vinst \<Rightarrow> 'st \<Rightarrow> 'st" where
  "CoralNPUVRSub scalar strip_mine inst =
     CoralNPUBinaryVectorOp False False inst scalar strip_mine (Op2 VRSub_lane)
       CommonBinaryOpGetArg1 CommonBinaryOpGetArg2"

definition CoralNPUVEq ::
    "bool \<Rightarrow> bool \<Rightarrow> ('st, 't::len, 't, 't) vinst \<Rightarrow> 'st \<Rightarrow> 'st" where
  "CoralNPUVEq scalar strip_mine inst =
     CoralNPUBinaryVectorOp False False inst scalar strip_mine (Op2 VEq_lane)
       CommonBinaryOpGetArg1 CommonBinaryOpGetArg2"

definition CoralNPUVNe ::
    "bool \<Rightarrow> bool \<Rightarrow> ('st, 't::len, 't, 't) vinst \<Rightarrow> 'st \<Rightarrow> 'st" where
  "CoralNPUVNe scalar strip_mine inst =
     CoralNPUBinaryVectorOp False False inst scalar strip_mine (Op2 VNe_lane)
       CommonBinaryOpGetArg1 CommonBinaryOpGetArg2"

definition CoralNPUVLt ::
    "bool \<Rightarrow> bool \<Rightarrow> bool \<Rightarrow> ('st, 't::len, 't, 't) vinst \<Rightarrow> 'st \<Rightarrow> 'st" where
  "CoralNPUVLt sg scalar strip_mine inst =
     CoralNPUBinaryVectorOp False False inst scalar strip_mine (Op2 (VLt_lane sg))
       CommonBinaryOpGetArg1 CommonBinaryOpGetArg2"

definition CoralNPUVLe ::
    "bool \<Rightarrow> bool \<Rightarrow> bool \<Rightarrow> ('st, 't::len, 't, 't) vinst \<Rightarrow> 'st \<Rightarrow> 'st" where
  "CoralNPUVLe sg scalar strip_mine inst =
     CoralNPUBinaryVectorOp False False inst scalar strip_mine (Op2 (VLe_lane sg))
       CommonBinaryOpGetArg1 CommonBinaryOpGetArg2"

definition CoralNPUVGt ::
    "bool \<Rightarrow> bool \<Rightarrow> bool \<Rightarrow> ('st, 't::len, 't, 't) vinst \<Rightarrow> 'st \<Rightarrow> 'st" where
  "CoralNPUVGt sg scalar strip_mine inst =
     CoralNPUBinaryVectorOp False False inst scalar strip_mine (Op2 (VGt_lane sg))
       CommonBinaryOpGetArg1 CommonBinaryOpGetArg2"

definition CoralNPUVGe ::
    "bool \<Rightarrow> bool \<Rightarrow> bool \<Rightarrow> ('st, 't::len, 't, 't) vinst \<Rightarrow> 'st \<Rightarrow> 'st" where
  "CoralNPUVGe sg scalar strip_mine inst =
     CoralNPUBinaryVectorOp False False inst scalar strip_mine (Op2 (VGe_lane sg))
       CommonBinaryOpGetArg1 CommonBinaryOpGetArg2"

definition CoralNPUVAbsd ::
    "bool \<Rightarrow> bool \<Rightarrow> bool \<Rightarrow> ('st, 't::len, 't, 't) vinst \<Rightarrow> 'st \<Rightarrow> 'st" where
  "CoralNPUVAbsd sg scalar strip_mine inst =
     CoralNPUBinaryVectorOp False False inst scalar strip_mine (Op2 (VAbsd_lane sg))
       CommonBinaryOpGetArg1 CommonBinaryOpGetArg2"

definition CoralNPUVMax ::
    "bool \<Rightarrow> bool \<Rightarrow> bool \<Rightarrow> ('st, 't::len, 't, 't) vinst \<Rightarrow> 'st \<Rightarrow> 'st" where
  "CoralNPUVMax sg scalar strip_mine inst =
     CoralNPUBinaryVectorOp False False inst scalar strip_mine (Op2 (VMax_lane sg))
       CommonBinaryOpGetArg1 CommonBinaryOpGetArg2"

definition CoralNPUVMin ::
    "bool \<Rightarrow> bool \<Rightarrow> bool \<Rightarrow> ('st, 't::len, 't, 't) vinst \<Rightarrow> 'st \<Rightarrow> 'st" where
  "CoralNPUVMin sg scalar strip_mine inst =
     CoralNPUBinaryVectorOp False False inst scalar strip_mine (Op2 (VMin_lane sg))
       CommonBinaryOpGetArg1 CommonBinaryOpGetArg2"

definition CoralNPUVAdd3 ::
    "bool \<Rightarrow> bool \<Rightarrow> ('st, 't::len, 't, 't) vinst \<Rightarrow> 'st \<Rightarrow> 'st" where
  "CoralNPUVAdd3 scalar strip_mine inst =
     CoralNPUBinaryVectorOp False False inst scalar strip_mine (Op3 VAdd3_lane)
       CommonBinaryOpGetArg1 CommonBinaryOpGetArg2"

definition CoralNPUVAdds ::
    "bool \<Rightarrow> bool \<Rightarrow> ('st, 't::len, 't, 't) vinst \<Rightarrow> 'st \<Rightarrow> 'st" where
  "CoralNPUVAdds scalar strip_mine inst =
     CoralNPUBinaryVectorOp False False inst scalar strip_mine (Op2 VAddsHelper)
       CommonBinaryOpGetArg1 CommonBinaryOpGetArg2"

definition CoralNPUVAddsu ::
    "bool \<Rightarrow> bool \<Rightarrow> ('st, 't::len, 't, 't) vinst \<Rightarrow> 'st \<Rightarrow> 'st" where
  "CoralNPUVAddsu scalar strip_mine inst =
     CoralNPUBinaryVectorOp False False inst scalar strip_mine (Op2 VAddsuHelper)
       CommonBinaryOpGetArg1 CommonBinaryOpGetArg2"

definition CoralNPUVSubs ::
    "bool \<Rightarrow> bool \<Rightarrow> ('st, 't::len, 't, 't) vinst \<Rightarrow> 'st \<Rightarrow> 'st" where
  "CoralNPUVSubs scalar strip_mine inst =
     CoralNPUBinaryVectorOp False False inst scalar strip_mine (Op2 VSubsHelper)
       CommonBinaryOpGetArg1 CommonBinaryOpGetArg2"

definition CoralNPUVSubsu ::
    "bool \<Rightarrow> bool \<Rightarrow> ('st, 't::len, 't, 't) vinst \<Rightarrow> 'st \<Rightarrow> 'st" where
  "CoralNPUVSubsu scalar strip_mine inst =
     CoralNPUBinaryVectorOp False False inst scalar strip_mine (Op2 VSubsu_lane)
       CommonBinaryOpGetArg1 CommonBinaryOpGetArg2"

definition CoralNPUVAddw ::
    "bool \<Rightarrow> bool \<Rightarrow> bool \<Rightarrow> ('st, 'd::len, 's::len, 's) vinst \<Rightarrow> 'st \<Rightarrow> 'st" where
  "CoralNPUVAddw sg scalar strip_mine inst =
     CoralNPUBinaryVectorOp False False inst scalar strip_mine (Op2 (VAddw_lane sg))
       CommonBinaryOpGetArg1 CommonBinaryOpGetArg2"

definition CoralNPUVSubw ::
    "bool \<Rightarrow> bool \<Rightarrow> bool \<Rightarrow> ('st, 'd::len, 's::len, 's) vinst \<Rightarrow> 'st \<Rightarrow> 'st" where
  "CoralNPUVSubw sg scalar strip_mine inst =
     CoralNPUBinaryVectorOp False False inst scalar strip_mine (Op2 (VSubw_lane sg))
       CommonBinaryOpGetArg1 CommonBinaryOpGetArg2"

definition CoralNPUVAcc ::
    "bool \<Rightarrow> bool \<Rightarrow> bool \<Rightarrow> ('st, 'd::len, 'd, 's::len) vinst \<Rightarrow> 'st \<Rightarrow> 'st" where
  "CoralNPUVAcc sg scalar strip_mine inst =
     CoralNPUBinaryVectorOp False False inst scalar strip_mine (Op2 (VAcc_lane sg))
       CommonBinaryOpGetArg1 CommonBinaryOpGetArg2"

definition CoralNPUVPadd ::
    "bool \<Rightarrow> bool \<Rightarrow> ('st, 'd::len, 's::len, 's) vinst \<Rightarrow> 'st \<Rightarrow> 'st" where
  "CoralNPUVPadd sg strip_mine inst =
     CoralNPUBinaryVectorOp True False inst False strip_mine (Op2 (VPadd_lane sg))
       PackedBinaryOpGetArg1 PackedBinaryOpGetArg2"

definition CoralNPUVPsub ::
    "bool \<Rightarrow> bool \<Rightarrow> ('st, 'd::len, 's::len, 's) vinst \<Rightarrow> 'st \<Rightarrow> 'st" where
  "CoralNPUVPsub sg strip_mine inst =
     CoralNPUBinaryVectorOp True False inst False strip_mine (Op2 (VPsub_lane sg))
       PackedBinaryOpGetArg1 PackedBinaryOpGetArg2"

definition CoralNPUVHadd ::
    "bool \<Rightarrow> bool \<Rightarrow> bool \<Rightarrow> bool \<Rightarrow> ('st, 't::len, 't, 't) vinst \<Rightarrow> 'st \<Rightarrow> 'st" where
  "CoralNPUVHadd sg scalar strip_mine round inst =
     CoralNPUBinaryVectorOp False False inst scalar strip_mine (Op2 (CoralNPUVHaddHelper sg round))
       CommonBinaryOpGetArg1 CommonBinaryOpGetArg2"

definition CoralNPUVHsub ::
    "bool \<Rightarrow> bool \<Rightarrow> bool \<Rightarrow> bool \<Rightarrow> ('st, 't::len, 't, 't) vinst \<Rightarrow> 'st \<Rightarrow> 'st" where
  "CoralNPUVHsub sg scalar strip_mine round inst =
     CoralNPUBinaryVectorOp False False inst scalar strip_mine (Op2 (CoralNPUVHsubHelper sg round))
       CommonBinaryOpGetArg1 CommonBinaryOpGetArg2"

definition CoralNPUVAnd ::
    "bool \<Rightarrow> bool \<Rightarrow> ('st, 't::len, 't, 't) vinst \<Rightarrow> 'st \<Rightarrow> 'st" where
  "CoralNPUVAnd scalar strip_mine inst =
     CoralNPUBinaryVectorOp False False inst scalar strip_mine (Op2 VAnd_lane)
       CommonBinaryOpGetArg1 CommonBinaryOpGetArg2"

definition CoralNPUVOr ::
    "bool \<Rightarrow> bool \<Rightarrow> ('st, 't::len, 't, 't) vinst \<Rightarrow> 'st \<Rightarrow> 'st" where
  "CoralNPUVOr scalar strip_mine inst =
     CoralNPUBinaryVectorOp False False inst scalar strip_mine (Op2 VOr_lane)
       CommonBinaryOpGetArg1 CommonBinaryOpGetArg2"

definition CoralNPUVXor ::
    "bool \<Rightarrow> bool \<Rightarrow> ('st, 't::len, 't, 't) vinst \<Rightarrow> 'st \<Rightarrow> 'st" where
  "CoralNPUVXor scalar strip_mine inst =
     CoralNPUBinaryVectorOp False False inst scalar strip_mine (Op2 VXor_lane)
       CommonBinaryOpGetArg1 CommonBinaryOpGetArg2"

definition CoralNPUVRev ::
    "bool \<Rightarrow> bool \<Rightarrow> ('st, 't::len, 't, 't) vinst \<Rightarrow> 'st \<Rightarrow> 'st" where
  "CoralNPUVRev scalar strip_mine inst =
     CoralNPUBinaryVectorOp False False inst scalar strip_mine (Op2 VRev_lane)
       CommonBinaryOpGetArg1 CommonBinaryOpGetArg2"

definition CoralNPUVRor ::
    "bool \<Rightarrow> bool \<Rightarrow> ('st, 't::len, 't, 't) vinst \<Rightarrow> 'st \<Rightarrow> 'st" where
  "CoralNPUVRor scalar strip_mine inst =
     CoralNPUBinaryVectorOp False False inst scalar strip_mine (Op2 VRor_lane)
       CommonBinaryOpGetArg1 CommonBinaryOpGetArg2"

definition CoralNPUVMvp ::
    "bool \<Rightarrow> bool \<Rightarrow> ('st, 't::len, 't, 't) vinst \<Rightarrow> 'st \<Rightarrow> 'st" where
  "CoralNPUVMvp scalar strip_mine inst =
     CoralNPUBinaryVectorOp False True inst scalar strip_mine (Op2 VMvp_lane)
       VMvpOpGetArg1 VMvpOpGetArg1"

definition CoralNPUVSll ::
    "bool \<Rightarrow> bool \<Rightarrow> ('st, 't::len, 't, 't) vinst \<Rightarrow> 'st \<Rightarrow> 'st" where
  "CoralNPUVSll scalar strip_mine inst =
     CoralNPUBinaryVectorOp False False inst scalar strip_mine (Op2 VSll_lane)
       CommonBinaryOpGetArg1 CommonBinaryOpGetArg2"

definition CoralNPUVSra ::
    "bool \<Rightarrow> bool \<Rightarrow> ('st, 't::len, 't, 't) vinst \<Rightarrow> 'st \<Rightarrow> 'st" where
  "CoralNPUVSra scalar strip_mine inst =
     CoralNPUBinaryVectorOp False False inst scalar strip_mine (Op2 VSra_lane)
       CommonBinaryOpGetArg1 CommonBinaryOpGetArg2"

definition CoralNPUVSrl ::
    "bool \<Rightarrow> bool \<Rightarrow> ('st, 't::len, 't, 't) vinst \<Rightarrow> 'st \<Rightarrow> 'st" where
  "CoralNPUVSrl scalar strip_mine inst =
     CoralNPUBinaryVectorOp False False inst scalar strip_mine (Op2 VSrl_lane)
       CommonBinaryOpGetArg1 CommonBinaryOpGetArg2"

text \<open>\<open>the\<close> is applied to \<open>None\<close> only for the shift amount \<open>INT32_MIN\<close>, where the code aborts.\<close>

definition CoralNPUVShift ::
    "bool \<Rightarrow> bool \<Rightarrow> bool \<Rightarrow> bool \<Rightarrow> ('st, 't::len, 't, 't) vinst \<Rightarrow> 'st \<Rightarrow> 'st" where
  "CoralNPUVShift sg round scalar strip_mine inst =
     CoralNPUBinaryVectorOp False False inst scalar strip_mine (Op2 (\<lambda>vs1 vs2. the (CoralNPUVShiftHelper sg round vs1 vs2)))
       CommonBinaryOpGetArg1 CommonBinaryOpGetArg2"

definition CoralNPUVSrans ::
    "bool \<Rightarrow> bool \<Rightarrow> bool \<Rightarrow> bool \<Rightarrow> ('st, 'd::len, 's::len, 'd) vinst \<Rightarrow> 'st \<Rightarrow> 'st" where
  "CoralNPUVSrans sg round scalar strip_mine inst =
     CoralNPUBinaryVectorOp False False inst scalar strip_mine (Op2 (CoralNPUVSransHelper sg round))
       VSransOpGetArg1 CommonBinaryOpGetArg2"

definition CoralNPUVMul ::
    "bool \<Rightarrow> bool \<Rightarrow> ('st, 't::len, 't, 't) vinst \<Rightarrow> 'st \<Rightarrow> 'st" where
  "CoralNPUVMul scalar strip_mine inst =
     CoralNPUBinaryVectorOp False False inst scalar strip_mine (Op2 VMul_lane)
       CommonBinaryOpGetArg1 CommonBinaryOpGetArg2"

definition CoralNPUVMuls ::
    "bool \<Rightarrow> bool \<Rightarrow> bool \<Rightarrow> ('st, 't::len, 't, 't) vinst \<Rightarrow> 'st \<Rightarrow> 'st" where
  "CoralNPUVMuls sg scalar strip_mine inst =
     CoralNPUBinaryVectorOp False False inst scalar strip_mine (Op2 (VMuls_lane sg))
       CommonBinaryOpGetArg1 CommonBinaryOpGetArg2"

definition CoralNPUVMulw ::
    "bool \<Rightarrow> bool \<Rightarrow> bool \<Rightarrow> ('st, 'd::len, 's::len, 's) vinst \<Rightarrow> 'st \<Rightarrow> 'st" where
  "CoralNPUVMulw sg scalar strip_mine inst =
     CoralNPUBinaryVectorOp False False inst scalar strip_mine (Op2 (VMulw_lane sg))
       CommonBinaryOpGetArg1 CommonBinaryOpGetArg2"

definition CoralNPUVMulh ::
    "bool \<Rightarrow> bool \<Rightarrow> bool \<Rightarrow> bool \<Rightarrow> ('st, 't::len, 't, 't) vinst \<Rightarrow> 'st \<Rightarrow> 'st" where
  "CoralNPUVMulh sg scalar strip_mine round inst =
     CoralNPUBinaryVectorOp False False inst scalar strip_mine (Op2 (CoralNPUVMulhHelper sg round))
       CommonBinaryOpGetArg1 CommonBinaryOpGetArg2"

definition CoralNPUVDmulh ::
    "bool \<Rightarrow> bool \<Rightarrow> bool \<Rightarrow> bool \<Rightarrow> ('st, 't::len, 't, 't) vinst \<Rightarrow> 'st \<Rightarrow> 'st" where
  "CoralNPUVDmulh scalar strip_mine round round_neg inst =
     CoralNPUBinaryVectorOp False False inst scalar strip_mine (Op2 (CoralNPUVDmulhHelper round round_neg))
       CommonBinaryOpGetArg1 CommonBinaryOpGetArg2"

definition CoralNPUVMacc ::
    "bool \<Rightarrow> bool \<Rightarrow> ('st, 't::len, 't, 't) vinst \<Rightarrow> 'st \<Rightarrow> 'st" where
  "CoralNPUVMacc scalar strip_mine inst =
     CoralNPUBinaryVectorOp False False inst scalar strip_mine (Op3 VMacc_lane)
       CommonBinaryOpGetArg1 CommonBinaryOpGetArg2"

definition CoralNPUVMadd ::
    "bool \<Rightarrow> bool \<Rightarrow> ('st, 't::len, 't, 't) vinst \<Rightarrow> 'st \<Rightarrow> 'st" where
  "CoralNPUVMadd scalar strip_mine inst =
     CoralNPUBinaryVectorOp False False inst scalar strip_mine (Op3 VMadd_lane)
       CommonBinaryOpGetArg1 CommonBinaryOpGetArg2"

subsection \<open>Slides, selection and interleaving\<close>

definition CoralNPUVSlidevn ::
    "int \<Rightarrow> bool \<Rightarrow> ('st, 't::len, 't, 't) vinst \<Rightarrow> 'st \<Rightarrow> 'st" where
  "CoralNPUVSlidevn index strip_mine inst =
     CoralNPUBinaryVectorOp False False inst False strip_mine (Op2 first_arg_lane)
       (VSlidenOpGetArg1 False index) CommonBinaryOpGetArg2"

definition CoralNPUVSlidehn ::
    "int \<Rightarrow> ('st, 't::len, 't, 't) vinst \<Rightarrow> 'st \<Rightarrow> 'st" where
  "CoralNPUVSlidehn index inst =
     CoralNPUBinaryVectorOp False False inst False True (Op2 first_arg_lane)
       (VSlidenOpGetArg1 True index) CommonBinaryOpGetArg2"

definition CoralNPUVSlidevp ::
    "int \<Rightarrow> bool \<Rightarrow> ('st, 't::len, 't, 't) vinst \<Rightarrow> 'st \<Rightarrow> 'st" where
  "CoralNPUVSlidevp index strip_mine inst =
     CoralNPUBinaryVectorOp False False inst False strip_mine (Op2 first_arg_lane)
       (VSlidepOpGetArg1 False index) CommonBinaryOpGetArg2"

definition CoralNPUVSlidehp ::
    "int \<Rightarrow> ('st, 't::len, 't, 't) vinst \<Rightarrow> 'st \<Rightarrow> 'st" where
  "CoralNPUVSlidehp index inst =
     CoralNPUBinaryVectorOp False False inst False True (Op2 first_arg_lane)
       (VSlidepOpGetArg1 True index) CommonBinaryOpGetArg2"

definition CoralNPUVSel ::
    "bool \<Rightarrow> bool \<Rightarrow> ('st, 't::len, 't, 't) vinst \<Rightarrow> 'st \<Rightarrow> 'st" where
  "CoralNPUVSel scalar strip_mine inst =
     CoralNPUBinaryVectorOp False False inst scalar strip_mine (Op3 VSel_lane)
       CommonBinaryOpGetArg1 CommonBinaryOpGetArg2"

definition CoralNPUVEvn ::
    "bool \<Rightarrow> bool \<Rightarrow> ('st, 't::len, 't, 't) vinst \<Rightarrow> 'st \<Rightarrow> 'st" where
  "CoralNPUVEvn scalar strip_mine inst =
     CoralNPUBinaryVectorOp False False inst scalar strip_mine (Op2 first_arg_lane)
       VEvnOpGetArg1 VEvnOpGetArg1"

definition CoralNPUVOdd ::
    "bool \<Rightarrow> bool \<Rightarrow> ('st, 't::len, 't, 't) vinst \<Rightarrow> 'st \<Rightarrow> 'st" where
  "CoralNPUVOdd scalar strip_mine inst =
     CoralNPUBinaryVectorOp False False inst scalar strip_mine (Op2 first_arg_lane)
       VOddOpGetArg1 VOddOpGetArg1"

definition CoralNPUVEvnodd ::
    "bool \<Rightarrow> bool \<Rightarrow> ('st, 't::len, 't, 't) vinst \<Rightarrow> 'st \<Rightarrow> 'st" where
  "CoralNPUVEvnodd scalar strip_mine inst =
     CoralNPUBinaryVectorOp False True inst scalar strip_mine (Op2 first_arg_lane)
       VEvnoddOpGetArg1 VEvnoddOpGetArg1"

definition CoralNPUVZip ::
    "bool \<Rightarrow> bool \<Rightarrow> ('st, 't::len, 't, 't) vinst \<Rightarrow> 'st \<Rightarrow> 'st" where
  "CoralNPUVZip scalar strip_mine inst =
     CoralNPUBinaryVectorOp False True inst scalar strip_mine (Op2 first_arg_lane)
       VZipOpGetArg1 VZipOpGetArg1"

subsection \<open>One-operand instructions\<close>

definition CoralNPUVNot ::
    "bool \<Rightarrow> ('st, 't::len, 't, 't) vinst \<Rightarrow> 'st \<Rightarrow> 'st" where
  "CoralNPUVNot strip_mine inst =
     CoralNPUUnaryVectorOp inst strip_mine VNot_lane CommonBinaryOpGetArg1"

definition CoralNPUVClb ::
    "('t::len word \<Rightarrow> nat) \<Rightarrow> ('t::len word \<Rightarrow> nat) \<Rightarrow> bool \<Rightarrow> ('st, 't::len, 't, 't) vinst \<Rightarrow> 'st \<Rightarrow> 'st" where
  "CoralNPUVClb countl_one countl_zero strip_mine inst =
     CoralNPUUnaryVectorOp inst strip_mine (VClb_lane countl_one countl_zero) CommonBinaryOpGetArg1"

definition CoralNPUVClz ::
    "('t::len word \<Rightarrow> nat) \<Rightarrow> bool \<Rightarrow> ('st, 't::len, 't, 't) vinst \<Rightarrow> 'st \<Rightarrow> 'st" where
  "CoralNPUVClz countl_zero strip_mine inst =
     CoralNPUUnaryVectorOp inst strip_mine (VClz_lane countl_zero) CommonBinaryOpGetArg1"

definition CoralNPUVCpop ::
    "('t::len word \<Rightarrow> nat) \<Rightarrow> bool \<Rightarrow> ('st, 't::len, 't, 't) vinst \<Rightarrow> 'st \<Rightarrow> 'st" where
  "CoralNPUVCpop popcount strip_mine inst =
     CoralNPUUnaryVectorOp inst strip_mine (VCpop_lane popcount) CommonBinaryOpGetArg1"

definition CoralNPUVMv ::
    "bool \<Rightarrow> ('st, 't::len, 't, 't) vinst \<Rightarrow> 'st \<Rightarrow> 'st" where
  "CoralNPUVMv strip_mine inst =
     CoralNPUUnaryVectorOp inst strip_mine VMv_lane CommonBinaryOpGetArg1"

end
