(* ===== verification/NPU_EngineProps.thy ===== *)
theory NPU_EngineProps
  imports NPU_VectorEngine
begin

text \<open>
  What the vector engine guarantees. The locale \<open>vector_operands\<close> states what the engine relies
  on from MPACT's destination operands (a buffer has one register's lanes, a submitted buffer
  becomes the register's contents, other registers keep theirs); inside it the loops are shown to
  set exactly the lanes of the destination group. It is interpreted on a register file of
  little-endian byte registers, the one the simulator's vector registers form.
\<close>

subsection \<open>The inner loops\<close>

lemma nested_update:
  assumes "length ds = R" "\<And>i. i < R \<Longrightarrow> length (ds ! i) = N" "n \<le> N"
  shows "fold (\<lambda>e ds. fold (\<lambda>i ds. ds[i := (ds ! i)[e := F i e (ds ! i ! e)]]) [0..<R] ds) [0..<n] ds
       = map (\<lambda>i. map (\<lambda>e. if e < n then F i e (ds ! i ! e) else ds ! i ! e) [0..<N]) [0..<R]"
  using assms(3)
proof (induction n)
  case 0
  then show ?case using assms by (auto intro!: nth_equalityI)
next
  case (Suc n)
  let ?m = "map (\<lambda>i. map (\<lambda>e. if e < n then F i e (ds ! i ! e) else ds ! i ! e) [0..<N]) [0..<R]"
  have "fold (\<lambda>i ds. ds[i := (ds ! i)[n := F i n (ds ! i ! n)]]) [0..<R] ?m
      = map (\<lambda>i. if i < R then (?m ! i)[n := F i n (?m ! i ! n)] else ?m ! i) [0..<length ?m]"
    by (rule fold_list_update [where f = "\<lambda>i x. x[n := F i n (x ! n)]"]) simp
  also have "\<dots> = map (\<lambda>i. map (\<lambda>e. if e < Suc n then F i e (ds ! i ! e) else ds ! i ! e) [0..<N]) [0..<R]"
    using Suc.prems by (auto intro!: nth_equalityI simp: nth_list_update)
  finally show ?case using Suc by simp
qed

lemma op_lanes_map:
  fixes inst :: "('st, 'd::len, 'a::len, 'b::len) vinst"
  assumes "length ds = regs" "\<And>i. i < regs \<Longrightarrow> length (ds ! i) = vector_register_width inst div sizeof TYPE('d)"
  shows "op_lanes inst scalar op get1 get2 num_ops regs o' s ds
       = map (\<lambda>i. map (\<lambda>e. BinaryOpInvoke op (ds ! i ! e)
             (get1 inst s scalar num_ops o' e i) (get2 inst s scalar num_ops o' e i))
           [0..<vector_register_width inst div sizeof TYPE('d)]) [0..<regs]"
  unfolding op_lanes_def
  by (subst nested_update [OF assms, where F = "\<lambda>i e v. BinaryOpInvoke op v
             (get1 inst s scalar num_ops o' e i) (get2 inst s scalar num_ops o' e i)"])
    (auto intro!: nth_equalityI)

subsection \<open>The operand interface\<close>

definition dest_buffers :: "('st, 'd::len, 'a::len, 'b::len) vinst \<Rightarrow> bool \<Rightarrow> nat \<Rightarrow> nat \<Rightarrow> nat \<Rightarrow> 'st \<Rightarrow> 'd word list list" where
  "dest_buffers inst reading num_ops regs o' s = map (\<lambda>i. if reading then CopyDataBuffer inst s (o' + i * num_ops)
      else AllocateDataBuffer inst (o' + i * num_ops)) [0..<regs]"

locale vector_operands =
  fixes inst :: "('st, 'd::len, 'a::len, 'b::len) vinst"
    and ok :: "'st \<Rightarrow> bool"
    and dest :: "'st \<Rightarrow> nat \<Rightarrow> 'd word list"
    and others :: "'st \<Rightarrow> 'o"
  assumes alloc_length: "length (AllocateDataBuffer inst r) = vector_register_width inst div sizeof TYPE('d)"
    and copy_dest: "CopyDataBuffer inst s r = dest s r"
    and dest_length: "ok s \<Longrightarrow> length (dest s r) = vector_register_width inst div sizeof TYPE('d)"
    and submit_ok: "ok s \<Longrightarrow> length v = vector_register_width inst div sizeof TYPE('d) \<Longrightarrow> ok (Submit inst r v s)"
    and submit_dest: "length v = vector_register_width inst div sizeof TYPE('d) \<Longrightarrow>
      dest (Submit inst r v s) r' = (if r' = r then v else dest s r')"
    and submit_others: "others (Submit inst r v s) = others s"
begin

abbreviation elts :: nat where
  "elts \<equiv> vector_register_width inst div sizeof TYPE('d)"

lemma submit_all:
  assumes "ok s" "\<And>i. i < regs \<Longrightarrow> length (bufs ! i) = elts" "0 < n"
  shows "ok (fold (\<lambda>i s. Submit inst (o' + i * n) (bufs ! i) s) [0..<regs] s)
    \<and> dest (fold (\<lambda>i s. Submit inst (o' + i * n) (bufs ! i) s) [0..<regs] s) r
      = (if \<exists>i<regs. r = o' + i * n then bufs ! ((r - o') div n) else dest s r)"
  using assms(2)
proof (induction regs)
  case 0
  then show ?case using assms(1) by simp
next
  case (Suc k)
  have "(r - o') div n = i" if "r = o' + i * n" for i using that assms(3) by simp
  then show ?case using Suc by (auto simp: submit_ok submit_dest less_Suc_eq)
qed

lemma invoke_buffer:
  "i < regs \<Longrightarrow> BinaryOpInvoke op (dest_buffers inst (is_reading_dest op) num_ops regs o' s ! i ! e) a b
     = BinaryOpInvoke op (dest s (o' + i * num_ops) ! e) a b"
  by (cases op) (simp_all add: dest_buffers_def copy_dest)

lemma submit_all_others: "others (fold (\<lambda>i s. Submit inst (f i) (bufs ! i) s) xs s) = others s"
  by (induction xs arbitrary: s) (simp_all add: submit_others)

lemma step_others: "others (vector_op_step halftype widen_dst inst scalar strip_mine op get1 get2 o' s) = others s"
  by (simp add: vector_op_step_def Let_def submit_all_others)

lemma steps_others: "others (fold (vector_op_step halftype widen_dst inst scalar strip_mine op get1 get2) os s) = others s"
  by (induction os arbitrary: s) (simp_all add: step_others)

lemma step_lanes:
  assumes "ok s" and n_def: "n = strip_num_ops strip_mine"
    and regs_def: "regs = dest_regs_per_op halftype widen_dst TYPE('d) TYPE('b)"
    and s'_def: "s' = vector_op_step halftype widen_dst inst scalar strip_mine op get1 get2 o' s"
  shows "ok s'"
    and "dest s' r = (if \<exists>i<regs. r = o' + i * n
          then map (\<lambda>e. BinaryOpInvoke op (dest s r ! e)
               (get1 inst s scalar n o' e ((r - o') div n)) (get2 inst s scalar n o' e ((r - o') div n))) [0..<elts]
          else dest s r)"
proof -
  let ?ds = "dest_buffers inst (is_reading_dest op) n regs o' s"
  have n: "0 < n" by (simp add: n_def strip_num_ops_def)
  have l: "length ?ds = regs" by (simp add: dest_buffers_def)
  have li: "\<And>i. i < regs \<Longrightarrow> length (?ds ! i) = elts"
    using assms(1) by (simp add: dest_buffers_def alloc_length copy_dest dest_length)
  let ?bufs = "map (\<lambda>i. map (\<lambda>e. BinaryOpInvoke op (?ds ! i ! e)
             (get1 inst s scalar n o' e i) (get2 inst s scalar n o' e i)) [0..<elts]) [0..<regs]"
  have ol: "op_lanes inst scalar op get1 get2 n regs o' s ?ds = ?bufs" by (rule op_lanes_map [OF l li])
  have s': "s' = fold (\<lambda>i s. Submit inst (o' + i * n) (?bufs ! i) s) [0..<regs] s"
    unfolding s'_def vector_op_step_def Let_def n_def [symmetric] regs_def [symmetric]
      dest_buffers_def [symmetric] ol ..
  show "ok s'" using submit_all [OF assms(1) _ n] by (simp add: s')
  show "dest s' r = (if \<exists>i<regs. r = o' + i * n
          then map (\<lambda>e. BinaryOpInvoke op (dest s r ! e)
               (get1 inst s scalar n o' e ((r - o') div n)) (get2 inst s scalar n o' e ((r - o') div n))) [0..<elts]
          else dest s r)"
    unfolding s' using n
    by (subst submit_all [THEN conjunct2, OF assms(1) _ n]) (auto simp: invoke_buffer)
qed

lemma step_range:
  assumes "ok s" "n = strip_num_ops strip_mine" "regs = dest_regs_per_op halftype widen_dst TYPE('d) TYPE('b)"
    and "s' = vector_op_step halftype widen_dst inst scalar strip_mine op get1 get2 o' s" "o' < n"
  shows "ok s'"
    and "dest s' r = (if r < n * regs \<and> r mod n = o'
          then map (\<lambda>e. BinaryOpInvoke op (dest s r ! e)
               (get1 inst s scalar n o' e (r div n)) (get2 inst s scalar n o' e (r div n))) [0..<elts]
          else dest s r)"
proof -
  have e: "(\<exists>i<regs. r = o' + i * n) \<longleftrightarrow> r < n * regs \<and> r mod n = o'"
  proof
    assume "\<exists>i<regs. r = o' + i * n"
    then obtain i where i: "i < regs" "r = o' + i * n" by blast
    have "r < Suc i * n" using i(2) assms(5) by simp
    also have "\<dots> \<le> regs * n" using i(1) by (intro mult_le_mono1) simp
    finally show "r < n * regs \<and> r mod n = o'" using i assms(5) by (simp add: mult.commute)
  next
    assume "r < n * regs \<and> r mod n = o'"
    then show "\<exists>i<regs. r = o' + i * n"
      by (intro exI [of _ "r div n"]) (metis add.commute div_less_iff_less_mult div_mult_mod_eq less_mult_imp_div_less mult.commute)
  qed
  have d: "r mod n = o' \<Longrightarrow> (r - o') div n = r div n" using minus_mod_eq_mult_div [of r n] assms(5) by auto
  show "ok s'" using step_lanes(1) [OF assms(1-4)] .
  show "dest s' r = (if r < n * regs \<and> r mod n = o'
          then map (\<lambda>e. BinaryOpInvoke op (dest s r ! e)
               (get1 inst s scalar n o' e (r div n)) (get2 inst s scalar n o' e (r div n))) [0..<elts]
          else dest s r)"
    using step_lanes(2) [OF assms(1-4), of r] d unfolding e by auto
qed

text \<open>
  If no operand of operation \<open>o'\<close> is read from a register an earlier operation has already
  overwritten, the whole instruction acts on every lane at once.
\<close>

lemma op_lanewise:
  assumes ok: "ok s" and n: "n = strip_num_ops strip_mine"
    and regs: "regs = dest_regs_per_op halftype widen_dst TYPE('d) TYPE('b)"
    and frame: "\<And>o' e i s'. o' < n \<Longrightarrow> e < elts \<Longrightarrow> i < regs \<Longrightarrow> ok s'
        \<Longrightarrow> (\<And>r. \<not> (r < n * regs \<and> r mod n < o') \<Longrightarrow> dest s' r = dest s r)
        \<Longrightarrow> others s' = others s
        \<Longrightarrow> get1 inst s' scalar n o' e i = get1 inst s scalar n o' e i
          \<and> get2 inst s' scalar n o' e i = get2 inst s scalar n o' e i"
  shows "ok (CoralNPUBinaryVectorOp halftype widen_dst inst scalar strip_mine op get1 get2 s)"
    and "dest (CoralNPUBinaryVectorOp halftype widen_dst inst scalar strip_mine op get1 get2 s) r
      = (if r < n * regs
         then map (\<lambda>e. BinaryOpInvoke op (dest s r ! e)
              (get1 inst s scalar n (r mod n) e (r div n)) (get2 inst s scalar n (r mod n) e (r div n))) [0..<elts]
         else dest s r)"
    and "others (CoralNPUBinaryVectorOp halftype widen_dst inst scalar strip_mine op get1 get2 s) = others s"
proof -
  let ?step = "vector_op_step halftype widen_dst inst scalar strip_mine op get1 get2"
  have pos: "0 < n" by (simp add: n strip_num_ops_def)
  have ind: "ok (fold ?step [0..<m] s) \<and> (\<forall>r. dest (fold ?step [0..<m] s) r
      = (if r < n * regs \<and> r mod n < m
         then map (\<lambda>e. BinaryOpInvoke op (dest s r ! e)
              (get1 inst s scalar n (r mod n) e (r div n)) (get2 inst s scalar n (r mod n) e (r div n))) [0..<elts]
         else dest s r))" if "m \<le> n" for m
    using that
  proof (induction m)
    case 0
    then show ?case using ok by simp
  next
    case (Suc m)
    let ?s = "fold ?step [0..<m] s"
    have IH: "ok ?s" "\<And>r. dest ?s r = (if r < n * regs \<and> r mod n < m
         then map (\<lambda>e. BinaryOpInvoke op (dest s r ! e)
              (get1 inst s scalar n (r mod n) e (r div n)) (get2 inst s scalar n (r mod n) e (r div n))) [0..<elts]
         else dest s r)" using Suc by auto
    have m: "m < n" using Suc.prems by simp
    note st = step_range [OF IH(1) n regs refl m, where scalar = scalar and op = op and ?get1.0 = get1 and ?get2.0 = get2]
    have fr: "get1 inst ?s scalar n m e i = get1 inst s scalar n m e i
        \<and> get2 inst ?s scalar n m e i = get2 inst s scalar n m e i" if "e < elts" "i < regs" for e i
    proof (rule frame [OF m that IH(1) _ steps_others])
      fix r assume "\<not> (r < n * regs \<and> r mod n < m)"
      then show "dest ?s r = dest s r" unfolding IH(2) by (rule if_not_P)
    qed
    have d: "r < n * regs \<Longrightarrow> r div n < regs" for r
      by (simp add: less_mult_imp_div_less mult.commute)
    show ?case using st IH(2) fr d by (auto simp: less_Suc_eq)
  qed
  show "ok (CoralNPUBinaryVectorOp halftype widen_dst inst scalar strip_mine op get1 get2 s)"
    using ind [of n] by (simp add: CoralNPUBinaryVectorOp_def n)
  show "dest (CoralNPUBinaryVectorOp halftype widen_dst inst scalar strip_mine op get1 get2 s) r
      = (if r < n * regs
         then map (\<lambda>e. BinaryOpInvoke op (dest s r ! e)
              (get1 inst s scalar n (r mod n) e (r div n)) (get2 inst s scalar n (r mod n) e (r div n))) [0..<elts]
         else dest s r)"
    using ind [of n] pos by (simp add: CoralNPUBinaryVectorOp_def flip: n)
  show "others (CoralNPUBinaryVectorOp halftype widen_dst inst scalar strip_mine op get1 get2 s) = others s"
    by (simp add: CoralNPUBinaryVectorOp_def steps_others)
qed

end

subsection \<open>The vector register file\<close>

text \<open>
  \<open>RV32VectorSourceOperand\<close> presents a group of consecutive registers as one array of elements,
  a scalar source is an integer register read at the element type. Registers are 32 bytes
  (\<open>vector_length\<close> 256 bits).
\<close>

type_synonym vregs = "nat \<Rightarrow> u8 list"

datatype vsource = VRegs nat | XReg u32

fun read_source :: "vregs \<Rightarrow> vsource \<Rightarrow> nat \<Rightarrow> 'a::len word" where
  "read_source s (VRegs b) k =
     lanes (s (b + k div (32 div sizeof TYPE('a)))) ! (k mod (32 div sizeof TYPE('a)))"
| "read_source s (XReg x) k = ucast x"

definition regfile_inst :: "vsource list \<Rightarrow> nat \<Rightarrow> (vregs, 'd::len, 'a::len, 'b::len) vinst" where
  "regfile_inst srcs d = \<lparr>vector_register_width = 32,
     source1 = \<lambda>s i. read_source s (srcs ! i), source2 = \<lambda>s i. read_source s (srcs ! i),
     AllocateDataBuffer = \<lambda>r. replicate (32 div sizeof TYPE('d)) 0,
     CopyDataBuffer = \<lambda>s r. lanes (s (d + r)),
     Submit = \<lambda>r v s. s(d + r := unlanes v)\<rparr>"

definition vregs_ok :: "vregs \<Rightarrow> bool" where
  "vregs_ok s \<longleftrightarrow> (\<forall>r. length (s r) = 32)"

definition below :: "nat \<Rightarrow> vregs \<Rightarrow> vregs" where
  "below d s = (\<lambda>r. if r < d then s r else [])"

lemma regfile_operands:
  assumes "LENGTH('d) \<in> {8, 16, 32}"
  shows "vector_operands (regfile_inst srcs d :: (vregs, 'd::len, 'a::len, 'b::len) vinst)
    vregs_ok (\<lambda>s r. lanes (s (d + r))) (below d)"
proof -
  have "8 dvd LENGTH('d)" "sizeof TYPE('d) \<in> {1, 2, 4}" using assms by (auto simp: sizeof_def)
  then show ?thesis
    by unfold_locales (auto simp: regfile_inst_def vregs_ok_def below_def)
qed

interpretation rf8: vector_operands "regfile_inst srcs d :: (vregs, 8, 'a::len, 'b::len) vinst"
  vregs_ok "\<lambda>s r. lanes (s (d + r))" "below d" for srcs d
  by (rule regfile_operands) simp

interpretation rf16: vector_operands "regfile_inst srcs d :: (vregs, 16, 'a::len, 'b::len) vinst"
  vregs_ok "\<lambda>s r. lanes (s (d + r))" "below d" for srcs d
  by (rule regfile_operands) simp

interpretation rf32: vector_operands "regfile_inst srcs d :: (vregs, 32, 'a::len, 'b::len) vinst"
  vregs_ok "\<lambda>s r. lanes (s (d + r))" "below d" for srcs d
  by (rule regfile_operands) simp

lemma lanes_inject:
  assumes "LENGTH('d) \<in> {8, 16, 32}" "length a = 32" "length b = 32" "(lanes a :: 'd::len word list) = lanes b"
  shows "a = b"
proof -
  have d: "sizeof TYPE('d) dvd 32" "0 < sizeof TYPE('d)" using assms(1) by (auto simp: sizeof_def)
  have "a = unlanes (lanes a :: 'd word list)" "b = unlanes (lanes b :: 'd word list)"
    using assms(2,3) d by simp_all
  then show ?thesis using assms(4) by simp
qed

text \<open>No operand read by operation \<open>o'\<close> is in a register an earlier operation has written.\<close>

definition operands_stable ::
    "(vregs, 'd::len, 'a::len, 'b::len) vinst \<Rightarrow> (vregs, 'd, 'a, 'b, 'a) getter \<Rightarrow> (vregs, 'd, 'a, 'b, 'b) getter
     \<Rightarrow> bool \<Rightarrow> nat \<Rightarrow> nat \<Rightarrow> nat \<Rightarrow> vregs \<Rightarrow> bool" where
  "operands_stable inst get1 get2 scalar n regs d s \<longleftrightarrow>
     (\<forall>o' e i s'. o' < n \<longrightarrow> e < 32 div sizeof TYPE('d) \<longrightarrow> i < regs
        \<longrightarrow> (\<forall>q. \<not> (d \<le> q \<and> q < d + n * regs \<and> (q - d) mod n < o') \<longrightarrow> s' q = s q)
        \<longrightarrow> get1 inst s' scalar n o' e i = get1 inst s scalar n o' e i
          \<and> get2 inst s' scalar n o' e i = get2 inst s scalar n o' e i)"

lemma regfile_lanewise:
  fixes op :: "('d::len word, 'a::len word, 'b::len word) vop"
  assumes w: "LENGTH('d) \<in> {8, 16, 32}" and ok: "vregs_ok s" and n: "n = strip_num_ops strip_mine"
    and regs: "regs = dest_regs_per_op halftype widen_dst TYPE('d) TYPE('b)"
    and frame: "operands_stable (regfile_inst srcs d) get1 get2 scalar n regs d s"
    and S: "S = CoralNPUBinaryVectorOp halftype widen_dst (regfile_inst srcs d) scalar strip_mine op get1 get2 s"
  shows "vregs_ok S"
    and "q < n * regs \<Longrightarrow> lanes (S (d + q)) = map (\<lambda>e. BinaryOpInvoke op (lanes (s (d + q)) ! e)
              (get1 (regfile_inst srcs d) s scalar n (q mod n) e (q div n))
              (get2 (regfile_inst srcs d) s scalar n (q mod n) e (q div n))) [0..<32 div sizeof TYPE('d)]"
    and "q < d \<or> d + n * regs \<le> q \<Longrightarrow> S q = s q"
proof -
  let ?I = "regfile_inst srcs d :: (vregs, 'd, 'a, 'b) vinst"
  note vo = regfile_operands [OF w, where ?'a = 'a and ?'b = 'b, of srcs d]
  have width: "vector_register_width ?I = 32" by (simp add: regfile_inst_def)
  have fr: "get1 ?I s' scalar n o' e i = get1 ?I s scalar n o' e i
          \<and> get2 ?I s' scalar n o' e i = get2 ?I s scalar n o' e i"
    if "o' < n" "e < vector_register_width ?I div sizeof TYPE('d)" "i < regs" "vregs_ok s'"
      and dd: "\<And>r. \<not> (r < n * regs \<and> r mod n < o') \<Longrightarrow> (lanes (s' (d + r)) :: 'd word list) = lanes (s (d + r))"
      and bb: "below d s' = below d s" for o' e i s'
  proof -
    have e: "e < 32 div sizeof TYPE('d)" using that(2) width by simp
    have "s' q = s q" if q: "\<not> (d \<le> q \<and> q < d + n * regs \<and> (q - d) mod n < o')" for q
    proof (cases "q < d")
      case True
      then show ?thesis using fun_cong [OF bb, of q] by (simp add: below_def)
    next
      case False
      then have "(lanes (s' q) :: 'd word list) = lanes (s q)" using dd [of "q - d"] q by auto
      then show ?thesis using lanes_inject [OF w, of "s' q" "s q"] \<open>vregs_ok s'\<close> ok by (simp add: vregs_ok_def)
    qed
    then show ?thesis using frame that(1,3) e unfolding operands_stable_def by blast
  qed
  note L = vector_operands.op_lanewise [OF vo, OF ok, OF n, OF regs, of get1 scalar get2 op, OF fr]
  show okS: "vregs_ok S" unfolding S by (rule L(1))
  have lanes: "(lanes (S (d + q)) :: 'd word list) = (if q < n * regs
      then map (\<lambda>e. BinaryOpInvoke op (lanes (s (d + q)) ! e)
              (get1 ?I s scalar n (q mod n) e (q div n)) (get2 ?I s scalar n (q mod n) e (q div n)))
          [0..<32 div sizeof TYPE('d)] else lanes (s (d + q)))" for q
    unfolding S by (subst L(2)) (simp_all add: width)
  show "q < n * regs \<Longrightarrow> lanes (S (d + q)) = map (\<lambda>e. BinaryOpInvoke op (lanes (s (d + q)) ! e)
              (get1 ?I s scalar n (q mod n) e (q div n)) (get2 ?I s scalar n (q mod n) e (q div n)))
          [0..<32 div sizeof TYPE('d)]"
    by (simp add: lanes)
  have bl: "below d S = below d s" unfolding S by (rule L(3))
  show "S q = s q" if "q < d \<or> d + n * regs \<le> q"
  proof (cases "q < d")
    case True
    then show ?thesis using fun_cong [OF bl, of q] by (simp add: below_def)
  next
    case False
    then have "\<not> q - d < n * regs" "d + (q - d) = q" using that by linarith+
    then have "(lanes (S q) :: 'd word list) = lanes (s q)" using lanes [of "q - d"] by (simp only: if_False)
    then show ?thesis using lanes_inject [OF w, of "S q" "s q"] okS ok by (simp add: vregs_ok_def)
  qed
qed

subsection \<open>Instructions on the register file\<close>

text \<open>
  A source group may start at or above the destination group, or end below it; only a
  destination starting strictly inside a strip-mined source group would overwrite operands
  still to be read.
\<close>

fun no_hazard :: "nat \<Rightarrow> nat \<Rightarrow> vsource \<Rightarrow> bool" where
  "no_hazard d n (VRegs b) \<longleftrightarrow> \<not> (b < d \<and> d < b + n)"
| "no_hazard d n (XReg x) \<longleftrightarrow> True"

fun is_scalar :: "vsource \<Rightarrow> bool" where
  "is_scalar (VRegs b) = False"
| "is_scalar (XReg x) = True"

lemma read_group:
  fixes s :: vregs
  assumes "e < 32 div sizeof TYPE('a)"
  shows "read_source s (VRegs b) (o' * (32 div sizeof TYPE('a)) + e) = (lanes (s (b + o')) ! e :: 'a::len word)"
  using assms by simp

lemma read_group_frame:
  assumes "no_hazard d n x" "o' < n" "e < 32 div sizeof TYPE('a)"
    and "\<And>q. \<not> (d \<le> q \<and> q < d + n \<and> (q - d) mod n < o') \<Longrightarrow> s' q = s q"
  shows "read_source s' x (o' * (32 div sizeof TYPE('a)) + e)
       = (read_source s x (o' * (32 div sizeof TYPE('a)) + e) :: 'a::len word)"
proof (cases x)
  case (VRegs b)
  have "\<not> (d \<le> b + o' \<and> b + o' < d + n \<and> (b + o' - d) mod n < o')"
    using assms(1,2) VRegs by auto
  then have "s' (b + o') = s (b + o')" by (rule assms(4))
  then show ?thesis using assms(3) VRegs by simp
qed simp

text \<open>The instructions whose operands and result have one width.\<close>

lemma same_width_lanewise:
  fixes op :: "('t::len word, 't word, 't word) vop"
  assumes w: "LENGTH('t) \<in> {8, 16, 32}" and ok: "vregs_ok s" and n: "n = strip_num_ops strip_mine"
    and x: "no_hazard d n x" and y: "no_hazard d n y" "scalar \<longrightarrow> is_scalar y"
    and S: "S = CoralNPUBinaryVectorOp False False (regfile_inst [x, y] d) scalar strip_mine op
                  CommonBinaryOpGetArg1 CommonBinaryOpGetArg2 s"
  shows "vregs_ok S"
    and "q < n \<Longrightarrow> lanes (S (d + q)) = map (\<lambda>e. BinaryOpInvoke op (lanes (s (d + q)) ! e)
           (read_source s x (q * (32 div sizeof TYPE('t)) + e))
           (read_source s y (q * (32 div sizeof TYPE('t)) + e))) [0..<32 div sizeof TYPE('t)]"
    and "q < d \<or> d + n \<le> q \<Longrightarrow> S q = s q"
proof -
  let ?I = "regfile_inst [x, y] d :: (vregs, 't, 't, 't) vinst"
  have w0: "0 < sizeof TYPE('t)" using w by (auto simp: sizeof_def)
  have regs: "1 = dest_regs_per_op False False TYPE('t) TYPE('t)" by (simp add: dest_regs_per_op_def)
  have g1: "CommonBinaryOpGetArg1 ?I s scalar n q e i = read_source s x (q * (32 div sizeof TYPE('t)) + e + i)" for s q e i
    using w0 by (simp add: CommonBinaryOpGetArg1_def regfile_inst_def Let_def)
  have g2: "CommonBinaryOpGetArg2 ?I s scalar n q e i = read_source s y (q * (32 div sizeof TYPE('t)) + e + i)" for s q e i
    using w0 y(2) by (cases y) (simp_all add: CommonBinaryOpGetArg2_def regfile_inst_def Let_def)
  have fr: "operands_stable ?I CommonBinaryOpGetArg1 CommonBinaryOpGetArg2 scalar n 1 d s"
    unfolding operands_stable_def
  proof (intro allI impI)
    fix o' e i s' assume a: "o' < n" "e < 32 div sizeof TYPE('t)" "i < (1::nat)"
      and "\<forall>q. \<not> (d \<le> q \<and> q < d + n * 1 \<and> (q - d) mod n < o') \<longrightarrow> s' q = s q"
    then show "CommonBinaryOpGetArg1 ?I s' scalar n o' e i = CommonBinaryOpGetArg1 ?I s scalar n o' e i
      \<and> CommonBinaryOpGetArg2 ?I s' scalar n o' e i = CommonBinaryOpGetArg2 ?I s scalar n o' e i"
      using read_group_frame [OF x a(1,2), of s' s] read_group_frame [OF y(1) a(1,2), of s' s]
      by (simp add: g1 g2)
  qed
  note L = regfile_lanewise [OF w ok n regs fr S]
  show "vregs_ok S" by (rule L(1))
  show "lanes (S (d + q)) = map (\<lambda>e. BinaryOpInvoke op (lanes (s (d + q)) ! e)
           (read_source s x (q * (32 div sizeof TYPE('t)) + e))
           (read_source s y (q * (32 div sizeof TYPE('t)) + e))) [0..<32 div sizeof TYPE('t)]" if "q < n"
  proof -
    have "q < n * 1" "q mod n = q" "q div n = 0" using that by simp_all
    then show ?thesis using L(2) [of q] by (simp only: g1 g2 add_0_right simp_thms)
  qed
  show "q < d \<or> d + n \<le> q \<Longrightarrow> S q = s q" using L(3) [of q] by simp
qed

text \<open>Widening instructions: destination register \<open>i * n + q\<close> takes the lanes \<open>2 e + i\<close> of source register \<open>q\<close>.\<close>

fun no_hazard_wide :: "nat \<Rightarrow> nat \<Rightarrow> vsource \<Rightarrow> bool" where
  "no_hazard_wide d n (VRegs b) \<longleftrightarrow> b + n \<le> d \<or> b = d \<or> b = d + n \<or> d + 2 * n \<le> b"
| "no_hazard_wide d n (XReg x) \<longleftrightarrow> True"

lemma read_group_frame_wide:
  assumes "no_hazard_wide d n x" "o' < n" "k < 32 div sizeof TYPE('a)"
    and "\<And>q. \<not> (d \<le> q \<and> q < d + n * 2 \<and> (q - d) mod n < o') \<Longrightarrow> s' q = s q"
  shows "read_source s' x (o' * (32 div sizeof TYPE('a)) + k)
       = (read_source s x (o' * (32 div sizeof TYPE('a)) + k) :: 'a::len word)"
proof (cases x)
  case (VRegs b)
  have "\<not> (d \<le> b + o' \<and> b + o' < d + n * 2 \<and> (b + o' - d) mod n < o')"
    using assms(1,2) VRegs by auto
  then have "s' (b + o') = s (b + o')" by (rule assms(4))
  then show ?thesis using assms(3) VRegs by simp
qed simp

lemma widening_lanewise:
  fixes op :: "('d::len word, 's::len word, 's word) vop"
  assumes w: "LENGTH('s) \<in> {8, 16}" "LENGTH('d) = 2 * LENGTH('s)" and ok: "vregs_ok s"
    and n: "n = strip_num_ops strip_mine"
    and x: "no_hazard_wide d n x" and y: "no_hazard_wide d n y" "scalar \<longrightarrow> is_scalar y"
    and S: "S = CoralNPUBinaryVectorOp False False (regfile_inst [x, y] d) scalar strip_mine op
                  CommonBinaryOpGetArg1 CommonBinaryOpGetArg2 s"
  shows "vregs_ok S"
    and "q < n \<Longrightarrow> i < 2 \<Longrightarrow> lanes (S (d + (q + i * n)))
       = map (\<lambda>e. BinaryOpInvoke op (lanes (s (d + (q + i * n))) ! e)
           (read_source s x (q * (32 div sizeof TYPE('s)) + (2 * e + i)))
           (read_source s y (q * (32 div sizeof TYPE('s)) + (2 * e + i)))) [0..<32 div sizeof TYPE('d)]"
    and "q < d \<or> d + 2 * n \<le> q \<Longrightarrow> S q = s q"
proof -
  let ?I = "regfile_inst [x, y] d :: (vregs, 'd, 's, 's) vinst"
  have sz: "0 < sizeof TYPE('s)" "sizeof TYPE('d) = 2 * sizeof TYPE('s)" "32 div sizeof TYPE('s) = 2 * (32 div sizeof TYPE('d))"
    and wd: "LENGTH('d) \<in> {8, 16, 32}"
    using w by (auto simp: sizeof_def)
  have regs: "2 = dest_regs_per_op False False TYPE('d) TYPE('s)" using sz by (simp add: dest_regs_per_op_def)
  have ix: "e * sizeof TYPE('d) div sizeof TYPE('s) = 2 * e" for e using sz(1) by (simp add: sz(2) mult.left_commute)
  have g1: "CommonBinaryOpGetArg1 ?I s scalar n q e i = read_source s x (q * (32 div sizeof TYPE('s)) + (2 * e + i))" for s q e i
    using sz(1) by (simp add: CommonBinaryOpGetArg1_def regfile_inst_def Let_def ix add.assoc)
  have g2: "CommonBinaryOpGetArg2 ?I s scalar n q e i = read_source s y (q * (32 div sizeof TYPE('s)) + (2 * e + i))" for s q e i
    using y(2) by (cases y) (simp_all add: CommonBinaryOpGetArg2_def regfile_inst_def Let_def ix add.assoc)
  have fr: "operands_stable ?I CommonBinaryOpGetArg1 CommonBinaryOpGetArg2 scalar n 2 d s"
    unfolding operands_stable_def
  proof (intro allI impI)
    fix o' e i s' assume a: "o' < n" "e < 32 div sizeof TYPE('d)" "i < (2::nat)"
      and b: "\<forall>q. \<not> (d \<le> q \<and> q < d + n * 2 \<and> (q - d) mod n < o') \<longrightarrow> s' q = s q"
    have k: "2 * e + i < 32 div sizeof TYPE('s)" using a(2,3) sz(3) by linarith
    show "CommonBinaryOpGetArg1 ?I s' scalar n o' e i = CommonBinaryOpGetArg1 ?I s scalar n o' e i
      \<and> CommonBinaryOpGetArg2 ?I s' scalar n o' e i = CommonBinaryOpGetArg2 ?I s scalar n o' e i"
      using read_group_frame_wide [OF x a(1) k, of s' s] read_group_frame_wide [OF y(1) a(1) k, of s' s] b
      by (simp only: g1 g2) blast
  qed
  note L = regfile_lanewise [OF wd ok n regs fr S]
  show "vregs_ok S" by (rule L(1))
  show "lanes (S (d + (q + i * n))) = map (\<lambda>e. BinaryOpInvoke op (lanes (s (d + (q + i * n))) ! e)
           (read_source s x (q * (32 div sizeof TYPE('s)) + (2 * e + i)))
           (read_source s y (q * (32 div sizeof TYPE('s)) + (2 * e + i)))) [0..<32 div sizeof TYPE('d)]"
    if "q < n" "i < 2"
  proof -
    have "i = 0 \<or> i = 1" using that(2) by auto
    then have "q + i * n < n * 2" "(q + i * n) mod n = q" "(q + i * n) div n = i" using that(1) by auto
    then show ?thesis using L(2) [of "q + i * n"] by (simp only: g1 g2 simp_thms)
  qed
  show "q < d \<or> d + 2 * n \<le> q \<Longrightarrow> S q = s q" using L(3) [of q] by (simp add: mult.commute)
qed

subsection \<open>Interleaving and its inverse\<close>

fun apart :: "nat \<Rightarrow> nat \<Rightarrow> vsource \<Rightarrow> bool" where
  "apart d n (VRegs b) \<longleftrightarrow> b + n \<le> d \<or> d + 2 * n \<le> b"
| "apart d n (XReg x) \<longleftrightarrow> True"

lemma read_apart:
  assumes "apart d n x" "k < n * (32 div sizeof TYPE('a))" "\<forall>q. \<not> (d \<le> q \<and> q < d + 2 * n) \<longrightarrow> s' q = s q"
  shows "read_source s' x k = (read_source s x k :: 'a::len word)"
proof (cases x)
  case (VRegs b)
  have "k div (32 div sizeof TYPE('a)) < n" using assms(2) by (simp add: less_mult_imp_div_less)
  then have "s' (b + k div (32 div sizeof TYPE('a))) = s (b + k div (32 div sizeof TYPE('a)))"
    using assms(1) VRegs by (intro assms(3) [rule_format]) auto
  then show ?thesis using VRegs by simp
qed simp

lemma paired_lanewise:
  fixes get :: "(vregs, 't::len, 't, 't, 't) getter"
  assumes w: "LENGTH('t) \<in> {8, 16, 32}" and ok: "vregs_ok s" and n: "n = strip_num_ops strip_mine"
    and xy: "apart d n x" "apart d n y"
    and g: "\<And>s q e i. get (regfile_inst [x, y] d) s scalar n q e i
        = (if left q e i then read_source s x (idx q e i) else read_source s y (idx q e i))"
    and idx: "\<forall>q e i. q < n \<and> e < 32 div sizeof TYPE('t) \<and> i < 2 \<longrightarrow> idx q e i < n * (32 div sizeof TYPE('t))"
    and S: "S = CoralNPUBinaryVectorOp False True (regfile_inst [x, y] d) scalar strip_mine (Op2 first_arg_lane) get get s"
  shows "vregs_ok S"
    and "q < n \<Longrightarrow> i < 2 \<Longrightarrow> lanes (S (d + (q + i * n))) = map (\<lambda>e. if left q e i then read_source s x (idx q e i)
        else (read_source s y (idx q e i) :: 't word)) [0..<32 div sizeof TYPE('t)]"
    and "q < d \<or> d + 2 * n \<le> q \<Longrightarrow> S q = s q"
proof -
  have regs: "2 = dest_regs_per_op False True TYPE('t) TYPE('t)" by (simp add: dest_regs_per_op_def)
  have fr: "operands_stable (regfile_inst [x, y] d) get get scalar n 2 d s"
    unfolding operands_stable_def
  proof (intro allI impI)
    fix o' e i s' assume a: "o' < n" "e < 32 div sizeof TYPE('t)" "i < (2::nat)"
      and b: "\<forall>q. \<not> (d \<le> q \<and> q < d + n * 2 \<and> (q - d) mod n < o') \<longrightarrow> s' q = s q"
    have b': "\<forall>q. \<not> (d \<le> q \<and> q < d + 2 * n) \<longrightarrow> s' q = s q" using b by (auto simp: mult.commute)
    show "get (regfile_inst [x, y] d) s' scalar n o' e i = get (regfile_inst [x, y] d) s scalar n o' e i
      \<and> get (regfile_inst [x, y] d) s' scalar n o' e i = get (regfile_inst [x, y] d) s scalar n o' e i"
      using read_apart [OF xy(1) _ b', of "idx o' e i", where 'a = 't]
        read_apart [OF xy(2) _ b', of "idx o' e i", where 'a = 't] idx a by (simp add: g)
  qed
  note L = regfile_lanewise [OF w ok n regs fr S]
  show "vregs_ok S" by (rule L(1))
  show "lanes (S (d + (q + i * n))) = map (\<lambda>e. if left q e i then read_source s x (idx q e i)
        else (read_source s y (idx q e i) :: 't word)) [0..<32 div sizeof TYPE('t)]"
    if "q < n" "i < 2"
  proof -
    have "i = 0 \<or> i = 1" using that(2) by auto
    then have m: "q + i * n < n * 2" "(q + i * n) mod n = q" "(q + i * n) div n = i" using that(1) by auto
    show ?thesis
      unfolding L(2) [OF m(1)] m(2,3) by (rule map_cong [OF refl]) (simp add: g first_arg_lane_def)
  qed
  show "q < d \<or> d + 2 * n \<le> q \<Longrightarrow> S q = s q" using L(3) [of q] by (simp add: mult.commute)
qed

lemma zip_lanewise:
  fixes s :: vregs
  assumes w: "LENGTH('t) \<in> {8, 16, 32}" and ok: "vregs_ok s" and n: "n = strip_num_ops strip_mine"
    and xy: "apart d n x" "apart d n y" and y: "scalar \<longrightarrow> is_scalar y"
    and S: "S = CoralNPUVZip scalar strip_mine (regfile_inst [x, y] d :: (vregs, 't::len, 't, 't) vinst) s"
  shows "vregs_ok S"
    and "r < 2 * n \<Longrightarrow> lanes (S (d + r)) = map (\<lambda>e. read_source s (if odd e then y else x)
        (r * (32 div sizeof TYPE('t) div 2) + e div 2) :: 't word) [0..<32 div sizeof TYPE('t)]"
    and "q < d \<or> d + 2 * n \<le> q \<Longrightarrow> S q = s q"
proof -
  let ?h = "32 div sizeof TYPE('t) div 2"
  have h: "32 div sizeof TYPE('t) = 2 * ?h" using w by (auto simp: sizeof_def)
  have n0: "0 < n" by (simp add: n strip_num_ops_def)
  have g: "VZipOpGetArg1 (regfile_inst [x, y] d :: (vregs, 't, 't, 't) vinst) s scalar n q e i
      = (if even e then read_source s x (q * ?h + e div 2 + i * ?h * n) else read_source s y (q * ?h + e div 2 + i * ?h * n))"
    for s q e i
    using y by (cases y) (auto simp: VZipOpGetArg1_def regfile_inst_def Let_def)
  have idx0: "q * ?h + e div 2 + i * ?h * n < n * (32 div sizeof TYPE('t))"
    if "q < n" "e < 32 div sizeof TYPE('t)" "i < 2" for q e i
  proof -
    have "e div 2 < ?h" using that(2) h by linarith
    then have "q * ?h + e div 2 < Suc q * ?h" by simp
    also have "\<dots> \<le> n * ?h" using that(1) by (intro mult_le_mono1) simp
    finally have a: "q * ?h + e div 2 < n * ?h" .
    have "i = 0 \<or> i = 1" using that(3) by auto
    then have b: "i * ?h * n \<le> n * ?h" by (auto simp: mult.commute)
    have "n * (32 div sizeof TYPE('t)) = n * ?h + n * ?h" by (subst h) simp
    then show ?thesis using a b by linarith
  qed
  have idx: "\<forall>q e i. q < n \<and> e < 32 div sizeof TYPE('t) \<and> i < 2
      \<longrightarrow> q * ?h + e div 2 + i * ?h * n < n * (32 div sizeof TYPE('t))"
    using idx0 by blast
  note L = paired_lanewise [OF w ok n xy g idx S [unfolded CoralNPUVZip_def]]
  show "vregs_ok S" by (rule L(1))
  show "lanes (S (d + r)) = map (\<lambda>e. read_source s (if odd e then y else x) (r * ?h + e div 2) :: 't word)
      [0..<32 div sizeof TYPE('t)]" if "r < 2 * n"
  proof -
    have r: "r = r mod n + r div n * n" "r mod n < n" using n0 by simp_all
    have i: "r div n < 2" using that by (simp add: less_mult_imp_div_less)
    have e: "r mod n * ?h + e div 2 + r div n * ?h * n = r * ?h + e div 2" for e
    proof -
      have "r * ?h = (r mod n + r div n * n) * ?h" using r(1) by simp
      then show ?thesis by (simp only: add_mult_distrib mult.assoc mult.commute [of n] add.assoc add.commute add.left_commute)
    qed
    have "lanes (S (d + r)) = map (\<lambda>e. if even e then read_source s x (r * ?h + e div 2)
        else (read_source s y (r * ?h + e div 2) :: 't word)) [0..<32 div sizeof TYPE('t)]"
      using L(2) [OF r(2) i] unfolding e r(1) [symmetric] .
    then show ?thesis by (auto intro: map_cong)
  qed
  show "q < d \<or> d + 2 * n \<le> q \<Longrightarrow> S q = s q" by (rule L(3))
qed

lemma wrap_half_lt: "k < 2 * m \<Longrightarrow> (if k < m then k else k - m) < (m :: nat)"
  by auto

lemma double_lt: "x < y \<Longrightarrow> i < 2 \<Longrightarrow> 2 * x + i < 2 * (y :: nat)"
  by simp

lemma evnodd_lanewise:
  fixes s :: vregs
  assumes w: "LENGTH('t) \<in> {8, 16, 32}" and ok: "vregs_ok s" and n: "n = strip_num_ops strip_mine"
    and xy: "apart d n x" "apart d n y"
    and S: "S = CoralNPUVEvnodd False strip_mine (regfile_inst [x, y] d :: (vregs, 't::len, 't, 't) vinst) s"
  shows "vregs_ok S"
    and "q < n \<Longrightarrow> i < 2 \<Longrightarrow> lanes (S (d + (q + i * n))) = map (\<lambda>e.
        let k = 2 * (q * (32 div sizeof TYPE('t)) + e) + i; total = 32 div sizeof TYPE('t) * n
        in if k < total then read_source s x k else (read_source s y (k - total) :: 't word)) [0..<32 div sizeof TYPE('t)]"
    and "q < d \<or> d + 2 * n \<le> q \<Longrightarrow> S q = s q"
proof -
  let ?e = "32 div sizeof TYPE('t)"
  let ?k = "\<lambda>q e (i::nat). 2 * (q * ?e + e) + (if i = 0 then 0 else 1)"
  let ?idx = "\<lambda>q e (i::nat). if ?k q e i < ?e * n then ?k q e i else ?k q e i - ?e * n"
  have g: "VEvnoddOpGetArg1 (regfile_inst [x, y] d :: (vregs, 't, 't, 't) vinst) s False n q e i
      = (if ?k q e i < ?e * n then read_source s x (?idx q e i) else read_source s y (?idx q e i))" for s q e i
    by (simp add: VEvnoddOpGetArg1_def VEvnOpGetArg1_def VOddOpGetArg1_def regfile_inst_def Let_def algebra_simps)
  have kb: "?k q e i < 2 * (n * ?e)" if "q < n" "e < ?e" for q e i
  proof -
    have "q * ?e + e < Suc q * ?e" using that(2) by simp
    also have "\<dots> \<le> n * ?e" using that(1) by (intro mult_le_mono1) simp
    finally show ?thesis by simp
  qed
  have idx: "\<forall>q e i. q < n \<and> e < ?e \<and> i < 2 \<longrightarrow> ?idx q e i < n * ?e"
  proof (intro allI impI)
    fix q e i :: nat assume "q < n \<and> e < ?e \<and> i < 2"
    then have "?k q e i < 2 * (n * ?e)" using kb by blast
    then show "?idx q e i < n * ?e" unfolding mult.commute [of ?e n] by (rule wrap_half_lt)
  qed
  note L = paired_lanewise [OF w ok n xy g idx S [unfolded CoralNPUVEvnodd_def]]
  show "vregs_ok S" by (rule L(1))
  show "lanes (S (d + (q + i * n))) = map (\<lambda>e.
        let k = 2 * (q * ?e + e) + i; total = ?e * n
        in if k < total then read_source s x k else (read_source s y (k - total) :: 't word)) [0..<?e]"
    if "q < n" "i < 2"
  proof -
    have i: "(if i = 0 then 0 else 1) = i" using that(2) by auto
    show ?thesis using L(2) [OF that] unfolding i by (auto simp: Let_def intro: map_cong)
  qed
  show "q < d \<or> d + 2 * n \<le> q \<Longrightarrow> S q = s q" by (rule L(3))
qed

lemma evnodd_after_zip:
  fixes s :: vregs
  assumes w: "LENGTH('t) \<in> {8, 16, 32}" and ok: "vregs_ok s" and n: "n = strip_num_ops strip_mine"
    and z: "apart z n (VRegs a)" "apart z n (VRegs b)" and d: "d + 2 * n \<le> z \<or> z + 2 * n \<le> d"
    and Z: "Z = CoralNPUVZip False strip_mine (regfile_inst [VRegs a, VRegs b] z :: (vregs, 't::len, 't, 't) vinst) s"
    and S: "S = CoralNPUVEvnodd False strip_mine (regfile_inst [VRegs z, VRegs (z + n)] d :: (vregs, 't, 't, 't) vinst) Z"
    and q: "q < n"
  shows "lanes (S (d + q)) = (lanes (s (a + q)) :: 't word list)"
    and "lanes (S (d + (q + n))) = (lanes (s (b + q)) :: 't word list)"
proof -
  let ?e = "32 div sizeof TYPE('t)"
  have e2: "?e = 2 * (?e div 2)" and e0: "0 < ?e" using w by (auto simp: sizeof_def)
  have Zok: "vregs_ok Z" and Zl: "r < 2 * n \<Longrightarrow> lanes (Z (z + r)) = map (\<lambda>e. read_source s (if odd e then VRegs b else VRegs a)
        (r * (?e div 2) + e div 2) :: 't word) [0..<?e]" for r
    using zip_lanewise [OF w ok n z _ Z] by simp_all
  have d': "apart d n (VRegs z)" "apart d n (VRegs (z + n))" using d by auto
  have rd: "(if k < ?e * n then read_source Z (VRegs z) k else (read_source Z (VRegs (z + n)) (k - ?e * n) :: 't word))
      = read_source s (if odd k then VRegs b else VRegs a) (k div 2)" if "k < 2 * (n * ?e)" for k
  proof -
    have kd: "k div ?e < 2 * n" "k mod ?e < ?e" using that e0 by (simp_all add: less_mult_imp_div_less mult.assoc)
    have "(if k < ?e * n then read_source Z (VRegs z) k else (read_source Z (VRegs (z + n)) (k - ?e * n) :: 't word))
        = lanes (Z (z + k div ?e)) ! (k mod ?e)"
    proof (cases "k < ?e * n")
      case False
      then obtain j where j: "k = ?e * n + j" by (metis le_Suc_ex not_less)
      then have "k div ?e = n + j div ?e" "k mod ?e = j mod ?e" using e0 by simp_all
      then show ?thesis using False j by (simp add: add.assoc)
    qed simp
    also have "\<dots> = read_source s (if odd (k mod ?e) then VRegs b else VRegs a) (k div ?e * (?e div 2) + k mod ?e div 2)"
      using kd by (simp add: Zl)
    also have "odd (k mod ?e) = odd k" using e2 by (metis dvd_mod_iff dvd_triv_left)
    also have "k div ?e * (?e div 2) + k mod ?e div 2 = k div 2"
    proof -
      have "k = 2 * (k div ?e * (?e div 2)) + k mod ?e"
        using div_mult_mod_eq [of k ?e] e2 by (metis mult.left_commute)
      then show ?thesis by linarith
    qed
    finally show ?thesis .
  qed
  have half: "lanes (S (d + (q + i * n))) = (lanes (s ((if odd i then b else a) + q)) :: 't word list)" if "i < 2" for i
  proof -
    have "lanes (S (d + (q + i * n))) = map (\<lambda>e. read_source s (if odd i then VRegs b else VRegs a) (q * ?e + e) :: 't word) [0..<?e]"
      unfolding evnodd_lanewise(2) [OF w Zok n d' S q that] Let_def
    proof (rule map_cong [OF refl])
      fix e assume "e \<in> set [0..<?e]"
      then have "q * ?e + e < Suc q * ?e" by simp
      also have "\<dots> \<le> n * ?e" using q by (intro mult_le_mono1) simp
      finally have "2 * (q * ?e + e) + i < 2 * (n * ?e)" using that by (rule double_lt)
      moreover have "odd (2 * (q * ?e + e) + i) = odd i" "(2 * (q * ?e + e) + i) div 2 = q * ?e + e" using that by simp_all
      ultimately show "(if 2 * (q * ?e + e) + i < ?e * n then read_source Z (VRegs z) (2 * (q * ?e + e) + i)
          else read_source Z (VRegs (z + n)) (2 * (q * ?e + e) + i - ?e * n))
        = (read_source s (if odd i then VRegs b else VRegs a) (q * ?e + e) :: 't word)"
        using rd [of "2 * (q * ?e + e) + i"] by (simp only:)
    qed
    also have "\<dots> = lanes (s ((if odd i then b else a) + q))"
      using ok by (intro nth_equalityI) (simp_all add: vregs_ok_def)
    finally show ?thesis .
  qed
  show "lanes (S (d + q)) = (lanes (s (a + q)) :: 't word list)" using half [of 0] by simp
  show "lanes (S (d + (q + n))) = (lanes (s (b + q)) :: 't word list)" using half [of 1] by simp
qed

end
