(* ===== verification/NPU_LaneProps.thy ===== *)
theory NPU_LaneProps
  imports NPU_Lanes
begin

text \<open>
  What the lane functions of \<open>NPU_Lanes\<close> compute, in terms of the integers the lanes stand for:
  the saturating operations saturate the exact result, the halving ones halve it, the shifts
  are rounding divisions, and the bit permutations permute bits.
\<close>

unbundle bit_operations_syntax

subsection \<open>Saturating and halving arithmetic\<close>

lemma VAddsHelper_saturates:
  "sint (VAddsHelper a b) = saturate True TYPE('t) (sint a + sint (b :: 't::len word))"
proof -
  note r = sint_lower [of a] sint_upper [of a] sint_lower [of b] sint_upper [of b]
  let ?h = "2 ^ (LENGTH('t) - 1) :: int"
  have h: "0 < ?h" by simp
  have tmax: "sint (word_of_int (?h - 1) :: 't word) = ?h - 1" "sint (word_of_int (- ?h) :: 't word) = - ?h"
    using lane_int_of_int_id [of True "?h - 1", where 't = 't] lane_int_of_int_id [of True "- ?h", where 't = 't]
    by (simp_all add: lane_int_def type_min_def type_max_def)
  consider "sint a + sint b \<ge> ?h" | "sint a + sint b < - ?h" | "- ?h \<le> sint a + sint b" "sint a + sint b < ?h"
    by linarith
  then show ?thesis
  proof cases
    case 1
    then have "sint (a + b) = sint a + sint b - 2 * ?h"
      using r by (simp add: sint_add c_wrap_signed_over two_pow_len)
    then show ?thesis using r 1 tmax h
      by (simp add: VAddsHelper_def Let_def sint_xor_neg sint_xor_nonneg saturate_def type_min_def type_max_def not_less)
  next
    case 2
    then have "sint (a + b) = sint a + sint b + 2 * ?h"
      using r by (simp add: sint_add c_wrap_signed_under two_pow_len)
    then show ?thesis using r 2 tmax h
      by (simp add: VAddsHelper_def Let_def sint_xor_neg sint_xor_nonneg saturate_def type_min_def type_max_def not_less)
  next
    case 3
    then have "sint (a + b) = sint a + sint b"
      by (simp add: sint_add c_wrap_id)
    then show ?thesis using r 3 tmax h
      by (auto simp: VAddsHelper_def Let_def sint_xor_neg sint_xor_nonneg saturate_def type_min_def type_max_def not_less)
  qed
qed

lemma VSubsHelper_saturates:
  "sint (VSubsHelper a b) = saturate True TYPE('t) (sint a - sint (b :: 't::len word))"
proof -
  note r = sint_lower [of a] sint_upper [of a] sint_lower [of b] sint_upper [of b]
  let ?h = "2 ^ (LENGTH('t) - 1) :: int"
  have h: "0 < ?h" by simp
  have tmax: "sint (word_of_int (?h - 1) :: 't word) = ?h - 1" "sint (word_of_int (- ?h) :: 't word) = - ?h"
    using lane_int_of_int_id [of True "?h - 1", where 't = 't] lane_int_of_int_id [of True "- ?h", where 't = 't]
    by (simp_all add: lane_int_def type_min_def type_max_def)
  consider "sint a - sint b \<ge> ?h" | "sint a - sint b < - ?h" | "- ?h \<le> sint a - sint b" "sint a - sint b < ?h"
    by linarith
  then show ?thesis
  proof cases
    case 1
    then have "sint (a - b) = sint a - sint b - 2 * ?h"
      using r by (simp add: sint_sub c_wrap_signed_over two_pow_len)
    then show ?thesis using r 1 tmax h
      by (simp add: VSubsHelper_def Let_def sint_xor_neg sint_xor_nonneg saturate_def type_min_def type_max_def not_less)
  next
    case 2
    then have "sint (a - b) = sint a - sint b + 2 * ?h"
      using r by (simp add: sint_sub c_wrap_signed_under two_pow_len)
    then show ?thesis using r 2 tmax h
      by (simp add: VSubsHelper_def Let_def sint_xor_neg sint_xor_nonneg saturate_def type_min_def type_max_def not_less)
  next
    case 3
    then have "sint (a - b) = sint a - sint b"
      by (simp add: sint_sub c_wrap_id)
    then show ?thesis using r 3 tmax h
      by (auto simp: VSubsHelper_def Let_def sint_xor_neg sint_xor_nonneg saturate_def type_min_def type_max_def not_less)
  qed
qed

lemma VAddsuHelper_saturates:
  "uint (VAddsuHelper a b) = saturate False TYPE('t) (uint a + uint (b :: 't::len word))"
proof -
  note r = uint_bounded [of a] uint_bounded [of b] uint_nonnegative [of a] uint_nonnegative [of b]
  let ?m = "2 ^ LENGTH('t) :: int"
  show ?thesis
  proof (cases "uint a + uint b < ?m")
    case True
    then have "uint (a + b) = uint a + uint b" using r by (simp add: uint_word_ariths)
    then show ?thesis using r True
      by (simp add: VAddsuHelper_def Let_def word_less_def saturate_def type_min_def type_max_def)
  next
    case False
    have "uint a + uint b < 2 * ?m" using r by linarith
    then have "(uint a + uint b) mod ?m = uint a + uint b - ?m"
      using False by (intro mod_int_over) linarith+
    then have "uint (a + b) = uint a + uint b - ?m"
      by (simp add: uint_word_ariths)
    then show ?thesis using r False uint_type_max [where 't = 't]
      by (simp add: VAddsuHelper_def Let_def word_less_def saturate_def type_min_def type_max_def)
  qed
qed

lemma VSubsu_saturates:
  "uint (VSubsu_lane a b) = saturate False TYPE('t) (uint a - uint (b :: 't::len word))"
  using uint_bounded [of a] uint_bounded [of b] uint_nonnegative [of a] uint_nonnegative [of b]
  by (auto simp: VSubsu_lane_def word_less_def saturate_def type_min_def type_max_def uint_word_ariths)

lemma half_range:
  fixes a b :: "'t::len word"
  assumes "r = 0 \<or> r = (1::int)"
  shows "type_min sg TYPE('t) \<le> (lane_int sg a + lane_int sg b + r) div 2"
    and "(lane_int sg a + lane_int sg b + r) div 2 \<le> type_max sg TYPE('t)"
  using lane_int_bounds [of sg a] lane_int_bounds [of sg b] assms by auto

lemma VHadd_exact:
  fixes a b :: "'t::len word"
  shows "lane_int sg (CoralNPUVHaddHelper sg round a b)
       = (lane_int sg a + lane_int sg b + of_bool round) div 2"
proof -
  let ?v = "lane_int sg a + lane_int sg b + of_bool round"
  have "CoralNPUVHaddHelper sg round a b = (word_of_int (drop_bit 1 ?v) :: 't word)"
    unfolding CoralNPUVHaddHelper_def wide_def of_bool_def
    by (intro word_of_int_drop_arith) (simp add: Suc_leI)
  moreover have "lane_int sg (word_of_int (drop_bit 1 ?v) :: 't word) = ?v div 2"
    unfolding drop_bit_int_div
    using half_range [of "of_bool round" sg a b] by (intro trans [OF lane_int_of_int_id]) auto
  ultimately show ?thesis by simp
qed

lemma half_diff_range:
  fixes a b :: "'t::len word"
  assumes "r = 0 \<or> r = (1::int)"
  shows "type_min True TYPE('t) \<le> (sint a - sint b + r) div 2"
    and "(sint a - sint b + r) div 2 \<le> type_max True TYPE('t) + 1"
  using lane_int_bounds [of True a] lane_int_bounds [of True b] assms
  by (auto simp: lane_int_def type_min_def type_max_def)

lemma VHsub_exact:
  fixes a b :: "'t::len word"
  shows "CoralNPUVHsubHelper sg round a b
       = word_of_int ((lane_int sg a - lane_int sg b + of_bool round) div 2)"
proof -
  have "CoralNPUVHsubHelper sg round a b
      = (word_of_int (drop_bit 1 (lane_int sg a - lane_int sg b + of_bool round)) :: 't word)"
    unfolding CoralNPUVHsubHelper_def wide_def of_bool_def
    by (intro word_of_int_drop_arith) (simp add: Suc_leI)
  then show ?thesis by (simp add: drop_bit_int_div)
qed

subsection \<open>Shifts\<close>

text \<open>The exact, unsaturated meaning of a shift by a signed amount.\<close>

definition shift_exact :: "bool \<Rightarrow> int \<Rightarrow> int \<Rightarrow> int" where
  "shift_exact round v s =
     (if 0 < s then (v + (if round then 2 ^ nat (s - 1) else 0)) div 2 ^ nat s
      else v * 2 ^ nat (- s))"

lemma shift_exact_vanishes:
  assumes "0 \<le> v" "v < 2 ^ nat (s - 1)" "0 < s"
  shows "shift_exact round v s = 0"
proof -
  have "(2::int) ^ nat s = 2 * 2 ^ nat (s - 1)"
    using assms(3) by (simp add: nat_diff_distrib flip: power_Suc)
  then show ?thesis using assms by (auto simp: shift_exact_def)
qed

lemma shift_exact_vanishes_neg:
  assumes "v < 0" "- (2 ^ nat (s - 1)) \<le> v" "0 < s"
  shows "shift_exact round v s = (if round then 0 else - 1)"
proof -
  have p: "(2::int) ^ nat s = 2 * 2 ^ nat (s - 1)"
    using assms(3) by (simp add: nat_diff_distrib flip: power_Suc)
  have h: "0 < (2::int) ^ nat (s - 1)" by simp
  have "v div 2 ^ nat s = - 1"
    using assms p h by (intro int_div_pos_eq [where r = "v + 2 ^ nat s"]) linarith+
  moreover have "(v + 2 ^ nat (s - 1)) div 2 ^ nat s = 0"
    using assms p h by (intro div_pos_pos_trivial) linarith+
  ultimately show ?thesis using assms(3) by (simp add: shift_exact_def)
qed

lemma signed_finish:
  fixes v :: int
  assumes "v \<noteq> 0" "v < 0 \<Longrightarrow> e \<le> 0" "0 < v \<Longrightarrow> 0 \<le> e" "out \<Longrightarrow> 2 ^ LENGTH('t) \<le> \<bar>e\<bar>" "\<not> out \<Longrightarrow> x = e"
  shows "sint (if v < 0 \<and> (out \<or> x < type_min True TYPE('t)) then word_of_int (type_min True TYPE('t))
            else if v > 0 \<and> (out \<or> x > type_max True TYPE('t)) then word_of_int (type_max True TYPE('t))
            else (word_of_int x :: 't::len word)) = saturate True TYPE('t) e" (is "sint ?w = _")
proof -
  have "?w = word_of_int (saturate True TYPE('t) e)"
    using assms type_bounds [of True, where 't = 't]
    by (cases out; cases "v < 0") (auto simp: saturate_def)
  then show ?thesis using lane_int_saturate [of True e, where 't = 't] by (simp add: lane_int_def)
qed

lemma unsigned_finish:
  fixes v :: int
  assumes "0 < v" "0 \<le> e" "out \<Longrightarrow> 2 ^ LENGTH('t) \<le> e" "\<not> out \<Longrightarrow> x = e"
  shows "uint (if v \<noteq> 0 \<and> (out \<or> x > type_max False TYPE('t)) then word_of_int (type_max False TYPE('t))
            else (word_of_int x :: 't::len word)) = saturate False TYPE('t) e" (is "uint ?w = _")
proof -
  have "?w = word_of_int (saturate False TYPE('t) e)"
    using assms type_bounds [of False, where 't = 't] by (cases out) (auto simp: saturate_def type_min_def)
  then show ?thesis using lane_int_saturate [of False e, where 't = 't] by (simp add: lane_int_def)
qed

lemma shift_exact_sign:
  "v < 0 \<Longrightarrow> shift_exact round v s \<le> 0" "0 \<le> v \<Longrightarrow> 0 \<le> shift_exact round v s"
proof -
  have p: "0 < (2::int) ^ nat (s - 1)" by simp
  show "0 \<le> v \<Longrightarrow> 0 \<le> shift_exact round v s"
    using p by (auto simp: shift_exact_def pos_imp_zdiv_nonneg_iff)
  assume v: "v < 0"
  show "shift_exact round v s \<le> 0"
  proof (cases "0 < s")
    case True
    then have "(2::int) ^ nat s = 2 * 2 ^ nat (s - 1)"
      by (simp add: nat_diff_distrib flip: power_Suc)
    then have "v + (if round then 2 ^ nat (s - 1) else 0) < 2 ^ nat s" using v p by (cases round; simp only: if_True if_False; linarith)
    then have "(v + (if round then 2 ^ nat (s - 1) else 0)) div 2 ^ nat s < 1"
      using pos_imp_zdiv_pos_iff [of "2 ^ nat s" "v + (if round then 2 ^ nat (s - 1) else 0)"]
      by (simp split del: if_split)
    then show ?thesis using True by (simp add: shift_exact_def)
  next
    case False
    then show ?thesis using v by (simp add: shift_exact_def mult_nonpos_nonneg)
  qed
qed

lemma shift_right_wide:
  assumes "0 < s" "s \<le> int n" "fits sg n v"
  shows "c_wrap sg (2 * n) (drop_bit (nat s) (c_arith sg (2 * n)
           (v + (if round then c_wrap sg (2 * n) (2 ^ nat (s - 1)) else 0)))) = shift_exact round v s"
proof -
  have "nat (s - 1) = nat s - 1" using assms(1) by (simp add: nat_diff_distrib)
  moreover have "0 < nat s" "nat s \<le> n" using assms by auto
  ultimately show ?thesis using drop_bit_in_wide [of "nat s" n sg v round] assms(1,3) by (simp only: shift_exact_def if_True)
qed

lemma shift_left_clamped:
  assumes "s \<le> 0" "fits sg n v" "n \<noteq> 0" "- int n < s \<Longrightarrow> True"
  shows "c_wrap sg (2 * n) (c_arith False (2 * n)
           (push_bit (nat (if - s \<le> int n then - s else int n)) (take_bit (2 * n) v)))
       = v * 2 ^ nat (min (- s) (int n))"
proof -
  have "nat (if - s \<le> int n then - s else int n) = nat (min (- s) (int n))" by (simp add: min_def)
  then show ?thesis using shift_left_wide [of sg n v "nat (min (- s) (int n))"] assms by simp
qed

text \<open>
  \<open>vshift\<close> computes the exact (optionally rounded) shift of the lane's value and saturates it:
  every early case of the code is an instance of this one formula.
\<close>

lemma VShift_signed_saturates:
  fixes a b :: "'t::len word"
  assumes n8: "8 dvd LENGTH('t)" and m: "sint b \<noteq> int_min"
  shows "\<exists>r. CoralNPUVShiftHelper_signed round a b = Some r
     \<and> sint r = saturate True TYPE('t) (shift_exact round (sint a) (sint b))"
proof -
  let ?n = "LENGTH('t)" and ?v = "sint a" and ?s = "sint b"
  have n: "?n \<noteq> 0" by simp
  note k = sizeof_bits [OF n8]
  have r: "- (2 ^ (?n - 1)) \<le> ?v" "?v < 2 ^ (?n - 1)" by (rule sint_lower sint_upper)+
  have li: "\<And>x. sint (x :: 't word) = lane_int True x" by (simp add: lane_int_def)
  have z: "sint (word_of_int (-1 + (if round then 1 else 0)) :: 't word) = (-1 + (if round then 1 else 0))"
    by simp
  consider (zero) "?v = 0" | (big) "?v \<noteq> 0" "int ?n \<le> ?s" | (right) "?v \<noteq> 0" "0 < ?s" "?s < int ?n"
    | (left) "?v \<noteq> 0" "?s \<le> 0" by linarith
  then show ?thesis
  proof cases
    case zero
    then show ?thesis
      by (auto simp: CoralNPUVShiftHelper_signed_def shift_exact_def saturate_def type_min_def type_max_def)
  next
    case big
    have p: "(2::int) ^ (?n - 1) \<le> 2 ^ nat (?s - 1)" using big by (intro power_increasing) auto
    have "0 < ?s" using big(2) n by linarith
    then have e: "shift_exact round ?v ?s = (if ?v < 0 then (if round then 0 else - 1) else 0)"
      using shift_exact_vanishes [of ?v ?s round] shift_exact_vanishes_neg [of ?v ?s round] p r big by auto
    have x: "shift_exact round ?v ?s = (if ?v < 0 then - 1 + (if round then 1 else 0) else 0)"
      using e by simp
    have "0 < int ?n" by simp
    with big(2) have f: "\<not> ?s \<le> - int ?n" by linarith
    let ?r = "- 1 + (if round then 1 else 0) :: int"
    show ?thesis
    proof (cases "?v < 0")
      case True
      then have "shift_exact round ?v ?s = ?r" using x by simp
      then show ?thesis using True big f signed_finish [of ?v ?r False ?r, where 't = 't]
        by (cases round) (simp_all add: CoralNPUVShiftHelper_signed_def Let_def k x cong: if_cong split del: if_split)
    next
      case False
      then show ?thesis using big f signed_finish [of ?v 0 False 0, where 't = 't]
        by (simp add: CoralNPUVShiftHelper_signed_def Let_def k x split del: if_split)
    qed
  next
    case right
    then show ?thesis
      using signed_finish [of ?v "shift_exact round ?v ?s" "?s \<le> - int ?n" "shift_exact round ?v ?s", where 't = 't]
        shift_exact_sign [of ?v round ?s] shift_right_wide [of ?s ?n True ?v round]
      by (simp add: CoralNPUVShiftHelper_signed_def Let_def k wide_def fits_sint cong: if_cong split del: if_split)
  next
    case left
    have o: "?s \<le> - int ?n \<Longrightarrow> 2 ^ ?n \<le> \<bar>shift_exact round ?v ?s\<bar>"
      using left_saturates [of ?n "nat (- ?s)" ?v] left by (simp add: shift_exact_def)
    have i: "\<not> ?s \<le> - int ?n \<Longrightarrow> ?v * 2 ^ nat (min (- ?s) (int ?n)) = shift_exact round ?v ?s"
      using left by (simp add: shift_exact_def min_def)
    have "0 < int ?n" by simp
    then have h: "\<not> int ?n \<le> ?s" using left(2) by linarith
    show ?thesis
      using signed_finish [of ?v "shift_exact round ?v ?s" "?s \<le> - int ?n" "?v * 2 ^ nat (min (- ?s) (int ?n))", where 't = 't]
        shift_exact_sign [of ?v round ?s] shift_left_clamped [of ?s True ?n ?v] left m o i h
      by (simp add: CoralNPUVShiftHelper_signed_def Let_def k wide_def fits_sint cong: if_cong split del: if_split)
  qed
qed

lemma shift_unsigned_rewrite:
  "push_bit u (uint (a :: 't::len word)) = push_bit u (take_bit (2 * LENGTH('t)) (uint a))"
  by (simp add: take_bit_int_eq_self [OF uint_nonnegative] less_le_trans [OF uint_bounded] power_increasing)

lemma VShift_unsigned_saturates:
  fixes a b :: "'t::len word"
  assumes n8: "8 dvd LENGTH('t)" and m: "sint b \<noteq> int_min"
  shows "\<exists>r. CoralNPUVShiftHelper_unsigned round a b = Some r
     \<and> uint r = saturate False TYPE('t) (shift_exact round (uint a) (sint b))"
proof -
  let ?n = "LENGTH('t)" and ?v = "uint a" and ?s = "sint b"
  have n: "0 < int ?n" by simp
  note k = sizeof_bits [OF n8]
  have r: "0 \<le> ?v" "?v < 2 ^ ?n" by (rule uint_nonnegative uint_bounded)+
  consider (zero) "?v = 0" | (big) "0 < ?v" "int ?n < ?s" | (right) "0 < ?v" "0 < ?s" "?s \<le> int ?n"
    | (left) "0 < ?v" "?s \<le> 0" using r by linarith
  then show ?thesis
  proof cases
    case zero
    then show ?thesis
      by (auto simp: CoralNPUVShiftHelper_unsigned_def shift_exact_def saturate_def type_min_def type_max_def)
  next
    case big
    have p: "(2::int) ^ ?n \<le> 2 ^ nat (?s - 1)" using big by (intro power_increasing) auto
    have "0 < ?s" "\<not> ?s < - int ?n" using big(2) n by linarith+
    moreover from this(1) have "shift_exact round ?v ?s = 0"
      using shift_exact_vanishes [of ?v ?s round] p r by linarith
    ultimately show ?thesis using big unsigned_finish [of ?v 0 False 0, where 't = 't]
      by (simp add: CoralNPUVShiftHelper_unsigned_def Let_def k)
  next
    case right
    have e: "c_wrap False (wide TYPE('t)) (drop_bit (nat ?s) (c_arith False (wide TYPE('t))
           (?v + (if round then c_wrap False (wide TYPE('t)) (2 ^ nat (?s - 1)) else 0)))) = shift_exact round ?v ?s"
      using shift_right_wide [of ?s ?n False ?v round] right by (simp only: wide_def fits_uint)
    then show ?thesis
      using unsigned_finish [of ?v "shift_exact round ?v ?s" "?s < - int ?n" "shift_exact round ?v ?s", where 't = 't]
        shift_exact_sign(2) [of ?v round ?s] right
      by (simp add: CoralNPUVShiftHelper_unsigned_def Let_def k e cong: if_cong split del: if_split)
  next
    case left
    have o: "?s < - int ?n \<Longrightarrow> 2 ^ ?n \<le> shift_exact round ?v ?s"
      using left_saturates [of ?n "nat (- ?s)" ?v] left by (simp add: shift_exact_def)
    have i: "\<not> ?s < - int ?n \<Longrightarrow> ?v * 2 ^ nat (min (- ?s) (int ?n)) = shift_exact round ?v ?s"
      using left by (simp add: shift_exact_def min_def)
    show ?thesis
      using unsigned_finish [of ?v "shift_exact round ?v ?s" "?s < - int ?n" "?v * 2 ^ nat (min (- ?s) (int ?n))", where 't = 't]
        shift_exact_sign(2) [of ?v round ?s] shift_left_clamped [of ?s False ?n ?v] left m o i
      by (simp add: CoralNPUVShiftHelper_unsigned_def Let_def k wide_def fits_uint shift_unsigned_rewrite
          cong: if_cong split del: if_split)
  qed
qed

lemma shift_exact_zero: "shift_exact round 0 s = 0"
  using shift_exact_vanishes [of 0 s round] by (cases "0 < s") (simp_all, simp add: shift_exact_def)

lemma shift_right_nat:
  assumes "k < n" "fits sg n v"
  shows "c_wrap sg (2 * n) (drop_bit k (c_arith sg (2 * n)
        (v + (if k \<noteq> 0 \<and> round then c_wrap sg (2 * n) (2 ^ (k - 1)) else 0)))) = shift_exact round v (int k)"
proof (cases "k = 0")
  case True
  have f: "fits sg (2 * n) v" using fits_wide_add [OF assms(2), of 0] assms(1) by simp
  show ?thesis using fits_arith [OF _ f] fits_wrap [OF _ f] assms(1) by (simp add: True shift_exact_def)
next
  case False
  then show ?thesis
    using drop_bit_in_wide [of k n sg v round] assms by (simp add: shift_exact_def nat_diff_distrib')
qed

lemma VSrans_saturates:
  fixes a :: "'s::len word" and b :: "'d::len word"
  assumes n8: "8 dvd LENGTH('s)"
  shows "lane_int sg (CoralNPUVSransHelper sg round a b)
       = saturate sg TYPE('d) (shift_exact round (lane_int sg a)
           (int (unat (b AND word_of_nat (LENGTH('s) - 1)))))"
proof -
  let ?n = "LENGTH('s)" and ?k = "unat (b AND word_of_nat (LENGTH('s) - 1))" and ?v = "lane_int sg a"
  let ?e = "shift_exact round ?v (int ?k)"
  have k: "?k < ?n" by (rule unat_and_pred_lt) simp
  note e = shift_right_nat [OF k fits_lane [of sg a], of round]
  have z: "saturate sg TYPE('d) (shift_exact round 0 (int ?k)) = 0"
    using type_bounds [of sg, where 't = 'd] by (simp add: shift_exact_zero saturate_def)
  have "CoralNPUVSransHelper sg round a b = word_of_int (saturate sg TYPE('d) ?e)"
    unfolding CoralNPUVSransHelper_def Let_def sizeof_bits [OF n8] wide_def e
    using z type_min_le_max [of sg, where 't = 'd] by (auto simp: saturate_def lane_int_def)
  then show ?thesis by simp
qed

subsection \<open>Multiplication\<close>

lemma VMuls_saturates:
  "lane_int sg (VMuls_lane sg a b) = saturate sg TYPE('t) (lane_int sg a * lane_int sg (b :: 't::len word))"
proof -
  let ?p = "lane_int sg a * lane_int sg b"
  have f: "fits sg (2 * LENGTH('t)) ?p" by (intro fits_mult fits_lane) simp
  have "VMuls_lane sg a b = (word_of_int (saturate sg TYPE('t) ?p) :: 't word)"
    using fits_arith [OF _ f] fits_wrap [OF _ f] f type_bounds [of False, where 't = 't]
    by (cases sg) (auto simp add: VMuls_lane_def wide_def Let_def saturate_def fits_def min_def max_def type_min_def [of False])
  then show ?thesis by simp
qed

lemma VMul_modular: "VMul_lane a b = a * (b :: 't::len word)"
proof -
  have "VMul_lane a b = word_of_int (drop_bit 0 (c_arith True (wide TYPE('t)) (sint a * sint b)))"
    by (simp add: VMul_lane_def)
  also have "\<dots> = word_of_int (sint a * sint b)"
    by (subst word_of_int_drop_arith) (simp_all add: wide_def)
  finally show ?thesis by simp
qed

lemma VMacc_modular: "VMacc_lane d a b = d + a * (b :: 't::len word)"
proof -
  have "VMacc_lane d a b = word_of_int (drop_bit 0 (c_arith True (wide TYPE('t)) (sint d + sint a * sint b)))"
    by (simp add: VMacc_lane_def)
  also have "\<dots> = word_of_int (sint d + sint a * sint b)"
    by (subst word_of_int_drop_arith) (simp_all add: wide_def)
  finally show ?thesis by simp
qed

lemma VMadd_modular: "VMadd_lane d a b = a + d * (b :: 't::len word)"
  using VMacc_modular [of a d b] by (simp add: VMacc_lane_def VMadd_lane_def)

lemma VMulh_high_half:
  fixes a b :: "'t::len word"
  assumes n8: "8 dvd LENGTH('t)"
  shows "CoralNPUVMulhHelper sg round a b = word_of_int
      ((lane_int sg a * lane_int sg b + (if round then 2 ^ (LENGTH('t) - 1) else 0)) div 2 ^ LENGTH('t))"
proof -
  let ?n = "LENGTH('t)"
  have f: "fits sg (2 * ?n) (lane_int sg a * lane_int sg b)" by (intro fits_mult fits_lane) simp
  have p: "c_wrap sg (2 * ?n) (2 ^ (?n - 1)) = 2 ^ (?n - 1)" by (intro fits_wrap fits_wide_pow) simp_all
  show ?thesis
    unfolding CoralNPUVMulhHelper_def Let_def sizeof_bits [OF n8] wide_def
    using fits_arith [OF _ f] fits_wrap [OF _ f] p
    by (simp add: c_wrap_arith c_wrap_c_arith_word drop_bit_int_div [symmetric] split del: if_split cong: if_cong)
qed


text \<open>The rounding constant \<open>vdmulhr\<close>/\<open>vdmulhrn\<close> add before taking the high half.\<close>

definition dmulh_rounding :: "bool \<Rightarrow> bool \<Rightarrow> nat \<Rightarrow> int \<Rightarrow> int" where
  "dmulh_rounding round round_neg n p =
     (if round then (if p < 0 \<and> round_neg then - (2 ^ (n - 2)) else 2 ^ (n - 2)) else 0)"

lemma dmulh_const:
  assumes "2 \<le> n" "n \<le> 32"
  shows "drop_bit (32 - n) (0x40000000 :: int) = 2 ^ (n - 2)" "drop_bit (32 - n) (- 0x40000000 :: int) = - (2 ^ (n - 2))"
proof -
  have "2 ^ (n - 2) * 2 ^ (32 - n) = (2 ^ 30 :: int)" using assms by (simp flip: power_add)
  then have e: "(0x40000000 :: int) = 2 ^ (n - 2) * 2 ^ (32 - n)" by simp
  show "drop_bit (32 - n) (0x40000000 :: int) = 2 ^ (n - 2)"
    unfolding e drop_bit_int_div by simp
  have "- (0x40000000 :: int) = - (2 ^ (n - 2)) * 2 ^ (32 - n)" unfolding e by (rule minus_mult_left)
  then show "drop_bit (32 - n) (- 0x40000000 :: int) = - (2 ^ (n - 2))"
    unfolding drop_bit_int_div by (metis nonzero_mult_div_cancel_right power_not_zero zero_neq_numeral)
qed

lemma abs_mult_le_pred:
  assumes "\<bar>a\<bar> \<le> h" "\<bar>b\<bar> \<le> h - 1" "0 < (h::int)"
  shows "\<bar>a * b\<bar> \<le> h * h - h"
proof -
  have "\<bar>a * b\<bar> \<le> h * (h - 1)" unfolding abs_mult using assms by (intro mult_mono) auto
  then show ?thesis by (simp add: right_diff_distrib)
qed

lemma dmulh_range:
  assumes "- h \<le> a" "a < h" "- h \<le> b" "b < (h::int)" "h = 2 * q" "0 < q" "- q \<le> r" "r \<le> q"
    and "\<not> (a = - h \<and> b = - h)"
  shows "- h \<le> (a * b + r) div h" "(a * b + r) div h < h"
proof -
  have ab: "\<bar>a\<bar> \<le> h" "\<bar>b\<bar> \<le> h" "\<bar>a\<bar> \<le> h - 1 \<or> \<bar>b\<bar> \<le> h - 1" using assms by auto
  have "\<bar>a * b\<bar> \<le> h * h - h"
    using abs_mult_le_pred [of a h b] abs_mult_le_pred [of b h a] ab assms(5,6) by (auto simp: mult.commute)
  then have x: "- h * h \<le> a * b + r" "a * b + r < h * h" using assms by (auto simp: abs_le_iff)
  have h: "0 < h" using assms(5,6) by simp
  have "(a * b + r) div h * h \<le> a * b + r" using h by (metis add_diff_cancel_right' diff_ge_0_iff_ge minus_div_mult_eq_mod pos_mod_sign)
  moreover have "h \<le> (a * b + r) div h \<Longrightarrow> h * h \<le> (a * b + r) div h * h" using h by (intro mult_right_mono) auto
  ultimately show "(a * b + r) div h < h" using x(2) by linarith
  show "- h \<le> (a * b + r) div h" using zdiv_mono1 [OF x(1) h] nonzero_mult_div_cancel_right [of h "- h"] h by simp
qed

lemma dmulh_fits:
  assumes "\<bar>a\<bar> \<le> h" "\<bar>b\<bar> \<le> (h::int)" "- q \<le> r" "r \<le> q" "q < h"
  shows "- (2 * (h * h)) \<le> a * b + r" "a * b + r < 2 * (h * h)"
proof -
  have "\<bar>a * b\<bar> \<le> h * h" unfolding abs_mult using assms(1,2) by (intro mult_mono) auto
  then have "a * b \<le> h * h" "- (h * h) \<le> a * b" by (auto simp: abs_le_iff)
  moreover have "h * 1 \<le> h * h" using assms by (intro mult_left_mono) auto
  then have "h \<le> h * h" by simp
  ultimately show "- (2 * (h * h)) \<le> a * b + r" "a * b + r < 2 * (h * h)"
    using assms(3-) by linarith+
qed

lemma VDmulh_saturates:
  fixes a b :: "'t::len word"
  assumes n8: "8 dvd LENGTH('t)" and n32: "LENGTH('t) \<le> 32"
  shows "sint (CoralNPUVDmulhHelper round round_neg a b) = saturate True TYPE('t)
     ((sint a * sint b + dmulh_rounding round round_neg LENGTH('t) (sint a * sint b)) div 2 ^ (LENGTH('t) - 1))"
proof -
  let ?n = "LENGTH('t)" and ?p = "sint a * sint b"
  let ?h = "2 ^ (?n - 1) :: int" and ?q = "2 ^ (?n - 2) :: int"
  let ?r = "dmulh_rounding round round_neg ?n ?p"
  have n: "8 \<le> ?n" using n8 by (intro dvd_imp_le) simp_all
  have h: "?h = 2 * ?q" using n by (simp add: Suc_diff_Suc numeral_2_eq_2 flip: power_Suc)
  have q: "0 < ?q" by simp
  have r: "- ?q \<le> ?r" "?r \<le> ?q" "0 \<le> ?p \<Longrightarrow> 0 \<le> ?r" by (auto simp: dmulh_rounding_def)
  have f: "fits True (2 * ?n) ?p" by (intro fits_mult fits_sint) simp
  have ra: "- ?h \<le> sint a" "sint a < ?h" "- ?h \<le> sint b" "sint b < ?h" by (rule sint_lower sint_upper)+
  have qh: "?q < ?h" using h q by linarith
  have hh: "(2::int) ^ (2 * ?n - 1) = 2 * (?h * ?h)"
    using n by (simp add: numeral_2_eq_2 flip: power_add power_Suc)
  have ab: "\<bar>sint a\<bar> \<le> ?h" "\<bar>sint b\<bar> \<le> ?h" using ra by auto
  have fr: "fits True (2 * ?n) (?p + ?r)"
    using dmulh_fits [OF ab r(1,2) qh] unfolding fits_def hh by simp
  have c: "c_wrap True (2 * ?n) ?q = ?q" by (intro fits_wrap fits_wide_pow) (use n in simp_all)
  have c': "c_wrap True (2 * ?n) (- ?q) = - ?q"
  proof (rule fits_wrap)
    show "fits True (2 * ?n) (- ?q)"
      using dmulh_fits [of 0 ?h 0 ?q "- ?q"] qh q unfolding fits_def hh by simp
  qed simp
  have v: "CoralNPUVDmulhHelper round round_neg a b = word_of_int
     (if sint a = - ?h \<and> sint b = - ?h then ?h - 1 else drop_bit (?n - 1) (?p + ?r))"
    unfolding CoralNPUVDmulhHelper_def Let_def sizeof_bits [OF n8] wide_def
    using fits_arith [OF _ f] fits_wrap [OF _ f] fits_arith [OF _ fr] fits_wrap [OF _ fr] n n32 c c'
    by (cases round; cases round_neg; cases "?p < 0")
      (simp_all add: dmulh_const dmulh_rounding_def type_min_def type_max_def cong: if_cong split del: if_split)
  have s: "saturate True TYPE('t) ((?p + ?r) div ?h)
      = (if sint a = - ?h \<and> sint b = - ?h then ?h - 1 else (?p + ?r) div ?h)"
  proof (cases "sint a = - ?h \<and> sint b = - ?h")
    case True
    have "?r < ?h" using r(2) qh by (rule order_le_less_trans)
    moreover have "0 \<le> ?r" using r(3) True by simp
    ultimately have "(?p + ?r) div ?h = ?h" using True q qh by (simp add: div_pos_pos_trivial)
    then show ?thesis using True q qh by (simp add: saturate_def type_min_def type_max_def)
  next
    case False
    then show ?thesis using dmulh_range [OF ra h q r(1,2)]
      by (auto simp: saturate_def type_min_def type_max_def)
  qed
  show ?thesis unfolding v drop_bit_int_div s [symmetric]
    using lane_int_saturate [of True "(?p + ?r) div ?h", where 't = 't] by (simp only: lane_int_def if_True)
qed
subsection \<open>Bit permutations\<close>

lemma xor_pow2_table:
  "\<forall>k \<in> set [1,2,4,8,16]. \<forall>i \<in> set [0..<32].
     (if i AND k = (0::nat) then i XOR k = i + k \<and> (i + k) AND k \<noteq> 0 \<and> (k \<le> i \<longrightarrow> (i - k) AND k \<noteq> 0)
      else k \<le> i \<and> i XOR k = i - k \<and> (i - k) AND k = 0 \<and> (i + k) AND k = 0)"
  by code_simp

lemma rev_step_bit:
  fixes r :: "'t::len word"
  assumes "\<And>j. j < LENGTH('t) \<Longrightarrow> bit lo j \<longleftrightarrow> j AND k = 0" "\<And>j. j < LENGTH('t) \<Longrightarrow> bit hi j \<longleftrightarrow> j AND k \<noteq> 0"
    and "LENGTH('t) \<le> 32" "k \<in> {1,2,4,8,16}" "i < LENGTH('t)"
  shows "bit (rev_step k lo hi r) i = bit r (i XOR k)"
proof -
  have "k \<in> set [1,2,4,8,16]" "i \<in> set [0..<32]" using assms(3-5) by auto
  note t = bspec [OF bspec [OF xor_pow2_table this(1)] this(2)]
  show ?thesis
  proof (cases "i AND k = 0")
    case True
    then show ?thesis using t assms(1) [of "i - k"] assms(2) [of "i + k"] assms(5)
      by (auto simp only: rev_step_def bit_or_iff bit_push_bit_iff bit_drop_bit_eq bit_and_iff if_True o_apply
          simp_thms not_less impossible_bit possible_bit_word add.commute split: if_splits dest: bit_imp_le_length)
  next
    case False
    then show ?thesis using t assms(1) [of "i - k"] assms(2) [of "i + k"] assms(5)
      by (auto simp only: rev_step_def bit_or_iff bit_push_bit_iff bit_drop_bit_eq bit_and_iff if_False o_apply
          simp_thms not_less impossible_bit possible_bit_word add.commute split: if_splits dest: bit_imp_le_length)
  qed
qed

lemma numeral_mask_bits:
  assumes "\<forall>j \<in> set [0..<32]. bit (numeral m :: int) j = P j" "LENGTH('t) \<le> 32" "j < LENGTH('t)"
  shows "bit (numeral m :: 't::len word) j = P j"
  using assms by (auto simp: bit_numeral_word_iff)

lemma ladder_masks:
  assumes "LENGTH('t) \<le> 32" "j < LENGTH('t::len)"
  shows "bit (0x55555555 :: 't word) j \<longleftrightarrow> j AND 1 = 0" "bit (0xAAAAAAAA :: 't word) j \<longleftrightarrow> j AND 1 \<noteq> 0"
    "bit (0x33333333 :: 't word) j \<longleftrightarrow> j AND 2 = 0" "bit (0xCCCCCCCC :: 't word) j \<longleftrightarrow> j AND 2 \<noteq> 0"
    "bit (0x0F0F0F0F :: 't word) j \<longleftrightarrow> j AND 4 = 0" "bit (0xF0F0F0F0 :: 't word) j \<longleftrightarrow> j AND 4 \<noteq> 0"
    "bit (0x00FF00FF :: 't word) j \<longleftrightarrow> j AND 8 = 0" "bit (0xFF00FF00 :: 't word) j \<longleftrightarrow> j AND 8 \<noteq> 0"
    "bit (0x0000FFFF :: 't word) j \<longleftrightarrow> j AND 16 = 0" "bit (0xFFFF0000 :: 't word) j \<longleftrightarrow> j AND 16 \<noteq> 0"
  by (rule numeral_mask_bits [OF _ assms], code_simp)+

lemma ladder_stage:
  fixes r :: "'t::len word"
  assumes n: "LENGTH('t) \<le> 32" and i: "i < LENGTH('t)"
  shows
    "bit (if b then rev_step 1 0x55555555 0xAAAAAAAA r else r) i = bit r (i XOR (if b then 1 else 0))"
    "bit (if b then rev_step 2 0x33333333 0xCCCCCCCC r else r) i = bit r (i XOR (if b then 2 else 0))"
    "bit (if b then rev_step 4 0x0F0F0F0F 0xF0F0F0F0 r else r) i = bit r (i XOR (if b then 4 else 0))"
    "bit (if b then rev_step 8 0x00FF00FF 0xFF00FF00 r else r) i = bit r (i XOR (if b then 8 else 0))"
    "bit (if b then rev_step 16 0x0000FFFF 0xFFFF0000 r else r) i = bit r (i XOR (if b then 16 else 0))"
  using rev_step_bit [OF ladder_masks(1,2) [OF n] n _ i] rev_step_bit [OF ladder_masks(3,4) [OF n] n _ i]
    rev_step_bit [OF ladder_masks(5,6) [OF n] n _ i] rev_step_bit [OF ladder_masks(7,8) [OF n] n _ i]
    rev_step_bit [OF ladder_masks(9,10) [OF n] n _ i]
  by simp_all

lemma xor_lt_pow2: "i < 2 ^ m \<Longrightarrow> k < 2 ^ m \<Longrightarrow> i XOR k < (2 ^ m :: nat)"
  by (simp flip: take_bit_nat_eq_self_iff add: take_bit_xor)

lemma count_bits:
  fixes c :: "'t::len word"
  defines "b \<equiv> \<lambda>k. if bit c k then 2 ^ k else (0::nat)"
  shows "unat c mod 8 = b 0 XOR b 1 XOR b 2" "unat c mod 16 = b 0 XOR b 1 XOR b 2 XOR b 3"
    "unat c mod 32 = b 0 XOR b 1 XOR b 2 XOR b 3 XOR b 4"
proof -
  have s: "{0..<3} = {0, 1, 2::nat}" "{0..<4} = {0, 1, 2, 3::nat}" "{0..<5} = {0, 1, 2, 3, 4::nat}" by auto
  have t: "unat c mod 2 ^ m = (\<Sum>k = 0..<m. push_bit k (of_bool (bit c k)))" for m
    using take_bit_sum [of m "unat c"] by (simp add: take_bit_eq_mod bit_unsigned_iff)
  show "unat c mod 8 = b 0 XOR b 1 XOR b 2" "unat c mod 16 = b 0 XOR b 1 XOR b 2 XOR b 3"
    "unat c mod 32 = b 0 XOR b 1 XOR b 2 XOR b 3 XOR b 4"
    using t [of 3] t [of 4] t [of 5] by (simp_all add: s b_def)
qed

lemma and_pow2_zero: "(c AND 1 \<noteq> 0) = bit c 0" "(c AND 2 \<noteq> 0) = bit c 1" "(c AND 4 \<noteq> 0) = bit c 2"
    "(c AND 8 \<noteq> 0) = bit c 3" "(c AND 16 \<noteq> 0) = bit c 4" if "5 \<le> LENGTH('t)" for c :: "'t::len word"
proof -
  have "(c AND push_bit k 1 \<noteq> 0) = bit c k" for k
    by (simp add: bit_iff_and_push_bit_not_eq_0)
  from this [of 0] this [of 1] this [of 2] this [of 3] this [of 4]
  show "(c AND 1 \<noteq> 0) = bit c 0" "(c AND 2 \<noteq> 0) = bit c 1" "(c AND 4 \<noteq> 0) = bit c 2"
    "(c AND 8 \<noteq> 0) = bit c 3" "(c AND 16 \<noteq> 0) = bit c 4" by simp_all
qed

lemma VRev_permutes:
  fixes r c :: "'t::len word"
  assumes "LENGTH('t) \<in> {8, 16, 32}" "i < LENGTH('t)"
  shows "bit (VRev_lane r c) i = bit r (i XOR (unat c mod LENGTH('t)))"
proof -
  have n: "LENGTH('t) \<le> 32" "5 \<le> LENGTH('t)" using assms(1) by auto
  obtain m where m: "LENGTH('t) = 2 ^ m" "m \<in> {3, 4, 5}"
    using assms(1) by (cases "LENGTH('t) = 8"; cases "LENGTH('t) = 16") (force intro: that [of 3] that [of 4] that [of 5])+
  note stage = ladder_stage [OF n(1)]
  have lt: "j XOR (if b then k else 0) < LENGTH('t)" if "j < LENGTH('t)" "k < LENGTH('t)" for j k b
    using that xor_lt_pow2 [of j m k] m(1) by simp
  have cb: "((c AND 31) AND 1 \<noteq> 0) = bit c 0" "((c AND 31) AND 2 \<noteq> 0) = bit c 1" "((c AND 31) AND 4 \<noteq> 0) = bit c 2"
    "((c AND 31) AND 8 \<noteq> 0) = bit c 3" "((c AND 31) AND 16 \<noteq> 0) = bit c 4"
    using and_pow2_zero [OF n(2), of c] by (simp_all add: and.assoc)
  consider "LENGTH('t) = 8" | "LENGTH('t) = 16" | "LENGTH('t) = 32" using assms(1) by auto
  then show ?thesis
  proof cases
    case 1
    then have k: "1 < LENGTH('t)" "2 < LENGTH('t)" "4 < LENGTH('t)" and s: "(sizeof TYPE('t) = 1) = True"
      by (simp_all add: sizeof_def)
    show ?thesis
      unfolding VRev_lane_def Let_def cb
      using assms(2) k by (simp only: s if_True if_False stage lt) (simp add: 1 count_bits xor.assoc xor.left_commute xor.commute)
  next
    case 2
    then have k: "1 < LENGTH('t)" "2 < LENGTH('t)" "4 < LENGTH('t)" "8 < LENGTH('t)" and s: "(sizeof TYPE('t) = 1) = False" "(sizeof TYPE('t) = 2) = True"
      by (simp_all add: sizeof_def)
    show ?thesis
      unfolding VRev_lane_def Let_def cb
      using assms(2) k by (simp only: s if_True if_False stage lt) (simp add: 2 count_bits xor.assoc xor.left_commute xor.commute)
  next
    case 3
    then have k: "1 < LENGTH('t)" "2 < LENGTH('t)" "4 < LENGTH('t)" "8 < LENGTH('t)" "16 < LENGTH('t)"
      and s: "(sizeof TYPE('t) = 1) = False" "(sizeof TYPE('t) = 2) = False"
      by (simp_all add: sizeof_def)
    show ?thesis
      unfolding VRev_lane_def Let_def cb
      using assms(2) k by (simp only: s if_True if_False stage lt) (simp add: 3 count_bits xor.assoc xor.left_commute xor.commute)
  qed
qed

lemma rotate_step:
  fixes r :: "'t::len word"
  assumes "0 < s" "s < LENGTH('t)"
  shows "drop_bit s r OR push_bit (LENGTH('t) - s) r = word_rotr s r"
  using assms by (intro bit_word_eqI) (auto simp: bit_simps mod_if add.commute dest: bit_imp_le_length)

lemma ror_stage:
  fixes r :: "'t::len word"
  assumes "0 < s" "s < LENGTH('t)"
  shows "(if b then drop_bit s r OR push_bit (LENGTH('t) - s) r else r) = word_rotr (if b then s else 0) r"
  using rotate_step [OF assms, of r] by (auto intro: bit_word_eqI simp: bit_word_rotr_iff)

lemma VRor_rotates:
  fixes r c :: "'t::len word"
  assumes "LENGTH('t) \<in> {8, 16, 32}"
  shows "VRor_lane r c = word_rotr (unat c mod LENGTH('t)) r"
proof -
  have n: "5 \<le> LENGTH('t)" using assms by auto
  have d: "sizeof TYPE('t) * 8 = LENGTH('t)" using assms by (auto simp: sizeof_def)
  note b = and_pow2_zero [OF n, of c]
  consider "LENGTH('t) = 8" | "LENGTH('t) = 16" | "LENGTH('t) = 32" using assms by auto
  then show ?thesis
  proof cases
    case 1
    have k: "1 < LENGTH('t)" "2 < LENGTH('t)" "4 < LENGTH('t)" using 1 by simp_all
    have cb: "((c AND word_of_nat (LENGTH('t) - 1)) AND word_of_nat 1 \<noteq> 0) = bit c 0" "((c AND word_of_nat (LENGTH('t) - 1)) AND word_of_nat 2 \<noteq> 0) = bit c 1" "((c AND word_of_nat (LENGTH('t) - 1)) AND word_of_nat 4 \<noteq> 0) = bit c 2" "((c AND word_of_nat (LENGTH('t) - 1)) AND word_of_nat 8 \<noteq> 0) = False" "((c AND word_of_nat (LENGTH('t) - 1)) AND word_of_nat 16 \<noteq> 0) = False"
      using b 1 by (simp_all add: and.assoc)
    show ?thesis using k
      by (simp only: VRor_lane_def Let_def d cb fold_simps if_False ror_stage zero_less_numeral zero_less_one)
        (simp add: word_rotr_word_rotr_eq 1 count_bits)
  next
    case 2
    have k: "1 < LENGTH('t)" "2 < LENGTH('t)" "4 < LENGTH('t)" "8 < LENGTH('t)" using 2 by simp_all
    have cb: "((c AND word_of_nat (LENGTH('t) - 1)) AND word_of_nat 1 \<noteq> 0) = bit c 0" "((c AND word_of_nat (LENGTH('t) - 1)) AND word_of_nat 2 \<noteq> 0) = bit c 1" "((c AND word_of_nat (LENGTH('t) - 1)) AND word_of_nat 4 \<noteq> 0) = bit c 2" "((c AND word_of_nat (LENGTH('t) - 1)) AND word_of_nat 8 \<noteq> 0) = bit c 3" "((c AND word_of_nat (LENGTH('t) - 1)) AND word_of_nat 16 \<noteq> 0) = False"
      using b 2 by (simp_all add: and.assoc)
    show ?thesis using k
      by (simp only: VRor_lane_def Let_def d cb fold_simps if_False ror_stage zero_less_numeral zero_less_one)
        (simp add: word_rotr_word_rotr_eq 2 count_bits, simp add: numeral_2_eq_2 numeral_3_eq_3)
  next
    case 3
    have k: "1 < LENGTH('t)" "2 < LENGTH('t)" "4 < LENGTH('t)" "8 < LENGTH('t)" "16 < LENGTH('t)" using 3 by simp_all
    have cb: "((c AND word_of_nat (LENGTH('t) - 1)) AND word_of_nat 1 \<noteq> 0) = bit c 0" "((c AND word_of_nat (LENGTH('t) - 1)) AND word_of_nat 2 \<noteq> 0) = bit c 1" "((c AND word_of_nat (LENGTH('t) - 1)) AND word_of_nat 4 \<noteq> 0) = bit c 2" "((c AND word_of_nat (LENGTH('t) - 1)) AND word_of_nat 8 \<noteq> 0) = bit c 3" "((c AND word_of_nat (LENGTH('t) - 1)) AND word_of_nat 16 \<noteq> 0) = bit c 4"
      using b 3 by (simp_all add: and.assoc)
    show ?thesis using k
      by (simp only: VRor_lane_def Let_def d cb fold_simps if_False ror_stage zero_less_numeral zero_less_one)
        (simp add: word_rotr_word_rotr_eq 3 count_bits, simp add: numeral_2_eq_2 numeral_3_eq_3)
  qed
qed

end
