(* ===== verification/NPU_VectorClaims.thy ===== *)
theory NPU_VectorClaims
  imports NPU_EngineProps NPU_LaneProps
begin

text \<open>
  Properties of the SIMD instructions on the vector register file: what every lane of every
  destination register holds after the instruction, and that no other register changes.
\<close>

subsection \<open>Statements about all lanes\<close>

definition operands_ok :: "vregs \<Rightarrow> bool \<Rightarrow> bool \<Rightarrow> vsource \<Rightarrow> vsource \<Rightarrow> nat \<Rightarrow> bool" where
  "operands_ok s strip_mine scalar x y d \<longleftrightarrow> vregs_ok s \<and> no_hazard d (strip_num_ops strip_mine) x
     \<and> no_hazard d (strip_num_ops strip_mine) y \<and> (scalar \<longrightarrow> is_scalar y)"

text \<open>\<open>R old a b new\<close> holds of every lane: its old value, its two operands and its new value.\<close>

definition lanewise ::
    "('t::len word \<Rightarrow> 't word \<Rightarrow> 't word \<Rightarrow> 't word \<Rightarrow> bool)
     \<Rightarrow> vregs \<Rightarrow> bool \<Rightarrow> vsource \<Rightarrow> vsource \<Rightarrow> nat \<Rightarrow> vregs \<Rightarrow> bool" where
  "lanewise R s strip_mine x y d S \<longleftrightarrow> vregs_ok S
     \<and> (\<forall>q < strip_num_ops strip_mine. \<forall>e < 32 div sizeof TYPE('t). let k = q * (32 div sizeof TYPE('t)) + e in
          R (lanes (s (d + q)) ! e) (read_source s x k) (read_source s y k) (lanes (S (d + q)) ! e))
     \<and> (\<forall>q. q < d \<or> d + strip_num_ops strip_mine \<le> q \<longrightarrow> S q = s q)"

lemma same_width_claim:
  assumes "LENGTH('t::len) \<in> {8, 16, 32}" and "operands_ok s strip_mine scalar x y d"
    and S: "S = CoralNPUBinaryVectorOp False False (regfile_inst [x, y] d) scalar strip_mine op
                  CommonBinaryOpGetArg1 CommonBinaryOpGetArg2 s"
    and R: "\<forall>vd a b. R vd a b (BinaryOpInvoke op vd a b)"
  shows "lanewise (R :: 't word \<Rightarrow> 't word \<Rightarrow> 't word \<Rightarrow> 't word \<Rightarrow> bool) s strip_mine x y d S"
proof -
  have o: "vregs_ok s" "no_hazard d (strip_num_ops strip_mine) x" "no_hazard d (strip_num_ops strip_mine) y"
    "scalar \<longrightarrow> is_scalar y" using assms(2) by (simp_all add: operands_ok_def)
  note L = same_width_lanewise [OF assms(1) o(1) refl o(2,3,4) S]
  show ?thesis unfolding lanewise_def Let_def
  proof (intro conjI allI impI)
    fix q e assume "q < strip_num_ops strip_mine" "e < 32 div sizeof TYPE('t)"
    then show "R (lanes (s (d + q)) ! e) (read_source s x (q * (32 div sizeof TYPE('t)) + e))
        (read_source s y (q * (32 div sizeof TYPE('t)) + e)) (lanes (S (d + q)) ! e)"
      using R by (simp add: L(2))
  next
    fix q assume "q < d \<or> d + strip_num_ops strip_mine \<le> q"
    then show "S q = s q" by (rule L(3))
  qed (rule L(1))
qed

lemma width_facts: "LENGTH('t::len) \<in> {8, 16, 32} \<Longrightarrow> 8 dvd LENGTH('t)" "LENGTH('t::len) \<in> {8, 16, 32} \<Longrightarrow> LENGTH('t) \<le> 32"
  by auto

text \<open>One register file for the witnesses: register \<open>r\<close> holds the byte \<open>40 r\<close> in every position.\<close>

definition sample_regs :: vregs where
  "sample_regs r = replicate 32 (word_of_nat (40 * r))"

lemma sample_ok: "operands_ok sample_regs strip_mine False (VRegs 4) (VRegs 8) 12"
  by (simp add: operands_ok_def vregs_ok_def sample_regs_def strip_num_ops_def)

subsection \<open>Saturating and halving arithmetic\<close>

text \<open>Property C12. Saturating addition clamps the exact sum to the range of the lane type, signed
  (\<open>vadds\<close>) and unsigned (\<open>vaddsu\<close>), in every lane; no other register changes.\<close>

theorem VAdds_saturates:
  fixes s :: vregs
  assumes "LENGTH('t::len) \<in> {8, 16, 32}" "operands_ok s strip_mine scalar x y d"
  shows "lanewise (\<lambda>_ a b (r :: 't word). sint r = saturate True TYPE('t) (sint a + sint b)) s strip_mine x y d
      (CoralNPUVAdds scalar strip_mine (regfile_inst [x, y] d :: (vregs, 't, 't, 't) vinst) s)
    \<and> lanewise (\<lambda>_ a b (r :: 't word). uint r = saturate False TYPE('t) (uint a + uint b)) s strip_mine x y d
      (CoralNPUVAddsu scalar strip_mine (regfile_inst [x, y] d :: (vregs, 't, 't, 't) vinst) s)"
  unfolding CoralNPUVAdds_def CoralNPUVAddsu_def
  by (intro conjI; rule same_width_claim [OF assms refl]) (simp_all add: VAddsHelper_saturates VAddsuHelper_saturates)

lemma VAdds_saturates_witness:
  "lanewise (\<lambda>_ a b (r :: 8 word). sint r = saturate True TYPE(8) (sint a + sint b)) sample_regs True (VRegs 4) (VRegs 8) 12
      (CoralNPUVAdds False True (regfile_inst [VRegs 4, VRegs 8] 12 :: (vregs, 8, 8, 8) vinst) sample_regs)"
  using VAdds_saturates [where 't = 8, OF _ sample_ok [of True]] by simp

text \<open>Saturating subtraction clamps the exact difference to the range of the lane type,
  signed (\<open>vsubs\<close>) and unsigned (\<open>vsubsu\<close>), in every lane; no other register changes.\<close>

theorem VSubs_saturates:
  fixes s :: vregs
  assumes "LENGTH('t::len) \<in> {8, 16, 32}" "operands_ok s strip_mine scalar x y d"
  shows "lanewise (\<lambda>_ a b (r :: 't word). sint r = saturate True TYPE('t) (sint a - sint b)) s strip_mine x y d
      (CoralNPUVSubs scalar strip_mine (regfile_inst [x, y] d :: (vregs, 't, 't, 't) vinst) s)
    \<and> lanewise (\<lambda>_ a b (r :: 't word). uint r = saturate False TYPE('t) (uint a - uint b)) s strip_mine x y d
      (CoralNPUVSubsu scalar strip_mine (regfile_inst [x, y] d :: (vregs, 't, 't, 't) vinst) s)"
  unfolding CoralNPUVSubs_def CoralNPUVSubsu_def
  by (intro conjI; rule same_width_claim [OF assms refl]) (simp_all add: VSubsHelper_saturates VSubsu_saturates)

lemma VSubs_saturates_witness:
  "lanewise (\<lambda>_ a b (r :: 16 word). sint r = saturate True TYPE(16) (sint a - sint b)) sample_regs True (VRegs 4) (VRegs 8) 12
      (CoralNPUVSubs False True (regfile_inst [VRegs 4, VRegs 8] 12 :: (vregs, 16, 16, 16) vinst) sample_regs)"
  using VSubs_saturates [where 't = 16, OF _ sample_ok [of True]] by simp

text \<open>Halving addition and subtraction (\<open>vhadd\<close>, \<open>vhsub\<close>) compute the exact sum or
  difference plus the rounding bit, halved towards minus infinity; the half-sum always fits the
  lane, the half-difference is reduced to the lane width.\<close>

theorem VHadd_VHsub_exact:
  fixes s :: vregs
  assumes "LENGTH('t::len) \<in> {8, 16, 32}" "operands_ok s strip_mine scalar x y d"
  shows "lanewise (\<lambda>_ a b (r :: 't word). lane_int sg r = (lane_int sg a + lane_int sg b + of_bool round) div 2)
      s strip_mine x y d
      (CoralNPUVHadd sg scalar strip_mine round (regfile_inst [x, y] d :: (vregs, 't, 't, 't) vinst) s)
    \<and> lanewise (\<lambda>_ a b (r :: 't word). r = word_of_int ((lane_int sg a - lane_int sg b + of_bool round) div 2))
      s strip_mine x y d
      (CoralNPUVHsub sg scalar strip_mine round (regfile_inst [x, y] d :: (vregs, 't, 't, 't) vinst) s)"
  unfolding CoralNPUVHadd_def CoralNPUVHsub_def
  by (intro conjI; rule same_width_claim [OF assms refl]) (simp_all add: VHadd_exact VHsub_exact)

lemma VHadd_VHsub_exact_witness:
  "lanewise (\<lambda>_ a b (r :: 8 word). lane_int True r = (lane_int True a + lane_int True b + 1) div 2)
      sample_regs False (VRegs 4) (VRegs 8) 12
      (CoralNPUVHadd True False False True (regfile_inst [VRegs 4, VRegs 8] 12 :: (vregs, 8, 8, 8) vinst) sample_regs)"
  using VHadd_VHsub_exact [where 't = 8, OF _ sample_ok [of False], of True True] by simp

subsection \<open>Shifts and bit permutations\<close>



text \<open>\<open>vrev\<close> sends bit \<open>i\<close> of every lane to position \<open>i XOR c\<close> and \<open>vror\<close> rotates the lane
  right by \<open>c\<close>, where \<open>c\<close> is the count operand modulo the lane width.\<close>

theorem VRev_VRor_permute:
  fixes s :: vregs
  assumes "LENGTH('t::len) \<in> {8, 16, 32}" "operands_ok s strip_mine scalar x y d"
  shows "lanewise (\<lambda>_ a c (r :: 't word). \<forall>i < LENGTH('t). bit r i = bit a (Bit_Operations.xor i (unat c mod LENGTH('t))))
      s strip_mine x y d
      (CoralNPUVRev scalar strip_mine (regfile_inst [x, y] d :: (vregs, 't, 't, 't) vinst) s)
    \<and> lanewise (\<lambda>_ a c (r :: 't word). r = word_rotr (unat c mod LENGTH('t)) a) s strip_mine x y d
      (CoralNPUVRor scalar strip_mine (regfile_inst [x, y] d :: (vregs, 't, 't, 't) vinst) s)"
  unfolding CoralNPUVRev_def CoralNPUVRor_def
  by (intro conjI; rule same_width_claim [OF assms refl])
    (simp_all add: VRev_permutes [OF assms(1)] VRor_rotates [OF assms(1)])

lemma VRev_VRor_permute_witness:
  "lanewise (\<lambda>_ a c (r :: 16 word). r = word_rotr (unat c mod 16) a) sample_regs True (VRegs 4) (VRegs 8) 12
      (CoralNPUVRor False True (regfile_inst [VRegs 4, VRegs 8] 12 :: (vregs, 16, 16, 16) vinst) sample_regs)"
  using VRev_VRor_permute [where 't = 16, OF _ sample_ok [of True]] by simp

subsection \<open>Multiplication\<close>

text \<open>\<open>vmul\<close>, \<open>vmacc\<close> and \<open>vmadd\<close> are multiplication and multiply-accumulate modulo the
  lane width, although the code multiplies in a wider type and shifts.\<close>

theorem VMul_family_modular:
  fixes s :: vregs
  assumes "LENGTH('t::len) \<in> {8, 16, 32}" "operands_ok s strip_mine scalar x y d"
  shows "lanewise (\<lambda>_ a b (r :: 't word). r = a * b) s strip_mine x y d
      (CoralNPUVMul scalar strip_mine (regfile_inst [x, y] d :: (vregs, 't, 't, 't) vinst) s)
    \<and> lanewise (\<lambda>vd a b (r :: 't word). r = vd + a * b) s strip_mine x y d
      (CoralNPUVMacc scalar strip_mine (regfile_inst [x, y] d :: (vregs, 't, 't, 't) vinst) s)
    \<and> lanewise (\<lambda>vd a b (r :: 't word). r = a + vd * b) s strip_mine x y d
      (CoralNPUVMadd scalar strip_mine (regfile_inst [x, y] d :: (vregs, 't, 't, 't) vinst) s)"
  unfolding CoralNPUVMul_def CoralNPUVMacc_def CoralNPUVMadd_def
  by (intro conjI; rule same_width_claim [OF assms refl]) (simp_all add: VMul_modular VMacc_modular VMadd_modular)

lemma VMul_family_modular_witness:
  "lanewise (\<lambda>vd a b (r :: 32 word). r = vd + a * b) sample_regs True (VRegs 4) (VRegs 8) 12
      (CoralNPUVMacc False True (regfile_inst [VRegs 4, VRegs 8] 12 :: (vregs, 32, 32, 32) vinst) sample_regs)"
  using VMul_family_modular [where 't = 32, OF _ sample_ok [of True]] by simp

text \<open>\<open>vmuls\<close> saturates the exact product and \<open>vmulh\<close> returns its high half, rounded when
  asked, for signed and unsigned lanes.\<close>

theorem VMuls_VMulh_exact:
  fixes s :: vregs
  assumes "LENGTH('t::len) \<in> {8, 16, 32}" "operands_ok s strip_mine scalar x y d"
  shows "lanewise (\<lambda>_ a b (r :: 't word). lane_int sg r = saturate sg TYPE('t) (lane_int sg a * lane_int sg b))
      s strip_mine x y d
      (CoralNPUVMuls sg scalar strip_mine (regfile_inst [x, y] d :: (vregs, 't, 't, 't) vinst) s)
    \<and> lanewise (\<lambda>_ a b (r :: 't word). r = word_of_int
          ((lane_int sg a * lane_int sg b + (if round then 2 ^ (LENGTH('t) - 1) else 0)) div 2 ^ LENGTH('t)))
      s strip_mine x y d
      (CoralNPUVMulh sg scalar strip_mine round (regfile_inst [x, y] d :: (vregs, 't, 't, 't) vinst) s)"
  unfolding CoralNPUVMuls_def CoralNPUVMulh_def
  by (intro conjI; rule same_width_claim [OF assms refl])
    (simp_all add: VMuls_saturates VMulh_high_half [OF width_facts(1) [OF assms(1)]])

lemma VMuls_VMulh_exact_witness:
  "lanewise (\<lambda>_ a b (r :: 8 word). lane_int True r = saturate True TYPE(8) (lane_int True a * lane_int True b))
      sample_regs False (VRegs 4) (VRegs 8) 12
      (CoralNPUVMuls True False False (regfile_inst [VRegs 4, VRegs 8] 12 :: (vregs, 8, 8, 8) vinst) sample_regs)"
  using VMuls_VMulh_exact [where 't = 8, OF _ sample_ok [of False], of True] by simp

text \<open>\<open>vdmulh\<close> is the doubled product's high half, saturated: the only saturating case is
  the square of the most negative value, and rounding may be symmetric about zero.\<close>

theorem VDmulh_doubles:
  fixes s :: vregs
  assumes "LENGTH('t::len) \<in> {8, 16, 32}" "operands_ok s strip_mine scalar x y d"
  shows "lanewise (\<lambda>_ a b (r :: 't word). sint r = saturate True TYPE('t)
        ((sint a * sint b + dmulh_rounding round round_neg LENGTH('t) (sint a * sint b)) div 2 ^ (LENGTH('t) - 1)))
      s strip_mine x y d
      (CoralNPUVDmulh scalar strip_mine round round_neg (regfile_inst [x, y] d :: (vregs, 't, 't, 't) vinst) s)"
  unfolding CoralNPUVDmulh_def
  by (rule same_width_claim [OF assms refl])
    (simp add: VDmulh_saturates [OF width_facts [OF assms(1)]])

lemma VDmulh_doubles_witness:
  "lanewise (\<lambda>_ a b (r :: 16 word). sint r = saturate True TYPE(16)
        ((sint a * sint b + dmulh_rounding True False 16 (sint a * sint b)) div 2 ^ 15))
      sample_regs True (VRegs 4) (VRegs 8) 12
      (CoralNPUVDmulh False True True False (regfile_inst [VRegs 4, VRegs 8] 12 :: (vregs, 16, 16, 16) vinst) sample_regs)"
  using VDmulh_doubles [where 't = 16, OF _ sample_ok [of True], of True False] by simp

end
