(* ===== verification/NPU_LayoutClaims.thy ===== *)
theory NPU_LayoutClaims
  imports NPU_VectorClaims
begin

text \<open>
  Properties of the SIMD instructions that change the layout of lanes: widening results across two
  register groups, narrowing shifts that read interleaved groups, slides and interleaving.
\<close>

subsection \<open>Widening\<close>

lemma fits_widened:
  fixes a b :: "'s::len word"
  assumes "LENGTH('d) = 2 * LENGTH('s)"
  shows "fits sg LENGTH('d::len) (lane_int sg a + lane_int sg b)" "fits True LENGTH('d) (sint a - sint b)"
    and "fits sg LENGTH('d) (lane_int sg a * lane_int sg b)"
proof -
  let ?n = "LENGTH('s)"
  have n: "(2::int) ^ ?n = 2 * 2 ^ (?n - 1)" "(2::int) ^ (2 * ?n) = 2 * 2 ^ (2 * ?n - 1)" "(2::int) ^ ?n \<le> 2 ^ (2 * ?n - 1)"
    by (simp_all flip: power_Suc add: power_increasing)
  note f = fits_lane [of sg a] fits_lane [of sg b] fits_sint [of a] fits_sint [of b]
  have h: "(0::int) < 2 ^ (?n - 1)" by simp
  show "fits sg LENGTH('d) (lane_int sg a + lane_int sg b)"
    using f(1,2) n h unfolding fits_def assms by (cases sg; simp only: if_True if_False; linarith)
  show "fits True LENGTH('d) (sint a - sint b)"
    using f(3,4) n h unfolding fits_def assms by (simp only: if_True; linarith)
  show "fits sg LENGTH('d) (lane_int sg a * lane_int sg b)"
    unfolding assms by (rule fits_mult [OF f(1,2)]) simp
qed

text \<open>Every element \<open>k\<close> of the sources produces one wide lane: element \<open>2 e + i\<close> of source register \<open>q\<close>
  goes to lane \<open>e\<close> of destination register \<open>q + i n\<close>.\<close>

definition wide_operands_ok :: "vregs \<Rightarrow> bool \<Rightarrow> bool \<Rightarrow> vsource \<Rightarrow> vsource \<Rightarrow> nat \<Rightarrow> bool" where
  "wide_operands_ok s strip_mine scalar x y d \<longleftrightarrow> vregs_ok s \<and> no_hazard_wide d (strip_num_ops strip_mine) x
     \<and> no_hazard_wide d (strip_num_ops strip_mine) y \<and> (scalar \<longrightarrow> is_scalar y)"

definition widening ::
    "('s::len word \<Rightarrow> 's word \<Rightarrow> 'd::len word \<Rightarrow> bool)
     \<Rightarrow> vregs \<Rightarrow> bool \<Rightarrow> vsource \<Rightarrow> vsource \<Rightarrow> nat \<Rightarrow> vregs \<Rightarrow> bool" where
  "widening R s strip_mine x y d S \<longleftrightarrow> vregs_ok S
     \<and> (\<forall>q < strip_num_ops strip_mine. \<forall>i < 2. \<forall>e < 32 div sizeof TYPE('d).
          let k = q * (32 div sizeof TYPE('s)) + (2 * e + i) in
          R (read_source s x k) (read_source s y k) (lanes (S (d + (q + i * strip_num_ops strip_mine))) ! e))
     \<and> (\<forall>q. q < d \<or> d + 2 * strip_num_ops strip_mine \<le> q \<longrightarrow> S q = s q)"

lemma widening_claim:
  assumes "LENGTH('s::len) \<in> {8, 16}" "LENGTH('d::len) = 2 * LENGTH('s)" and "wide_operands_ok s strip_mine scalar x y d"
    and S: "S = CoralNPUBinaryVectorOp False False (regfile_inst [x, y] d) scalar strip_mine (Op2 f)
                  CommonBinaryOpGetArg1 CommonBinaryOpGetArg2 s"
    and R: "\<forall>a b. R a b (f a b)"
  shows "widening (R :: 's word \<Rightarrow> 's word \<Rightarrow> 'd word \<Rightarrow> bool) s strip_mine x y d S"
proof -
  have o: "vregs_ok s" "no_hazard_wide d (strip_num_ops strip_mine) x" "no_hazard_wide d (strip_num_ops strip_mine) y"
    "scalar \<longrightarrow> is_scalar y" using assms(3) by (simp_all add: wide_operands_ok_def)
  note L = widening_lanewise [OF assms(1,2) o(1) refl o(2,3,4) S]
  show ?thesis unfolding widening_def Let_def
  proof (intro conjI allI impI)
    fix q i e assume q: "q < strip_num_ops strip_mine" "i < (2::nat)" "e < 32 div sizeof TYPE('d)"
    show "R (read_source s x (q * (32 div sizeof TYPE('s)) + (2 * e + i)))
        (read_source s y (q * (32 div sizeof TYPE('s)) + (2 * e + i)))
        (lanes (S (d + (q + i * strip_num_ops strip_mine))) ! e)"
      using R q(3) by (simp add: L(2) [OF q(1,2)])
  next
    fix q assume "q < d \<or> d + 2 * strip_num_ops strip_mine \<le> q"
    then show "S q = s q" by (rule L(3))
  qed (rule L(1))
qed

lemma sample_wide_ok: "wide_operands_ok sample_regs strip_mine False (VRegs 4) (VRegs 8) 12"
  by (simp add: wide_operands_ok_def vregs_ok_def sample_regs_def strip_num_ops_def)

text \<open>Property C36. The widening instructions \<open>vaddw\<close>, \<open>vsubw\<close> and \<open>vmulw\<close> produce the exact sum,
  difference and product of the narrow operands (the unsigned difference modulo the wide width),
  with even source elements in the first destination group and odd ones in the second.\<close>

theorem widening_exact:
  fixes s :: vregs
  assumes "LENGTH('s::len) \<in> {8, 16}" "LENGTH('d::len) = 2 * LENGTH('s)" "wide_operands_ok s strip_mine scalar x y d"
  shows "widening (\<lambda>a b (r :: 'd word). lane_int sg r = lane_int sg (a :: 's word) + lane_int sg b) s strip_mine x y d
      (CoralNPUVAddw sg scalar strip_mine (regfile_inst [x, y] d :: (vregs, 'd, 's, 's) vinst) s)
    \<and> widening (\<lambda>a b (r :: 'd word). r = word_of_int (lane_int sg (a :: 's word) - lane_int sg b)
          \<and> (sg \<longrightarrow> sint r = sint a - sint b)) s strip_mine x y d
      (CoralNPUVSubw sg scalar strip_mine (regfile_inst [x, y] d :: (vregs, 'd, 's, 's) vinst) s)
    \<and> widening (\<lambda>a b (r :: 'd word). lane_int sg r = lane_int sg (a :: 's word) * lane_int sg b) s strip_mine x y d
      (CoralNPUVMulw sg scalar strip_mine (regfile_inst [x, y] d :: (vregs, 'd, 's, 's) vinst) s)"
proof -
  note f = fits_widened [OF assms(2)]
  have a: "lane_int sg (VAddw_lane sg (a :: 's word) b :: 'd word) = lane_int sg a + lane_int sg b" for a b
    using fits_wrap [OF _ f(1), of sg a b] by (simp add: VAddw_lane_def static_cast_def lane_int_of_int flip: of_int_add)
  have m: "lane_int sg (VMulw_lane sg (a :: 's word) b :: 'd word) = lane_int sg a * lane_int sg b" for a b
    using fits_wrap [OF _ f(3), of sg a b] by (simp add: VMulw_lane_def static_cast_def lane_int_of_int flip: of_int_mult)
  have d: "(VSubw_lane sg (a :: 's word) b :: 'd word) = word_of_int (lane_int sg a - lane_int sg b)" for sg a b
    by (simp add: VSubw_lane_def static_cast_def)
  have d': "sint (word_of_int (sint a - sint b) :: 'd word) = sint a - sint b" for a b :: "'s word"
    using fits_wrap [OF _ f(2), of a b] lane_int_of_int [of True "sint a - sint b", where 't = 'd]
    by (simp add: lane_int_def)
  show ?thesis
    unfolding CoralNPUVAddw_def CoralNPUVSubw_def CoralNPUVMulw_def
    by (intro conjI; rule widening_claim [OF assms refl]) (simp_all add: a m d d' [simplified] lane_int_def [of True])
qed

lemma widening_exact_witness:
  "widening (\<lambda>a b (r :: 16 word). lane_int True r = lane_int True (a :: 8 word) * lane_int True b)
      sample_regs True (VRegs 4) (VRegs 8) 12
      (CoralNPUVMulw True False True (regfile_inst [VRegs 4, VRegs 8] 12 :: (vregs, 16, 8, 8) vinst) sample_regs)"
  using widening_exact [where 's = 8 and 'd = 16, OF _ _ sample_wide_ok [of True], of True] by simp

subsection \<open>Narrowing shifts\<close>

text \<open>\<open>getters\<close> that never look at the destination group read the same operands throughout.\<close>

lemma stable_if_unread:
  fixes get1 :: "(vregs, 'd::len, 'a::len, 'b::len, 'a) getter" and get2 :: "(vregs, 'd, 'a, 'b, 'b) getter"
  assumes "\<And>o' e i s'. o' < n \<Longrightarrow> e < 32 div sizeof TYPE('d) \<Longrightarrow> i < regs
      \<Longrightarrow> (\<forall>q. q < d \<or> d + n * regs \<le> q \<longrightarrow> s' q = s q)
      \<Longrightarrow> get1 inst s' scalar n o' e i = get1 inst s scalar n o' e i
        \<and> get2 inst s' scalar n o' e i = get2 inst s scalar n o' e i"
  shows "operands_stable inst get1 get2 scalar n regs d s"
  unfolding operands_stable_def
proof (intro allI impI)
  fix o' e i s' assume a: "o' < n" "e < 32 div sizeof TYPE('d)" "i < regs"
    and b: "\<forall>q. \<not> (d \<le> q \<and> q < d + n * regs \<and> (q - d) mod n < o') \<longrightarrow> s' q = s q"
  have "\<forall>q. q < d \<or> d + n * regs \<le> q \<longrightarrow> s' q = s q" using b by auto
  then show "get1 inst s' scalar n o' e i = get1 inst s scalar n o' e i
        \<and> get2 inst s' scalar n o' e i = get2 inst s scalar n o' e i"
    by (rule assms [OF a])
qed

fun unread :: "nat \<Rightarrow> nat \<Rightarrow> nat \<Rightarrow> vsource \<Rightarrow> bool" where
  "unread d n m (VRegs b) \<longleftrightarrow> b + m \<le> d \<or> d + n \<le> b"
| "unread d n m (XReg x) \<longleftrightarrow> True"

lemma read_unread:
  assumes "unread d n m x" "k < m * (32 div sizeof TYPE('a))" "\<forall>q. q < d \<or> d + n \<le> q \<longrightarrow> s' q = s q"
  shows "read_source s' x k = (read_source s x k :: 'a::len word)"
proof (cases x)
  case (VRegs b)
  have "k div (32 div sizeof TYPE('a)) < m" using assms(2) by (simp add: less_mult_imp_div_less)
  then have "s' (b + k div (32 div sizeof TYPE('a))) = s (b + k div (32 div sizeof TYPE('a)))"
    using assms(1) VRegs by (intro assms(3) [rule_format]) auto
  then show ?thesis using VRegs by simp
qed simp

lemma element_bound: "q < n \<Longrightarrow> e < m \<Longrightarrow> q * m + e < n * (m :: nat)"
proof -
  assume "q < n" "e < m"
  then have "q * m + e < Suc q * m" by simp
  also have "\<dots> \<le> n * m" using \<open>q < n\<close> by (intro mult_le_mono1) simp
  finally show ?thesis .
qed

text \<open>Which element of the wide source group feeds lane \<open>e\<close> of destination register \<open>q\<close>: with a
  narrowing factor of two even lanes come from the first \<open>n\<close> registers and odd lanes from the next
  \<open>n\<close>, with a factor of four the four register groups feed the lanes in the order 0, 2, 1, 3.\<close>

definition srans_index :: "nat \<Rightarrow> nat \<Rightarrow> nat \<Rightarrow> nat \<Rightarrow> nat \<Rightarrow> nat" where
  "srans_index factor elts n q e =
     ((if factor = 2 then (if odd e then 1 else 0) else [0, 2, 1, 3] ! (e mod 4)) * n + q) * elts + e div factor"

lemma srans_index_bound:
  assumes "factor \<in> {2, 4}" "q < n" "e div factor < elts"
  shows "srans_index factor elts n q e < factor * n * elts"
proof -
  have "[0, 2, 1, 3] ! (e mod 4) < (4 :: nat)"
  proof -
    have "e mod 4 = 0 \<or> e mod 4 = 1 \<or> e mod 4 = 2 \<or> e mod 4 = 3" by linarith
    then show ?thesis by (elim disjE) simp_all
  qed
  then have g: "(if factor = 2 then (if odd e then 1 else 0) else [0, 2, 1, 3] ! (e mod 4)) < factor"
    using assms(1) by auto
  then have "(if factor = 2 then (if odd e then 1 else 0) else [0, 2, 1, 3] ! (e mod 4)) * n + q < factor * n"
    by (rule element_bound [OF _ assms(2)])
  then show ?thesis unfolding srans_index_def by (rule element_bound [OF _ assms(3)])
qed

definition narrow_operands_ok :: "vregs \<Rightarrow> nat \<Rightarrow> bool \<Rightarrow> bool \<Rightarrow> vsource \<Rightarrow> vsource \<Rightarrow> nat \<Rightarrow> bool" where
  "narrow_operands_ok s factor strip_mine scalar x y d \<longleftrightarrow> vregs_ok s
     \<and> unread d (strip_num_ops strip_mine) (factor * strip_num_ops strip_mine) x
     \<and> unread d (strip_num_ops strip_mine) (strip_num_ops strip_mine) y \<and> (scalar \<longrightarrow> is_scalar y)"

lemma srans_operands:
  assumes w: "LENGTH('d::len) \<in> {8, 16}" "LENGTH('s::len) = factor * LENGTH('d)" "factor \<in> {2, 4}" "LENGTH('s) \<le> 32"
    and o: "narrow_operands_ok s0 factor strip_mine scalar x y d" and n: "n = strip_num_ops strip_mine"
    and I: "I = (regfile_inst [x, y] d :: (vregs, 'd, 's, 'd) vinst)"
  shows "VSransOpGetArg1 I s scalar n q e i = read_source s x (srans_index factor (32 div sizeof TYPE('s)) n q e)"
    and "CommonBinaryOpGetArg2 I s scalar n q e i = read_source s y (q * (32 div sizeof TYPE('d)) + e + i)"
    and "operands_stable I VSransOpGetArg1 CommonBinaryOpGetArg2 scalar n 1 d s0"
proof -
  let ?D = "32 div sizeof TYPE('d)" and ?E = "32 div sizeof TYPE('s)"
  have sz: "0 < sizeof TYPE('d)" "sizeof TYPE('s) = factor * sizeof TYPE('d)" "?D = factor * ?E" and f0: "0 < factor"
    using w by (auto simp: sizeof_def)
  have dv: "sizeof TYPE('s) div sizeof TYPE('d) = factor" using sz by simp
  have ed: "e * sizeof TYPE('d) div sizeof TYPE('s) = e div factor" for e using sz(1,2) by simp
  have g1: "VSransOpGetArg1 I s scalar n q e i = read_source s x (srans_index factor ?E n q e)" for s q e i
    using w(3) by (auto simp: I VSransOpGetArg1_def regfile_inst_def Let_def dv ed srans_index_def algebra_simps)
  have g2: "CommonBinaryOpGetArg2 I s scalar n q e i = read_source s y (q * ?D + e + i)" for s q e i
    using sz(1) o by (cases y) (simp_all add: I CommonBinaryOpGetArg2_def regfile_inst_def Let_def narrow_operands_ok_def)
  show "VSransOpGetArg1 I s scalar n q e i = read_source s x (srans_index factor ?E n q e)"
    "CommonBinaryOpGetArg2 I s scalar n q e i = read_source s y (q * ?D + e + i)" by (rule g1 g2)+
  show "operands_stable I VSransOpGetArg1 CommonBinaryOpGetArg2 scalar n 1 d s0"
  proof (rule stable_if_unread)
    fix q e i s' assume a: "q < n" "e < ?D" "i < (1::nat)" and b: "\<forall>q. q < d \<or> d + n * 1 \<le> q \<longrightarrow> s' q = s0 q"
    have "e div factor < ?E" using a(2) f0 by (simp add: sz(3) less_mult_imp_div_less mult.commute)
    then show "VSransOpGetArg1 I s' scalar n q e i = VSransOpGetArg1 I s0 scalar n q e i
      \<and> CommonBinaryOpGetArg2 I s' scalar n q e i = CommonBinaryOpGetArg2 I s0 scalar n q e i"
      using o b a(3) read_unread [of d n "factor * n" x _ s' s0, OF _ srans_index_bound [OF w(3) a(1)], where 'a = 's]
        read_unread [of d n n y _ s' s0, OF _ element_bound [OF a(1,2)]]
      unfolding g1 g2 by (simp add: narrow_operands_ok_def flip: n)
  qed
qed

text \<open>Property C35. The narrowing shifts \<open>vsrans\<close> and \<open>vsraqs\<close> shift each wide element right by the
  amount in its own narrow lane, round when asked and saturate to the narrow type; the wide
  elements arrive in the interleaved order of the register groups.\<close>

theorem VSrans_narrows:
  fixes s :: vregs
  assumes w: "LENGTH('d::len) \<in> {8, 16}" "LENGTH('s::len) = factor * LENGTH('d)" "factor \<in> {2, 4}" "LENGTH('s) \<le> 32"
    and o: "narrow_operands_ok s factor strip_mine scalar x y d" and n: "n = strip_num_ops strip_mine"
    and S: "S = CoralNPUVSrans sg round scalar strip_mine (regfile_inst [x, y] d :: (vregs, 'd, 's, 'd) vinst) s"
  shows "vregs_ok S \<and> (\<forall>q. q < d \<or> d + n \<le> q \<longrightarrow> S q = s q)
    \<and> (\<forall>q < n. \<forall>e < 32 div sizeof TYPE('d).
        lane_int sg (lanes (S (d + q)) ! e :: 'd word) = saturate sg TYPE('d) (shift_exact round
          (lane_int sg (read_source s x (srans_index factor (32 div sizeof TYPE('s)) n q e) :: 's word))
          (int (unat ((read_source s y (q * (32 div sizeof TYPE('d)) + e) :: 'd word) AND word_of_nat (LENGTH('s) - 1))))))"
proof -
  let ?D = "32 div sizeof TYPE('d)" and ?E = "32 div sizeof TYPE('s)"
  have wd: "LENGTH('d) \<in> {8, 16, 32}" "8 dvd LENGTH('s)" using w by auto
  have regs: "1 = dest_regs_per_op False False TYPE('d) TYPE('d)" by (simp add: dest_regs_per_op_def)
  note g = srans_operands(1,2) [OF w o n refl] and fr = srans_operands(3) [OF w o n refl]
  have ok: "vregs_ok s" using o by (simp add: narrow_operands_ok_def)
  note L = regfile_lanewise [OF wd(1) ok n regs fr S [unfolded CoralNPUVSrans_def]]
  show ?thesis
  proof (intro conjI allI impI)
    fix q e assume q: "q < n" "e < ?D"
    have i: "q < n * 1" "q mod n = q" "q div n = 0" using q(1) by simp_all
    have "lanes (S (d + q)) ! e = CoralNPUVSransHelper sg round (read_source s x (srans_index factor ?E n q e) :: 's word)
        (read_source s y (q * ?D + e) :: 'd word)"
      using L(2) [OF i(1)] q(2) by (simp add: i g)
    then show "lane_int sg (lanes (S (d + q)) ! e :: 'd word) = saturate sg TYPE('d) (shift_exact round
          (lane_int sg (read_source s x (srans_index factor ?E n q e) :: 's word))
          (int (unat ((read_source s y (q * ?D + e) :: 'd word) AND word_of_nat (LENGTH('s) - 1)))))"
      by (simp only: VSrans_saturates [OF wd(2)])
  next
    fix q assume "q < d \<or> d + n \<le> q"
    then show "S q = s q" using L(3) [of q] by simp
  qed (rule L(1))
qed

lemma VSrans_narrows_witness:
  "lane_int True (lanes (CoralNPUVSrans True True False True
        (regfile_inst [VRegs 4, VRegs 12] 0 :: (vregs, 8, 16, 8) vinst) sample_regs 0) ! 3 :: 8 word)
     = saturate True TYPE(8) (shift_exact True (sint (0x4040 :: 16 word)) 0)"
proof -
  have o: "narrow_operands_ok sample_regs 2 True False (VRegs 4) (VRegs 12) 0"
    by (simp add: narrow_operands_ok_def vregs_ok_def sample_regs_def strip_num_ops_def)
  have "lane_int True (lanes (CoralNPUVSrans True True False True
        (regfile_inst [VRegs 4, VRegs 12] 0 :: (vregs, 8, 16, 8) vinst) sample_regs (0 + 0)) ! 3 :: 8 word)
    = saturate True TYPE(8) (shift_exact True
        (lane_int True (read_source sample_regs (VRegs 4) (srans_index 2 (32 div sizeof TYPE(16)) 4 0 3) :: 16 word))
        (int (unat ((read_source sample_regs (VRegs 12) (0 * (32 div sizeof TYPE(8)) + 3) :: 8 word) AND word_of_nat (LENGTH(16) - 1)))))"
    using VSrans_narrows [where 'd = 8 and 's = 16, OF _ _ _ _ o refl refl, of True True]
    by (simp add: strip_num_ops_def sizeof_def)
  moreover have "(read_source sample_regs (VRegs 4) (srans_index 2 (32 div sizeof TYPE(16)) 4 0 3) :: 16 word) = 0x4040"
    by code_simp
  moreover have "unat ((read_source sample_regs (VRegs 12) (0 * (32 div sizeof TYPE(8)) + 3) :: 8 word) AND word_of_nat (LENGTH(16) - 1)) = 0"
    by code_simp
  ultimately show ?thesis by (simp only: add_0 lane_int_def if_True) simp
qed

subsection \<open>Slides\<close>

text \<open>Element \<open>k\<close> of two register groups of \<open>n\<close> registers placed one after the other.\<close>

definition joined :: "vregs \<Rightarrow> nat \<Rightarrow> nat \<Rightarrow> nat \<Rightarrow> nat \<Rightarrow> 't::len word" where
  "joined s n a b k = (if k < n * (32 div sizeof TYPE('t)) then read_source s (VRegs a) k
     else read_source s (VRegs b) (k - n * (32 div sizeof TYPE('t))))"

lemma joined_unread:
  assumes "unread d m n (VRegs a)" "unread d m n (VRegs b)" "k < 2 * (n * (32 div sizeof TYPE('t)))"
    and "\<forall>q. q < d \<or> d + m \<le> q \<longrightarrow> s' q = s q"
  shows "joined s' n a b k = (joined s n a b k :: 't::len word)"
  using read_unread [OF assms(1) _ assms(4), of k, where 'a = 't]
    read_unread [OF assms(2) _ assms(4), of "k - n * (32 div sizeof TYPE('t))", where 'a = 't] assms(3)
  by (simp add: joined_def)

text \<open>An instruction that copies, for each destination lane, one element of its two sources.\<close>

lemma copy_lanewise:
  fixes get :: "(vregs, 't::len, 't, 't, 't) getter" and idx :: "nat \<Rightarrow> nat \<Rightarrow> nat"
  assumes w: "LENGTH('t) \<in> {8, 16, 32}" and ok: "vregs_ok s" and n: "n = strip_num_ops strip_mine"
    and u: "unread d n n (VRegs a)" "unread d n n (VRegs b)" "\<forall>q < n. m \<le> n \<and> base q + m \<le> n"
    and g: "\<forall>s q e. q < n \<longrightarrow> e < 32 div sizeof TYPE('t) \<longrightarrow> get (regfile_inst [VRegs a, VRegs b] d) s False n q e 0
        = joined s m (a + base q) (b + base q) (idx q e)"
    and idx: "\<forall>q e. q < n \<longrightarrow> e < 32 div sizeof TYPE('t) \<longrightarrow> idx q e < 2 * (m * (32 div sizeof TYPE('t)))"
    and S: "S = CoralNPUBinaryVectorOp False False (regfile_inst [VRegs a, VRegs b] d) False strip_mine
        (Op2 first_arg_lane) get CommonBinaryOpGetArg2 s"
  shows "vregs_ok S \<and> (\<forall>q. q < d \<or> d + n \<le> q \<longrightarrow> S q = s q)
    \<and> (\<forall>q < n. \<forall>e < 32 div sizeof TYPE('t). lanes (S (d + q)) ! e = (joined s m (a + base q) (b + base q) (idx q e) :: 't word))"
proof -
  let ?I = "regfile_inst [VRegs a, VRegs b] d :: (vregs, 't, 't, 't) vinst"
  have w0: "0 < sizeof TYPE('t)" using w by (auto simp: sizeof_def)
  have regs: "1 = dest_regs_per_op False False TYPE('t) TYPE('t)" by (simp add: dest_regs_per_op_def)
  have g2: "CommonBinaryOpGetArg2 ?I s False n q e i = read_source s (VRegs b) (q * (32 div sizeof TYPE('t)) + e + i)" for s q e i
    using w0 by (simp add: CommonBinaryOpGetArg2_def regfile_inst_def Let_def)
  have fr: "operands_stable ?I get CommonBinaryOpGetArg2 False n 1 d s"
  proof (rule stable_if_unread)
    fix q e i s' assume q: "q < n" "e < 32 div sizeof TYPE('t)" "i < (1::nat)" and b: "\<forall>q. q < d \<or> d + n * 1 \<le> q \<longrightarrow> s' q = s q"
    have ub: "unread d n m (VRegs (a + base q))" "unread d n m (VRegs (b + base q))" using u q(1) by auto
    have b': "\<forall>q. q < d \<or> d + n \<le> q \<longrightarrow> s' q = s q" using b by simp
    have "idx q e < 2 * (m * (32 div sizeof TYPE('t)))" using idx q(1,2) by blast
    from joined_unread [OF ub this b'] read_unread [OF u(2) element_bound [OF q(1,2)] b']
    show "get ?I s' False n q e i = get ?I s False n q e i
      \<and> CommonBinaryOpGetArg2 ?I s' False n q e i = CommonBinaryOpGetArg2 ?I s False n q e i"
      using g q unfolding g2 by simp
  qed
  note L = regfile_lanewise [OF w ok n regs fr S]
  show ?thesis
  proof (intro conjI allI impI)
    fix q e assume q: "q < n" "e < 32 div sizeof TYPE('t)"
    have i: "q < n * 1" "q mod n = q" "q div n = 0" using q(1) by simp_all
    show "lanes (S (d + q)) ! e = (joined s m (a + base q) (b + base q) (idx q e) :: 't word)"
      using L(2) [OF i(1)] q g by (simp add: i first_arg_lane_def)
  next
    fix q assume "q < d \<or> d + n \<le> q"
    then show "S q = s q" using L(3) [of q] by simp
  qed (rule L(1))
qed

lemma read_shift:
  assumes "0 < sizeof TYPE('t)" "sizeof TYPE('t::len) \<le> 32"
  shows "read_source s (VRegs (a + q)) k = (read_source s (VRegs a) (q * (32 div sizeof TYPE('t)) + k) :: 't word)"
proof -
  have "32 div sizeof TYPE('t) \<noteq> 0" using assms by (simp add: div_eq_0_iff)
  then show ?thesis by (simp add: add.assoc)
qed

lemma size_t_small: "0 \<le> v \<Longrightarrow> v < 2 ^ 64 \<Longrightarrow> size_t v = nat v"
  by (simp add: size_t_def)

lemma size_t_nat: "k < 1024 \<Longrightarrow> size_t (int k) = k"
  by (simp add: size_t_def)

lemma lanes_per_register:
  assumes "LENGTH('t::len) \<in> {8, 16, 32}"
  shows "0 < sizeof TYPE('t)" "sizeof TYPE('t) \<le> 32" "8 \<le> 32 div sizeof TYPE('t)" "32 div sizeof TYPE('t) \<le> 32"
  using assms by (auto simp: sizeof_def)

lemma op_cases: "q < strip_num_ops strip_mine \<Longrightarrow> q = 0 \<or> strip_mine \<and> (q = 1 \<or> q = 2 \<or> q = 3)"
  by (auto simp: strip_num_ops_def split: if_splits)

lemma size_t_eq: "v = int k \<Longrightarrow> k < 1024 \<Longrightarrow> size_t v = k"
  by (simp add: size_t_nat)

lemma slide_offsets:
  fixes E :: nat
  assumes "E \<le> 32" "i \<le> 4" "e < E" "q < 4"
  shows "size_t (int e + int i) = e + i"
    and "size_t (int (q * E + e) + int i) = q * E + (e + i)"
    and "E \<le> e + i \<Longrightarrow> size_t (int (q * E + e) + int i - int E) = q * E + (e + i - E)"
    and "E \<le> e + i \<Longrightarrow> size_t (int (Suc q * E + e) + int i - int E) = q * E + (e + i)"
    and "i \<le> e \<Longrightarrow> size_t (int (q * E + e) - int i) = q * E + (e - i)"
    and "4 \<le> E \<Longrightarrow> size_t (int (q * E + e) - int i + int E) = q * E + (E + e - i)"
proof -
  have "q * E \<le> 3 * 32" using assms by (intro mult_mono) auto
  then have b: "q * E + (e + i) < 1024" "q * E + (E + e - i) < 1024" using assms by linarith+
  then have c: "q * E + (e + i - E) < 1024" "q * E + (e - i) < 1024" by linarith+
  show "size_t (int e + int i) = e + i" "size_t (int (q * E + e) + int i) = q * E + (e + i)"
    "E \<le> e + i \<Longrightarrow> size_t (int (q * E + e) + int i - int E) = q * E + (e + i - E)"
    "E \<le> e + i \<Longrightarrow> size_t (int (Suc q * E + e) + int i - int E) = q * E + (e + i)"
    "i \<le> e \<Longrightarrow> size_t (int (q * E + e) - int i) = q * E + (e - i)"
    "4 \<le> E \<Longrightarrow> size_t (int (q * E + e) - int i + int E) = q * E + (E + e - i)"
    using b c assms by (intro size_t_eq; simp add: of_nat_diff)+
qed

lemma interleave_entries:
  assumes "q < 4"
  shows "interleave [(0, 0), (1, 0), (2, 0), (3, 0)] [(0, 0), (1, 0), (2, 0), (3, 0)] h q = (q, 0)"
    and "interleave [(0, 1), (1, 1), (2, 1), (3, 1)] [(1, 0), (2, 0), (3, 0), (0, 1)] h q
      = (if h then if q < 3 then (Suc q, 0) else (0, 1) else (q, 1))"
    and "interleave [(0, 0), (1, 0), (2, 0), (3, 0)] [(3, 0), (0, 1), (1, 1), (2, 1)] h q
      = (if h then if q = 0 then (3, 0) else (q - 1, 1) else (q, 0))"
    and "interleave [(0, 1), (1, 1), (2, 1), (3, 1)] [(0, 1), (1, 1), (2, 1), (3, 1)] h q = (q, 1)"
proof -
  have "q = 0 \<or> q = 1 \<or> q = 2 \<or> q = 3" using assms by auto
  then show "interleave [(0, 0), (1, 0), (2, 0), (3, 0)] [(0, 0), (1, 0), (2, 0), (3, 0)] h q = (q, 0)"
    "interleave [(0, 1), (1, 1), (2, 1), (3, 1)] [(1, 0), (2, 0), (3, 0), (0, 1)] h q
      = (if h then if q < 3 then (Suc q, 0) else (0, 1) else (q, 1))"
    "interleave [(0, 0), (1, 0), (2, 0), (3, 0)] [(3, 0), (0, 1), (1, 1), (2, 1)] h q
      = (if h then if q = 0 then (3, 0) else (q - 1, 1) else (q, 0))"
    "interleave [(0, 1), (1, 1), (2, 1), (3, 1)] [(0, 1), (1, 1), (2, 1), (3, 1)] h q = (q, 1)"
    by (elim disjE; simp add: interleave_def)+
qed

text \<open>The four slides in terms of one function \<open>f\<close> reading the first source and one reading the second.\<close>

lemma slide_selection:
  fixes E :: nat and f g :: "nat \<Rightarrow> 'x"
  assumes "E \<le> 32" "i \<le> 4" "e < E" "q < 4" "4 \<le> E"
  shows "(if size_t (int e + int i) < E then f (size_t (int (q * E + e) + int i))
        else g (size_t (int (q * E + e) + int i - int E)))
      = (if e + i < 1 * E then f (q * E + (e + i)) else g (q * E + (e + i - 1 * E)))"
    and "(if size_t (int e + int i) < E then f (size_t (int (q * E + e) + int i))
        else if q < 3 then f (size_t (int (Suc q * E + e) + int i - int E))
        else g (size_t (int (0 * E + e) + int i - int E)))
      = (if q * E + e + i < 4 * E then f (q * E + e + i) else g (q * E + e + i - 4 * E))"
    and "(if int e < int i then f (size_t (int (q * E + e) - int i + int E))
        else g (size_t (int (q * E + e) - int i)))
      = (if E + e - i < 1 * E then f (q * E + (E + e - i)) else g (q * E + (E + e - i - 1 * E)))"
    and "(if int e < int i then (if q = 0 then f (size_t (int (3 * E + e) - int i + int E))
          else g (size_t (int ((q - 1) * E + e) - int i + int E)))
        else g (size_t (int (q * E + e) - int i)))
      = (if 4 * E + q * E + e - i < 4 * E then f (4 * E + q * E + e - i) else g (4 * E + q * E + e - i - 4 * E))"
proof -
  note o = slide_offsets [OF assms(1-4)]
  show "(if size_t (int e + int i) < E then f (size_t (int (q * E + e) + int i))
        else g (size_t (int (q * E + e) + int i - int E)))
      = (if e + i < 1 * E then f (q * E + (e + i)) else g (q * E + (e + i - 1 * E)))"
    unfolding o(1,2) using o(3) by (simp add: not_less)
  have z: "E \<le> e + i \<Longrightarrow> size_t (int (0 * E + e) + int i - int E) = e + i - E"
    using slide_offsets(3) [OF assms(1-3), of 0] by simp
  show "(if size_t (int e + int i) < E then f (size_t (int (q * E + e) + int i))
        else if q < 3 then f (size_t (int (Suc q * E + e) + int i - int E))
        else g (size_t (int (0 * E + e) + int i - int E)))
      = (if q * E + e + i < 4 * E then f (q * E + e + i) else g (q * E + e + i - 4 * E))"
  proof (cases "e + i < E")
    case True
    then have "q * E + (e + i) < Suc q * E" by simp
    also have "\<dots> \<le> 4 * E" using assms(4) by (intro mult_le_mono1) simp
    finally show ?thesis using True by (simp only: o(1,2) if_True add.assoc)
  next
    case False
    then have c: "E \<le> e + i" by simp
    show ?thesis
    proof (cases "q < 3")
      case True
      then have "q = 0 \<or> q = 1 \<or> q = 2" by auto
      then have "q * E + (e + i) < 4 * E" using assms by (elim disjE) simp_all
      then show ?thesis using False True by (simp only: o(1) o(4) [OF c] if_True if_False add.assoc)
    next
      case f: False
      then have "q = 3" using assms(4) by simp
      then show ?thesis using f False z [OF c] c by (simp add: o(1))
    qed
  qed
  show "(if int e < int i then f (size_t (int (q * E + e) - int i + int E)) else g (size_t (int (q * E + e) - int i)))
      = (if E + e - i < 1 * E then f (q * E + (E + e - i)) else g (q * E + (E + e - i - 1 * E)))"
    using o(5) o(6) [OF assms(5)] assms by auto
  have t: "size_t (int (3 * E + e) - int i + int E) = 3 * E + (E + e - i)"
    "q \<noteq> 0 \<Longrightarrow> size_t (int ((q - 1) * E + e) - int i + int E) = (q - 1) * E + (E + e - i)"
    using slide_offsets(6) [OF assms(1-3) _ assms(5), of 3] slide_offsets(6) [OF assms(1-3) _ assms(5), of "q - 1"] assms(4)
    by simp_all
  show "(if int e < int i then (if q = 0 then f (size_t (int (3 * E + e) - int i + int E))
          else g (size_t (int ((q - 1) * E + e) - int i + int E)))
        else g (size_t (int (q * E + e) - int i)))
      = (if 4 * E + q * E + e - i < 4 * E then f (4 * E + q * E + e - i) else g (4 * E + q * E + e - i - 4 * E))"
  proof (cases "e < i")
    case True
    have q: "q = 0 \<or> q = 1 \<or> q = 2 \<or> q = 3" using assms(4) by auto
    show ?thesis using True q t assms(2,5) by (elim disjE) (auto simp: algebra_simps intro!: arg_cong [of _ _ g])
  next
    case False
    then have "4 * E + q * E + e - i - 4 * E = q * E + (e - i)" "\<not> 4 * E + q * E + e - i < 4 * E" "\<not> int e < int i"
      by simp_all
    moreover have "i \<le> e" using False by simp
    ultimately show ?thesis by (simp only: o(5) if_False)
  qed
qed

lemma slide_getters:
  fixes s :: vregs
  assumes w: "LENGTH('t::len) \<in> {8, 16, 32}" and i: "i \<le> 4" and e: "e < 32 div sizeof TYPE('t)" and q: "q < 4"
    and I: "I = (regfile_inst [VRegs a, VRegs b] d :: (vregs, 't, 't, 't) vinst)"
  shows "VSlidenOpGetArg1 False (int i) I s sc n q e r = joined s 1 (a + q) (b + q) (e + i)"
    and "VSlidenOpGetArg1 True (int i) I s sc n q e r = joined s 4 a b (q * (32 div sizeof TYPE('t)) + e + i)"
    and "VSlidepOpGetArg1 False (int i) I s sc n q e r = joined s 1 (a + q) (b + q) (32 div sizeof TYPE('t) + e - i)"
    and "VSlidepOpGetArg1 True (int i) I s sc n q e r
      = joined s 4 a b (4 * (32 div sizeof TYPE('t)) + q * (32 div sizeof TYPE('t)) + e - i)"
proof -
  note l = lanes_per_register [OF w]
  let ?f = "read_source s (VRegs a) :: nat \<Rightarrow> 't word" and ?g = "read_source s (VRegs b) :: nat \<Rightarrow> 't word"
  have E4: "4 \<le> 32 div sizeof TYPE('t)" using l(3) by simp
  note sel = slide_selection [OF l(4) i e q E4, of ?f ?g]
  have src: "source1 I s 0 k = ?f k" "source1 I s 1 k = ?g k" "vector_register_width I = 32" for k
    by (simp_all add: I regfile_inst_def)
  note defs = VSlidenOpGetArg1_def VSlidepOpGetArg1_def Let_def interleave_entries [OF q] if_True if_False fst_conv snd_conv
    src joined_def read_shift [OF l(1,2)]
  show "VSlidenOpGetArg1 False (int i) I s sc n q e r = joined s 1 (a + q) (b + q) (e + i)"
    using sel(1) by (simp only: defs)
  show "VSlidenOpGetArg1 True (int i) I s sc n q e r = joined s 4 a b (q * (32 div sizeof TYPE('t)) + e + i)"
    using sel(2) by (cases "q < 3") (simp_all only: defs simp_thms)
  show "VSlidepOpGetArg1 False (int i) I s sc n q e r = joined s 1 (a + q) (b + q) (32 div sizeof TYPE('t) + e - i)"
    using sel(3) by (simp only: defs)
  show "VSlidepOpGetArg1 True (int i) I s sc n q e r
      = joined s 4 a b (4 * (32 div sizeof TYPE('t)) + q * (32 div sizeof TYPE('t)) + e - i)"
    using sel(4) by (cases "q = 0") (simp_all only: defs interleave_entries [OF zero_less_numeral] simp_thms)
qed

lemma read_first: "k < 32 div sizeof TYPE('t) \<Longrightarrow> read_source s (VRegs b) k = (lanes (s b) ! k :: 't::len word)"
  by simp

lemma joined_row:
  assumes "vregs_ok s" "k < 2 * (32 div sizeof TYPE('t::len))"
  shows "joined s 1 a b k = ((lanes (s a) @ lanes (s b)) ! k :: 't word)"
proof -
  have n: "length (lanes (s a) :: 't word list) = 32 div sizeof TYPE('t)" using assms(1) by (simp add: vregs_ok_def)
  show ?thesis
  proof (cases "k < 32 div sizeof TYPE('t)")
    case True
    then show ?thesis unfolding joined_def nth_append n mult_1 by (simp only: read_first if_True)
  next
    case False
    then have "k - 32 div sizeof TYPE('t) < 32 div sizeof TYPE('t)" using assms(2) by linarith
    then show ?thesis using False unfolding joined_def nth_append n mult_1 by (simp only: read_first if_False)
  qed
qed

text \<open>The vertical slides treat each pair of source registers as one row: \<open>vslidevn\<close>
  reads it \<open>i\<close> elements further on, \<open>vslidevp\<close> \<open>i\<close> elements back from the second register.\<close>

theorem vertical_slides:
  fixes s :: vregs
  assumes w: "LENGTH('t::len) \<in> {8, 16, 32}" and ok: "vregs_ok s" and n: "n = strip_num_ops strip_mine"
    and u: "unread d n n (VRegs a)" "unread d n n (VRegs b)" and i: "i \<le> 4"
    and N: "N = CoralNPUVSlidevn (int i) strip_mine (regfile_inst [VRegs a, VRegs b] d :: (vregs, 't, 't, 't) vinst) s"
    and P: "P = CoralNPUVSlidevp (int i) strip_mine (regfile_inst [VRegs a, VRegs b] d :: (vregs, 't, 't, 't) vinst) s"
  shows "(\<forall>q. q < d \<or> d + n \<le> q \<longrightarrow> N q = s q \<and> P q = s q)
    \<and> (\<forall>q < n. \<forall>e < 32 div sizeof TYPE('t).
        lanes (N (d + q)) ! e = ((lanes (s (a + q)) @ lanes (s (b + q))) ! (e + i) :: 't word)
      \<and> lanes (P (d + q)) ! e = ((lanes (s (a + q)) @ lanes (s (b + q))) ! (32 div sizeof TYPE('t) + e - i) :: 't word))"
proof -
  note l = lanes_per_register [OF w]
  let ?E = "32 div sizeof TYPE('t)"
  have q4: "q < n \<Longrightarrow> q < 4" for q by (simp add: n strip_num_ops_def split: if_splits)
  have j: "joined s 1 (a + q) (b + q) k = ((lanes (s (a + q)) @ lanes (s (b + q))) ! k :: 't word)" if "k < 2 * ?E" for q k
    by (rule joined_row [OF ok that])
  have u': "\<forall>q < n. 1 \<le> n \<and> q + 1 \<le> n" by simp
  have k: "e < ?E \<Longrightarrow> e + i < 2 * ?E" "e < ?E \<Longrightarrow> ?E + e - i < 2 * ?E" for e using i l(3) by linarith+
  have gn: "\<forall>s q e. q < n \<longrightarrow> e < ?E \<longrightarrow> VSlidenOpGetArg1 False (int i) (regfile_inst [VRegs a, VRegs b] d :: (vregs, 't, 't, 't) vinst)
      s False n q e 0 = joined s 1 (a + q) (b + q) (e + i)"
    using slide_getters(1) [OF w i _ _ refl] q4 by blast
  have gp: "\<forall>s q e. q < n \<longrightarrow> e < ?E \<longrightarrow> VSlidepOpGetArg1 False (int i) (regfile_inst [VRegs a, VRegs b] d :: (vregs, 't, 't, 't) vinst)
      s False n q e 0 = joined s 1 (a + q) (b + q) (?E + e - i)"
    using slide_getters(3) [OF w i _ _ refl] q4 by blast
  note LN = copy_lanewise [OF w ok n u u' gn _ N [unfolded CoralNPUVSlidevn_def]]
  note LP = copy_lanewise [OF w ok n u u' gp _ P [unfolded CoralNPUVSlidevp_def]]
  have LN': "(\<forall>q. q < d \<or> d + n \<le> q \<longrightarrow> N q = s q)
      \<and> (\<forall>q < n. \<forall>e < ?E. lanes (N (d + q)) ! e = (joined s 1 (a + q) (b + q) (e + i) :: 't word))"
    using LN k(1) by simp
  have LP': "(\<forall>q. q < d \<or> d + n \<le> q \<longrightarrow> P q = s q)
      \<and> (\<forall>q < n. \<forall>e < ?E. lanes (P (d + q)) ! e = (joined s 1 (a + q) (b + q) (?E + e - i) :: 't word))"
    using LP k(2) by simp
  show ?thesis using LN' LP' by (simp add: j [unfolded One_nat_def] k)
qed

text \<open>The horizontal slides treat the two groups of four source registers as one row of
  \<open>8 E\<close> elements, crossing register boundaries: \<open>vslidehn\<close> reads it \<open>i\<close> elements further on,
  \<open>vslidehp\<close> \<open>i\<close> elements back from the second group.\<close>

theorem horizontal_slides:
  fixes s :: vregs
  assumes w: "LENGTH('t::len) \<in> {8, 16, 32}" and ok: "vregs_ok s"
    and u: "unread d 4 4 (VRegs a)" "unread d 4 4 (VRegs b)" and i: "i \<le> 4"
    and N: "N = CoralNPUVSlidehn (int i) (regfile_inst [VRegs a, VRegs b] d :: (vregs, 't, 't, 't) vinst) s"
    and P: "P = CoralNPUVSlidehp (int i) (regfile_inst [VRegs a, VRegs b] d :: (vregs, 't, 't, 't) vinst) s"
  shows "(\<forall>q. q < d \<or> d + 4 \<le> q \<longrightarrow> N q = s q \<and> P q = s q)
    \<and> (\<forall>q < 4. \<forall>e < 32 div sizeof TYPE('t). let E = 32 div sizeof TYPE('t) in
        lanes (N (d + q)) ! e = (joined s 4 a b (q * E + e + i) :: 't word)
      \<and> lanes (P (d + q)) ! e = (joined s 4 a b (4 * E + q * E + e - i) :: 't word))"
proof -
  note l = lanes_per_register [OF w]
  let ?E = "32 div sizeof TYPE('t)"
  have n: "4 = strip_num_ops True" by (simp add: strip_num_ops_def)
  have u': "\<forall>q < 4. 4 \<le> (4 :: nat) \<and> (0 :: nat) + 4 \<le> 4" by simp
  have k: "q * ?E + e + i < 2 * (4 * ?E)" "4 * ?E + q * ?E + e - i < 2 * (4 * ?E)" if "q < 4" "e < ?E" for q e
    using element_bound [OF that] i l(3) by linarith+
  have gn: "\<forall>s q e. q < 4 \<longrightarrow> e < ?E \<longrightarrow> VSlidenOpGetArg1 True (int i) (regfile_inst [VRegs a, VRegs b] d :: (vregs, 't, 't, 't) vinst)
      s False 4 q e 0 = joined s 4 (a + 0) (b + 0) (q * ?E + e + i)"
    unfolding add_0_right using slide_getters(2) [OF w i _ _ refl] by blast
  have gp: "\<forall>s q e. q < 4 \<longrightarrow> e < ?E \<longrightarrow> VSlidepOpGetArg1 True (int i) (regfile_inst [VRegs a, VRegs b] d :: (vregs, 't, 't, 't) vinst)
      s False 4 q e 0 = joined s 4 (a + 0) (b + 0) (4 * ?E + q * ?E + e - i)"
    unfolding add_0_right using slide_getters(4) [OF w i _ _ refl] by blast
  note LN = copy_lanewise [where base = "\<lambda>_. 0", OF w ok n u u' gn _ N [unfolded CoralNPUVSlidehn_def]]
  note LP = copy_lanewise [where base = "\<lambda>_. 0", OF w ok n u u' gp _ P [unfolded CoralNPUVSlidehp_def]]
  have LN': "(\<forall>q. q < d \<or> d + 4 \<le> q \<longrightarrow> N q = s q)
      \<and> (\<forall>q < 4. \<forall>e < ?E. lanes (N (d + q)) ! e = (joined s 4 a b (q * ?E + e + i) :: 't word))"
    using LN k(1) by simp
  have LP': "(\<forall>q. q < d \<or> d + 4 \<le> q \<longrightarrow> P q = s q)
      \<and> (\<forall>q < 4. \<forall>e < ?E. lanes (P (d + q)) ! e = (joined s 4 a b (4 * ?E + q * ?E + e - i) :: 't word))"
    using LP k(2) by simp
  show ?thesis using LN' LP' by (simp add: Let_def)
qed

lemma sample_vregs: "vregs_ok sample_regs"
  by (simp add: vregs_ok_def sample_regs_def)

lemma vertical_slides_witness:
  "lanes (CoralNPUVSlidevn 3 False (regfile_inst [VRegs 1, VRegs 2] 4 :: (vregs, 8, 8, 8) vinst) sample_regs 4) ! 30
     = (80 :: 8 word)
   \<and> lanes (CoralNPUVSlidevp 3 False (regfile_inst [VRegs 1, VRegs 2] 4 :: (vregs, 8, 8, 8) vinst) sample_regs 4) ! 2
     = (40 :: 8 word)"
proof -
  note V = vertical_slides [where 't = 8 and n = 1 and strip_mine = False and i = 3 and a = 1 and b = 2 and d = 4,
      OF _ sample_vregs _ _ _ _ refl refl]
  have "lanes (CoralNPUVSlidevn (int 3) False (regfile_inst [VRegs 1, VRegs 2] 4 :: (vregs, 8, 8, 8) vinst) sample_regs (4 + 0)) ! 30
      = ((lanes (sample_regs (1 + 0)) @ lanes (sample_regs (2 + 0))) ! (30 + 3) :: 8 word)"
    "lanes (CoralNPUVSlidevp (int 3) False (regfile_inst [VRegs 1, VRegs 2] 4 :: (vregs, 8, 8, 8) vinst) sample_regs (4 + 0)) ! 2
      = ((lanes (sample_regs (1 + 0)) @ lanes (sample_regs (2 + 0))) ! (32 div sizeof TYPE(8) + 2 - 3) :: 8 word)"
    using V by (simp_all add: strip_num_ops_def sizeof_def)
  moreover have "((lanes (sample_regs (1 + 0)) @ lanes (sample_regs (2 + 0))) ! (30 + 3) :: 8 word) = 80"
    "((lanes (sample_regs (1 + 0)) @ lanes (sample_regs (2 + 0))) ! (32 div sizeof TYPE(8) + 2 - 3) :: 8 word) = 40"
    by code_simp+
  ultimately show ?thesis by simp
qed

lemma horizontal_slides_witness:
  "lanes (CoralNPUVSlidehn 4 (regfile_inst [VRegs 0, VRegs 4] 8 :: (vregs, 16, 16, 16) vinst) sample_regs (8 + 1)) ! 13
     = (0x5050 :: 16 word)"
proof -
  have p: "LENGTH(16) \<in> {8, 16, 32}" "unread 8 4 4 (VRegs 0)" "unread 8 4 4 (VRegs 4)" "4 \<le> (4 :: nat)" by simp_all
  note H = horizontal_slides [where 't = 16, OF p(1) sample_vregs p(2-4) refl refl, THEN conjunct2, THEN spec, of 1,
      THEN mp, THEN spec, of 13, THEN mp]
  have "lanes (CoralNPUVSlidehn (int 4) (regfile_inst [VRegs 0, VRegs 4] 8 :: (vregs, 16, 16, 16) vinst) sample_regs (8 + 1)) ! 13
      = (joined sample_regs 4 0 4 (1 * 16 + 13 + 4) :: 16 word)"
    using H by (simp add: sizeof_def Let_def)
  moreover have "(joined sample_regs 4 0 4 (1 * 16 + 13 + 4) :: 16 word) = 0x5050" by code_simp
  ultimately show ?thesis by simp
qed

subsection \<open>Interleaving\<close>

text \<open>Property C19. \<open>vevnodd\<close> undoes \<open>vzip\<close>: de-interleaving the interleaved register groups gives
  back both operands, strip-mined or not, at every element width.\<close>

theorem evnodd_inverts_zip:
  fixes s :: vregs
  assumes "LENGTH('t) \<in> {8, 16, 32}" "vregs_ok s" "n = strip_num_ops strip_mine"
    and "apart z n (VRegs a)" "apart z n (VRegs b)" "d + 2 * n \<le> z \<or> z + 2 * n \<le> d"
    and "Z = CoralNPUVZip False strip_mine (regfile_inst [VRegs a, VRegs b] z :: (vregs, 't::len, 't, 't) vinst) s"
    and "S = CoralNPUVEvnodd False strip_mine (regfile_inst [VRegs z, VRegs (z + n)] d :: (vregs, 't, 't, 't) vinst) Z"
  shows "\<forall>q < n. lanes (S (d + q)) = (lanes (s (a + q)) :: 't word list)
    \<and> lanes (S (d + (q + n))) = (lanes (s (b + q)) :: 't word list)"
  using evnodd_after_zip [OF assms] by blast

lemma evnodd_inverts_zip_witness:
  "lanes (CoralNPUVEvnodd False True (regfile_inst [VRegs 16, VRegs (16 + 4)] 24 :: (vregs, 8, 8, 8) vinst)
      (CoralNPUVZip False True (regfile_inst [VRegs 4, VRegs 8] 16 :: (vregs, 8, 8, 8) vinst) sample_regs) (24 + 3))
    = (lanes (sample_regs (4 + 3)) :: 8 word list)"
proof -
  have p: "LENGTH(8) \<in> {8, 16, 32}" "4 = strip_num_ops True" "apart 16 4 (VRegs 4)" "apart 16 4 (VRegs 8)"
    "24 + 2 * 4 \<le> (16 :: nat) \<or> 16 + 2 * 4 \<le> (24 :: nat)" by (simp_all add: strip_num_ops_def)
  have q: "(3 :: nat) < 4" by simp
  show ?thesis using evnodd_inverts_zip [where 't = 8, OF p(1) sample_vregs p(2-5) refl refl, rule_format, OF q] by (rule conjunct1)
qed

end
