(* ===== verification/NPU_BFloat16.thy ===== *)
theory NPU_BFloat16
  imports NPU_Prelude
begin

text \<open>
  bfloat16 conversions: \<open>RoundBFloat16\<close>, \<open>Fcvtsbf16\<close> and \<open>Fcvtbf16s\<close> of
  \<open>sim/coralnpu_instructions.cc\<close>, the vector conversions of \<open>sim/coralnpu_vector_instructions.cc\<close>,
  the second implementation in \<open>sim/coralnpu_m3_instructions.cc\<close> and the third in
  \<open>sim/coralnpu_m3_zfbfmin_overrides.cc\<close>.

  The floating-point state (\<open>RiscVFPState\<close>) belongs to MPACT: the code uses its current rounding
  mode, whether that mode is valid, the raw \<open>frm\<close> field and the accrued flags. Accrued flags are a
  set of \<open>fp_flag\<close>, so \<open>fflags |= kInexact\<close> is \<open>insert Inexact\<close>. \<open>FPRoundingMode\<close> carries the
  RISC-V \<open>frm\<close> encoding (0 nearest-even, 1 to zero, 2 down, 3 up, 4 nearest ties away, 7 dynamic).
\<close>

unbundle bit_operations_syntax

datatype fp_flag = Inexact | Underflow | Overflow | DivByZero | InvalidOp

record fp_state =
  GetRoundingMode :: u32
  rounding_mode_valid :: bool
  frm :: u32
  fflags :: "fp_flag set"

text \<open>A handler either asks for an illegal-instruction trap, changing nothing else, or completes.\<close>

datatype 'a outcome = IllegalInstruction | Completed 'a

definition effective_rm :: "u32 \<Rightarrow> fp_state option \<Rightarrow> u32" where
  "effective_rm inst_rm fp =
     (if inst_rm = 7 then (case fp of Some st \<Rightarrow> GetRoundingMode st | None \<Rightarrow> 0) else inst_rm)"

subsection \<open>Scalar conversions of the base simulator\<close>

definition round_increment :: "u32 \<Rightarrow> bool \<Rightarrow> bool \<Rightarrow> bool \<Rightarrow> bool \<Rightarrow> bool" where
  "round_increment rm sign l g s =
     (if rm = 0 then g \<and> (l \<or> s)
      else if rm = 1 then False
      else if rm = 3 then \<not> sign \<and> (g \<or> s)
      else if rm = 2 then sign \<and> (g \<or> s)
      else if rm = 4 then g
      else False)"

definition RoundBFloat16 :: "u32 \<Rightarrow> u32 \<Rightarrow> fp_state option \<Rightarrow> fp_flag set \<Rightarrow> u16 \<times> fp_flag set" where
  "RoundBFloat16 bits inst_rm fp flags =
     (let sign = drop_bit 31 bits AND 1 \<noteq> 0;
          l = drop_bit 16 bits AND 1 \<noteq> 0;
          g = drop_bit 15 bits AND 1 \<noteq> 0;
          s = bits AND 0x7FFF \<noteq> 0;
          flags = (if g \<or> s then insert Inexact flags else flags);
          increment = (g \<or> s) \<and> round_increment (effective_rm inst_rm fp) sign l g s;
          exp = drop_bit 23 bits AND 0xFF;
          res_bits = drop_bit 16 bits;
          res_bits = (if increment then res_bits + 1 else res_bits);
          flags = (if increment \<and> res_bits AND 0x7F80 = 0x7F80 \<and> exp \<noteq> 0xFF
                   then insert Overflow (insert Inexact flags) else flags)
      in (ucast res_bits, flags))"

definition Fcvtsbf16 :: "fp_state option \<Rightarrow> u32 \<Rightarrow> u64 \<Rightarrow> (u64 \<times> fp_state) outcome" where
  "Fcvtsbf16 fp inst_rm rs1 =
     (case fp of None \<Rightarrow> IllegalInstruction
      | Some st \<Rightarrow>
          if inst_rm = 5 \<or> inst_rm = 6 then IllegalInstruction
          else if inst_rm = 7 \<and> \<not> rounding_mode_valid st then IllegalInstruction
          else
            let src_bits = ucast (rs1 AND 0xFFFF) :: u16 in
            if drop_bit 16 rs1 \<noteq> 0xFFFFFFFFFFFF
            then Completed (0xFFFFFFFF00000000 OR ucast (0x7FC00000 :: u32), st)
            else
              let exp = drop_bit 7 (ucast src_bits :: u32) AND 0xFF;
                  frac = (ucast src_bits :: u32) AND 0x7F
              in if exp = 0xFF \<and> frac \<noteq> 0
                 then Completed (0xFFFFFFFF00000000 OR ucast (0x7FC00000 :: u32),
                   if frac AND 0x40 = 0 then st\<lparr>fflags := insert InvalidOp (fflags st)\<rparr> else st)
                 else Completed (0xFFFFFFFF00000000 OR ucast (push_bit 16 (ucast src_bits :: u32)), st))"

definition Fcvtbf16s :: "fp_state option \<Rightarrow> u32 \<Rightarrow> u64 \<Rightarrow> (u64 \<times> fp_state) outcome" where
  "Fcvtbf16s fp inst_rm vs2_64 =
     (case fp of None \<Rightarrow> IllegalInstruction
      | Some st \<Rightarrow>
          if inst_rm = 5 \<or> inst_rm = 6 then IllegalInstruction
          else if inst_rm = 7 \<and> \<not> rounding_mode_valid st then IllegalInstruction
          else
            let (bits, flags) =
              (if drop_bit 32 vs2_64 \<noteq> 0xFFFFFFFF then (0x7FC00000, {})
               else
                 let bits = ucast (vs2_64 AND 0xFFFFFFFF) :: u32;
                     exp = drop_bit 23 bits AND 0xFF;
                     frac = bits AND 0x7FFFFF
                 in if exp = 0xFF \<and> frac \<noteq> 0
                    then (0x7FC00000, if frac AND 0x400000 = 0 then {InvalidOp} else {})
                    else (bits, {}));
              (result, flags) = RoundBFloat16 bits inst_rm fp flags
            in Completed (0xFFFFFFFFFFFF0000 OR ucast result,
                 if flags \<noteq> {} then st\<lparr>fflags := fflags st \<union> flags\<rparr> else st))"

definition ConvertF32ToBF16 :: "u32 \<Rightarrow> fp_state option \<Rightarrow> fp_flag set \<Rightarrow> u16 \<times> fp_flag set" where
  "ConvertF32ToBF16 bits fp flags =
     (let exp = drop_bit 23 bits AND 0xFF;
          frac = bits AND 0x7FFFFF;
          is_nan = exp = 0xFF \<and> frac \<noteq> 0;
          flags = (if is_nan \<and> frac AND 0x400000 = 0 then insert InvalidOp flags else flags);
          bits = (if is_nan then 0x7FC00000 else bits)
      in RoundBFloat16 bits 7 fp flags)"

subsection \<open>The second implementation (M3)\<close>

text \<open>\<open>BF16Info\<close>: 16 bits, 8 exponent bits, 7 significand bits, \<open>kF32ToBF16Shift = 23 - 7\<close>.\<close>

definition BF16_IsNaN :: "u16 \<Rightarrow> bool" where
  "BF16_IsNaN val \<longleftrightarrow> val AND 0x7F80 = 0x7F80 \<and> val AND 0x7F \<noteq> 0"

definition BF16_IsSNaN :: "u16 \<Rightarrow> bool" where
  "BF16_IsSNaN val \<longleftrightarrow> BF16_IsNaN val \<and> val AND 0x40 = 0"

definition m3_RoundBFloat16 :: "u32 \<Rightarrow> u32 \<Rightarrow> fp_state option \<Rightarrow> fp_flag set \<Rightarrow> u16 \<times> fp_flag set" where
  "m3_RoundBFloat16 bits inst_rm fp flags =
     (let sign = bit bits 31;
          lsb = drop_bit 16 bits AND 1 \<noteq> 0;
          guard_bit = drop_bit 15 bits AND 1 \<noteq> 0;
          sticky_bit = bits AND (push_bit 15 1 - 1) \<noteq> 0;
          flags = (if guard_bit \<or> sticky_bit then insert Inexact flags else flags);
          increment = (guard_bit \<or> sticky_bit)
            \<and> round_increment (effective_rm inst_rm fp) sign lsb guard_bit sticky_bit;
          exp = drop_bit 23 (bits AND 0x7F800000);
          res_bits = drop_bit 16 bits;
          res_bits = (if increment then res_bits + 1 else res_bits);
          flags = (if increment \<and> res_bits AND 0x7F80 = 0x7F80 \<and> exp \<noteq> 0xFF
                   then insert Overflow (insert Inexact flags) else flags);
          flags = (if (guard_bit \<or> sticky_bit) \<and> res_bits AND 0x7F80 = 0
                   then insert Underflow flags else flags)
      in (ucast res_bits, flags))"

text \<open>\<open>FPTypeInfo<float>::IsNaN\<close> and \<open>IsSNaN\<close>: the IEEE-754 predicates on a binary32 pattern.\<close>

definition f32_IsNaN :: "u32 \<Rightarrow> bool" where
  "f32_IsNaN b \<longleftrightarrow> b AND 0x7F800000 = 0x7F800000 \<and> b AND 0x007FFFFF \<noteq> 0"

definition f32_IsSNaN :: "u32 \<Rightarrow> bool" where
  "f32_IsSNaN b \<longleftrightarrow> f32_IsNaN b \<and> b AND 0x00400000 = 0"

definition m3_ConvertF32ToBF16 :: "u32 \<Rightarrow> u32 \<Rightarrow> fp_state option \<Rightarrow> fp_flag set \<Rightarrow> u16 \<times> fp_flag set" where
  "m3_ConvertF32ToBF16 bits rm_val fp flags =
     (if f32_IsNaN bits
      then (0x7FC0, if f32_IsSNaN bits then insert InvalidOp flags else flags)
      else m3_RoundBFloat16 bits rm_val fp flags)"

definition ConvertBF16ToF32 :: "u16 \<Rightarrow> u32" where
  "ConvertBF16ToF32 bf16 = push_bit 16 (ucast bf16)"

definition ConvertBF16ToF32Precise :: "u16 \<Rightarrow> u32 \<times> fp_flag set" where
  "ConvertBF16ToF32Precise bf16_bits =
     (let src_bits = ucast bf16_bits :: u32;
          exp = drop_bit 7 src_bits AND 0xFF;
          frac = src_bits AND 0x7F
      in if exp = 0xFF \<and> frac \<noteq> 0
         then (0x7FC00000, if frac AND 0x40 = 0 then {InvalidOp} else {})
         else (push_bit 16 src_bits, {}))"

text \<open>
  \<open>fs\<close> is \<open>mstatus.fs\<close>; \<open>unbox\<close> is MPACT's \<open>GetNaNBoxedSource<uint64_t, float>\<close>. The result is the
  destination register and the flags written to the accumulating \<open>fflags\<close> operand.
\<close>

definition CoralNPUFcvtBf16S ::
    "(u64 \<Rightarrow> u32) \<Rightarrow> u32 \<Rightarrow> fp_state \<Rightarrow> u32 \<Rightarrow> u64 \<Rightarrow> (u64 \<times> fp_flag set) outcome" where
  "CoralNPUFcvtBf16S unbox fs st rm_val fs1 =
     (if fs = 0 then IllegalInstruction
      else if rm_val > 4 \<and> rm_val \<noteq> 7 then IllegalInstruction
      else if rm_val = 7 \<and> \<not> rounding_mode_valid st then IllegalInstruction
      else
        let rm = (if rm_val = 7 then GetRoundingMode st else rm_val);
            (bf16, flags) = m3_ConvertF32ToBF16 (unbox fs1) rm (Some st) {}
        in Completed (ucast bf16 OR push_bit 16 (NOT 0), flags))"

definition FcvtBf16S ::
    "(u64 \<Rightarrow> u32) \<Rightarrow> u32 \<Rightarrow> fp_state \<Rightarrow> u32 \<Rightarrow> u64 \<Rightarrow> (u64 \<times> fp_flag set) outcome" where
  "FcvtBf16S = CoralNPUFcvtBf16S"

text \<open>\<open>None\<close>: the state has no floating-point unit and the handler returns without any effect.\<close>

definition FcvtSBf16 ::
    "u32 \<Rightarrow> fp_state option \<Rightarrow> u32 \<Rightarrow> u32 \<Rightarrow> (u64 \<times> fp_flag set) outcome option" where
  "FcvtSBf16 fs fp rm_val src_bits =
     (case fp of None \<Rightarrow> None
      | Some st \<Rightarrow> Some
         (if fs = 0 then IllegalInstruction
          else if rm_val \<noteq> 0 then IllegalInstruction
          else
            let (result, flags) =
              (if src_bits AND 0xFFFF0000 \<noteq> 0xFFFF0000 then (0x7FC00000, {})
               else ConvertBF16ToF32Precise (ucast (src_bits AND 0xFFFF)))
            in Completed (0xFFFFFFFF00000000 OR ucast result, flags)))"

subsection \<open>The third implementation (M3 overrides)\<close>

definition CoralNPUM3ZfbfminFcvtBf16S ::
    "(u64 \<Rightarrow> u32) \<Rightarrow> u32 \<Rightarrow> fp_state option \<Rightarrow> u32 \<Rightarrow> u64 \<Rightarrow> (u64 \<times> fp_flag set) outcome" where
  "CoralNPUM3ZfbfminFcvtBf16S unbox fs fp rm frs1 =
     (case fp of None \<Rightarrow> IllegalInstruction
      | Some st \<Rightarrow>
          if fs = 0 then IllegalInstruction
          else if rm = 7 \<and> \<not> rounding_mode_valid st then IllegalInstruction
          else
            let rm = (if rm = 7 then GetRoundingMode st else rm) in
            if rm = 5 \<or> rm = 6 \<or> rm > 7 then IllegalInstruction
            else
              let f_u = unbox frs1;
                  is_nan = f_u AND 0x7F800000 = 0x7F800000 \<and> f_u AND 0x007FFFFF \<noteq> 0
              in if is_nan
                 then Completed (0xFFFFFFFFFFFF0000 OR ucast (0x7FC0 :: u16),
                   if f_u AND 0x00400000 = 0 then {InvalidOp} else {})
                 else
                   let sign = drop_bit 31 f_u \<noteq> 0;
                       r_bit = drop_bit 15 f_u AND 1 \<noteq> 0;
                       s_bit = f_u AND 0x7FFF \<noteq> 0;
                       l_bit = drop_bit 16 f_u AND 1 \<noteq> 0;
                       flags = (if r_bit \<or> s_bit then {Inexact} else {});
                       increment = round_increment rm sign l_bit r_bit s_bit;
                       upper = drop_bit 16 f_u;
                       upper = (if increment then upper + 1 else upper);
                       exp_before = drop_bit 23 f_u AND 0xFF;
                       exp_after = drop_bit 7 upper AND 0xFF;
                       flags = (if exp_before < 0xFF \<and> exp_after = 0xFF
                                then insert Overflow (insert Inexact flags)
                                else if exp_after = 0 \<and> Inexact \<in> flags
                                then insert Underflow flags else flags)
                   in Completed (0xFFFFFFFFFFFF0000 OR ucast (ucast upper :: u16), flags))"

definition CoralNPUM3ZfbfminFcvtSBf16 ::
    "u32 \<Rightarrow> fp_state option \<Rightarrow> u32 \<Rightarrow> u64 \<Rightarrow> (u64 \<times> fp_flag set) outcome" where
  "CoralNPUM3ZfbfminFcvtSBf16 fs fp rm frs1 =
     (if fp = None \<or> fs = 0 then IllegalInstruction
      else if rm \<noteq> 0 then IllegalInstruction
      else
        let is_nan_boxed = frs1 AND 0xFFFFFFFFFFFF0000 = 0xFFFFFFFFFFFF0000;
            bf16_val = ucast (frs1 AND 0xFFFF) :: u16;
            is_nan = bf16_val AND 0x7F80 = 0x7F80 \<and> bf16_val AND 0x7F \<noteq> 0
        in if \<not> is_nan_boxed \<or> is_nan
           then Completed (0xFFFFFFFF00000000 OR ucast (0x7FC00000 :: u32),
             if is_nan_boxed \<and> is_nan \<and> bf16_val AND 0x40 = 0 then {InvalidOp} else {})
           else Completed (0xFFFFFFFF00000000 OR ucast (push_bit 16 (ucast bf16_val :: u32)), {}))"

subsection \<open>Vector conversions of the base simulator\<close>

text \<open>A register is identified by its name, as in the simulator's register table.\<close>

definition CheckOverlap :: "string list \<Rightarrow> string list \<Rightarrow> bool \<Rightarrow> bool" where
  "CheckOverlap dst src is_widening =
     list_ex (\<lambda>i. list_ex (\<lambda>j. dst ! i = src ! j
         \<and> (if is_widening then length dst \<le> length src \<or> i \<noteq> j else i \<noteq> j))
       [0..<length src]) [0..<length dst]"

definition CheckMaskOverlap :: "string list \<Rightarrow> bool" where
  "CheckMaskOverlap dst = list_ex (\<lambda>r. r = ''v0'') dst"

text \<open>\<open>atoi\<close> is \<open>absl::SimpleAtoi\<close>.\<close>

definition GetRegisterNumber :: "(string \<Rightarrow> int option) \<Rightarrow> string \<Rightarrow> int" where
  "GetRegisterNumber atoi name =
     (if name = [] \<or> hd name \<noteq> CHR ''v'' then -1
      else case atoi (takeWhile (\<lambda>c. c \<noteq> CHR ''.'') (tl name)) of None \<Rightarrow> -1 | Some n \<Rightarrow> n)"

definition CheckZvfbfminVectorOpConstraints ::
    "(string \<Rightarrow> int option) \<Rightarrow> u32 \<Rightarrow> fp_state \<Rightarrow> string \<Rightarrow> string \<Rightarrow> bool \<Rightarrow> bool" where
  "CheckZvfbfminVectorOpConstraints atoi vtype st dest_reg src_reg check_rounding =
     (if vtype AND 0x80000000 \<noteq> 0 then False
      else if vtype AND 0x07 \<noteq> 0 then False
      else if check_rounding \<and> frm st > 4 then False
      else
        let dest_num = GetRegisterNumber atoi dest_reg;
            src_num = GetRegisterNumber atoi src_reg
        in \<not> (dest_num < 0 \<or> src_num < 0 \<or> dest_num mod 2 \<noteq> 0 \<or> src_num mod 2 \<noteq> 0))"

definition vector_overlap :: "string list \<Rightarrow> string list \<Rightarrow> string option \<Rightarrow> bool \<Rightarrow> bool" where
  "vector_overlap dst src vm is_widening =
     (let is_masked = (case vm of None \<Rightarrow> False | Some name \<Rightarrow> name \<noteq> [])
      in CheckOverlap dst src is_widening \<or> (is_masked \<and> CheckMaskOverlap dst))"

text \<open>
  \<open>n\<close> is \<open>dest_span.size()\<close>, \<open>src i\<close> the \<open>i\<close>-th source element, \<open>vm\<close> the mask operand's string if
  there is one. The result is the new contents of the first destination register.
\<close>

definition Vfwcvtbf16ffv ::
    "(string \<Rightarrow> int option) \<Rightarrow> u32 \<Rightarrow> fp_state \<Rightarrow> string list \<Rightarrow> string list \<Rightarrow> string option
     \<Rightarrow> nat \<Rightarrow> (nat \<Rightarrow> u16) \<Rightarrow> (u32 list \<times> fp_state) outcome" where
  "Vfwcvtbf16ffv atoi vtype st dst src vm n src_elem =
     (if vector_overlap dst src vm True
         \<or> \<not> CheckZvfbfminVectorOpConstraints atoi vtype st (dst ! 0) (src ! 0) False
      then IllegalInstruction
      else Completed (fold (\<lambda>i (dest_span, st).
          let src_bits = ucast (src_elem i) :: u32;
              exp = drop_bit 7 src_bits AND 0xFF;
              frac = src_bits AND 0x7F
          in if exp = 0xFF \<and> frac \<noteq> 0
             then (dest_span[i := 0x7FC00000],
               if frac AND 0x40 = 0 then st\<lparr>fflags := insert InvalidOp (fflags st)\<rparr> else st)
             else (dest_span[i := push_bit 16 src_bits], st))
        [0..<n] (replicate n 0, st)))"

definition Vfncvtbf16ffw ::
    "(string \<Rightarrow> int option) \<Rightarrow> u32 \<Rightarrow> fp_state \<Rightarrow> string list \<Rightarrow> string list \<Rightarrow> string option
     \<Rightarrow> nat \<Rightarrow> (nat \<Rightarrow> u32) \<Rightarrow> (u16 list \<times> fp_state) outcome" where
  "Vfncvtbf16ffw atoi vtype st dst src vm n src_elem =
     (if vector_overlap dst src vm False
         \<or> \<not> CheckZvfbfminVectorOpConstraints atoi vtype st (dst ! 0) (src ! 0) True
      then IllegalInstruction
      else
        let (dest_span, flags) = fold (\<lambda>i (dest_span, flags).
              let (r, flags) = ConvertF32ToBF16 (src_elem i) (Some st) flags
              in (dest_span[i := r], flags))
            [0..<n] (replicate n 0, {})
        in Completed (dest_span, st\<lparr>fflags := fflags st \<union> flags\<rparr>))"

subsection \<open>Vector conversions of the second implementation\<close>

text \<open>
  The masked, tail- and prestart-undisturbed loop shared by both handlers: \<open>reg\<close> is the buffer being
  written and its register, flushed when the loop moves to the next register. \<open>vregs\<close> are the
  registers of the destination operand.
\<close>

definition m3_overlaps :: "string list \<Rightarrow> string list \<Rightarrow> bool" where
  "m3_overlaps dst src = list_ex (\<lambda>d. list_ex (\<lambda>s. d = s) src) dst"

definition mask_bit :: "u8 list option \<Rightarrow> nat \<Rightarrow> bool" where
  "mask_bit vm_mask vector_index =
     (case vm_mask of None \<Rightarrow> True
      | Some mask_span \<Rightarrow>
          drop_bit (vector_index mod 8) (mask_span ! (vector_index div 8)) AND 1 \<noteq> 0)"

definition flush_buffer :: "(nat \<times> 'd list) option \<Rightarrow> (nat \<Rightarrow> 'd list) \<Rightarrow> nat \<Rightarrow> 'd list" where
  "flush_buffer buf vregs = (case buf of None \<Rightarrow> vregs | Some (reg, span) \<Rightarrow> vregs(reg := span))"

definition vcvt_step ::
    "('s \<Rightarrow> fp_flag set \<Rightarrow> 'd \<times> fp_flag set) \<Rightarrow> u8 list option \<Rightarrow> nat \<Rightarrow> (nat \<Rightarrow> 's) \<Rightarrow> nat
     \<Rightarrow> (nat \<times> 'd list) option \<times> (nat \<Rightarrow> 'd list) \<times> fp_flag set
     \<Rightarrow> (nat \<times> 'd list) option \<times> (nat \<Rightarrow> 'd list) \<times> fp_flag set" where
  "vcvt_step conv vm_mask elements_per_vector src vector_index = (\<lambda>(buf, vregs, flags).
     (let reg = vector_index div elements_per_vector;
          i = vector_index mod elements_per_vector;
          (buf, vregs) =
            (if (case buf of None \<Rightarrow> True | Some (last_reg, span) \<Rightarrow> reg \<noteq> last_reg)
             then (let vregs = flush_buffer buf vregs in (Some (reg, vregs reg), vregs))
             else (buf, vregs))
      in if mask_bit vm_mask vector_index
         then let (v, flags) = conv (src vector_index) flags
              in (map_option (\<lambda>(r, span). (r, span[i := v])) buf, vregs, flags)
         else (buf, vregs, flags)))"

definition vcvt_loop ::
    "('s \<Rightarrow> fp_flag set \<Rightarrow> 'd \<times> fp_flag set) \<Rightarrow> u8 list option \<Rightarrow> nat \<Rightarrow> nat \<Rightarrow> nat \<Rightarrow> (nat \<Rightarrow> 's)
     \<Rightarrow> (nat \<Rightarrow> 'd list) \<Rightarrow> (nat \<Rightarrow> 'd list) \<times> fp_flag set" where
  "vcvt_loop conv vm_mask elements_per_vector vstart vl src vregs =
     (let (buf, vregs, flags) =
        fold (vcvt_step conv vm_mask elements_per_vector src) [vstart..<vl] (None, vregs, {})
      in (flush_buffer buf vregs, flags))"

definition m3_is_masked :: "string option \<Rightarrow> bool" where
  "m3_is_masked vm = (case vm of None \<Rightarrow> False | Some name \<Rightarrow> name \<noteq> [] \<and> name \<noteq> ''__VectorTrue__'')"

text \<open>
  \<open>mstatus\<close> supplies \<open>fs\<close> and bits 10:9 (\<open>vs\<close>). The results are the destination registers, the
  cleared \<open>vstart\<close> and the new state. An operand the instruction lacks is an empty group.
\<close>

definition m3_Vfwcvtbf16ffv ::
    "u32 \<Rightarrow> u64 \<Rightarrow> fp_state \<Rightarrow> string list \<Rightarrow> string list \<Rightarrow> string option \<Rightarrow> u8 list \<Rightarrow> nat \<Rightarrow> nat \<Rightarrow> nat
     \<Rightarrow> (nat \<Rightarrow> u16) \<Rightarrow> (nat \<Rightarrow> u32 list) \<Rightarrow> ((nat \<Rightarrow> u32 list) \<times> nat \<times> fp_state) outcome" where
  "m3_Vfwcvtbf16ffv fs mstatus st dst src vm mask_span vreg_bytes vstart vl src_elem vregs =
     (if fs = 0 \<or> drop_bit 9 mstatus AND 0b11 = 0 then IllegalInstruction
      else if dst = [] \<or> src = [] then IllegalInstruction
      else if m3_overlaps dst src then IllegalInstruction
      else
        let vm_mask = (if m3_is_masked vm then Some mask_span else None);
            (vregs, flags) = vcvt_loop (\<lambda>x flags. let (r, f) = ConvertBF16ToF32Precise x in (r, flags \<union> f))
              vm_mask (vreg_bytes div 4) vstart vl src_elem vregs
        in Completed (vregs, 0, if flags \<noteq> {} then st\<lparr>fflags := fflags st \<union> flags\<rparr> else st))"

definition m3_Vfncvtbf16ffw ::
    "u32 \<Rightarrow> u64 \<Rightarrow> fp_state \<Rightarrow> string list \<Rightarrow> string list \<Rightarrow> string option \<Rightarrow> u8 list \<Rightarrow> nat \<Rightarrow> nat \<Rightarrow> nat
     \<Rightarrow> (nat \<Rightarrow> u32) \<Rightarrow> (nat \<Rightarrow> u16 list) \<Rightarrow> ((nat \<Rightarrow> u16 list) \<times> nat \<times> fp_state) outcome" where
  "m3_Vfncvtbf16ffw fs mstatus st dst src vm mask_span vreg_bytes vstart vl src_elem vregs =
     (if fs = 0 \<or> drop_bit 9 mstatus AND 0b11 = 0 then IllegalInstruction
      else if dst = [] \<or> src = [] then IllegalInstruction
      else if \<not> rounding_mode_valid st then IllegalInstruction
      else if m3_overlaps dst src then IllegalInstruction
      else
        let vm_mask = (if m3_is_masked vm then Some mask_span else None);
            (vregs, flags) = vcvt_loop (\<lambda>x flags. m3_ConvertF32ToBF16 x (GetRoundingMode st) (Some st) flags)
              vm_mask (vreg_bytes div 2) vstart vl src_elem vregs
        in Completed (vregs, 0, st\<lparr>fflags := fflags st \<union> flags\<rparr>))"

end
