(* ===== verification/NPU_BFloat16Props.thy ===== *)
theory NPU_BFloat16Props
  imports NPU_BFloat16
begin

text \<open>
  Correctness of the bfloat16 conversions: the base rounding function rounds as IEEE 754 asks in
  every mode, the three implementations agree, widening followed by narrowing is the identity on
  numbers, and the masked vector loop converts exactly the active elements.
\<close>

unbundle bit_operations_syntax

subsection \<open>Bit fields as arithmetic\<close>

lemma field_odd: "(drop_bit k w AND 1 \<noteq> (0 :: 'a::len word)) = bit w k"
  by (simp add: and_one_eq mod_2_eq_odd bit_iff_odd_drop_bit)

lemma bit_uint_div: "bit (w :: 'a::len word) k = odd (uint w div 2 ^ k)"
  by (metis bit_iff_odd bit_uint_iff bit_imp_le_length)

lemma low_mask: "(w AND mask k = (0 :: 'a::len word)) = (uint w mod 2 ^ k = 0)"
proof -
  have "(w AND mask k = 0) = (uint (take_bit k w) = 0)" by (simp only: take_bit_eq_mask uint_0_iff)
  then show ?thesis by (simp only: unsigned_take_bit_eq take_bit_eq_mod [of k "uint w"])
qed

lemma sticky_bits: "((bits :: u32) AND 0x7FFF \<noteq> 0) = (uint bits mod 2 ^ 15 \<noteq> 0)"
  using low_mask [of bits 15] by (simp add: mask_eq_exp_minus_1)

text \<open>The magnitude of a binary32 or bfloat16 pattern: everything but the sign bit.\<close>

definition mag32 :: "u32 \<Rightarrow> int" where
  "mag32 b = uint b mod 2 ^ 31"

definition mag16 :: "u16 \<Rightarrow> int" where
  "mag16 b = uint b mod 2 ^ 15"

text \<open>
  Correct rounding of a magnitude \<open>m\<close> to a multiple \<open>M\<close> of \<open>2 ^ 16\<close>. Between consecutive bfloat16
  patterns the binary32 patterns are equally spaced, so rounding patterns is rounding values.
\<close>

definition rounds_to :: "u32 \<Rightarrow> bool \<Rightarrow> int \<Rightarrow> int \<Rightarrow> bool" where
  "rounds_to rm sign m M \<longleftrightarrow>
     (if rm = 0 then 2 * \<bar>M * 2 ^ 16 - m\<bar> \<le> 2 ^ 16 \<and> (2 * \<bar>M * 2 ^ 16 - m\<bar> = 2 ^ 16 \<longrightarrow> even M)
      else if rm = 4 then 2 * \<bar>M * 2 ^ 16 - m\<bar> \<le> 2 ^ 16 \<and> (2 * \<bar>M * 2 ^ 16 - m\<bar> = 2 ^ 16 \<longrightarrow> m < M * 2 ^ 16)
      else if rm = 2 \<and> sign \<or> rm = 3 \<and> \<not> sign then m \<le> M * 2 ^ 16 \<and> M * 2 ^ 16 < m + 2 ^ 16
      else M * 2 ^ 16 \<le> m \<and> m < (M + 1) * 2 ^ 16)"

definition bf16_round :: "u32 \<Rightarrow> bool \<Rightarrow> int \<Rightarrow> int" where
  "bf16_round rm sign m = m div 2 ^ 16 + (if (odd (m div 2 ^ 15) \<or> m mod 2 ^ 15 \<noteq> 0)
      \<and> round_increment rm sign (odd (m div 2 ^ 16)) (odd (m div 2 ^ 15)) (m mod 2 ^ 15 \<noteq> 0) then 1 else 0)"

lemma split_fields:
  fixes m :: int
  shows "m = m div 2 ^ 16 * 2 ^ 16 + (if odd (m div 2 ^ 15) then 2 ^ 15 else 0) + m mod 2 ^ 15"
    and "0 \<le> m mod 2 ^ 15" and "m mod 2 ^ 15 < 2 ^ 15"
proof -
  have "m div 2 ^ 16 = m div 2 ^ 15 div 2" by (simp add: zdiv_zmult2_eq)
  then have d: "m div 2 ^ 15 = 2 * (m div 2 ^ 16) + (if odd (m div 2 ^ 15) then 1 else 0)"
    by (cases "odd (m div 2 ^ 15)") auto
  have "m = m div 2 ^ 15 * 2 ^ 15 + m mod 2 ^ 15" by simp
  also have "\<dots> = (2 * (m div 2 ^ 16) + (if odd (m div 2 ^ 15) then 1 else 0)) * 2 ^ 15 + m mod 2 ^ 15"
    by (subst d) (rule refl)
  finally show "m = m div 2 ^ 16 * 2 ^ 16 + (if odd (m div 2 ^ 15) then 2 ^ 15 else 0) + m mod 2 ^ 15"
    by (simp add: algebra_simps split: if_splits)
qed simp_all

lemma rounds_core:
  assumes "0 \<le> t" "t < 2 ^ 15"
  shows "rounds_to rm sign (q * 2 ^ 16 + (if g then 2 ^ 15 else 0) + t)
    (q + (if (g \<or> t \<noteq> 0) \<and> round_increment rm sign (odd q) g (t \<noteq> 0) then 1 else 0))"
proof -
  have d: "(q + 1) * 65536 - (q * 65536 + x) = 65536 - x" "q * 65536 - (q * 65536 + x) = - x" for x :: int by simp_all
  consider "rm = 0" | "rm = 1" | "rm = 2" | "rm = 3" | "rm = 4" | "rm \<noteq> 0" "rm \<noteq> 1" "rm \<noteq> 2" "rm \<noteq> 3" "rm \<noteq> 4" by blast
  then show ?thesis
  proof cases
    case 1
    then show ?thesis using assms by (cases g; cases "t = 0"; cases "odd q") (simp_all add: rounds_to_def round_increment_def)
  next
    case 2
    then show ?thesis using assms by (cases g) (simp_all add: rounds_to_def round_increment_def)
  next
    case 3
    then show ?thesis using assms by (cases g; cases "t = 0"; cases sign) (simp_all add: rounds_to_def round_increment_def)
  next
    case 4
    then show ?thesis using assms by (cases g; cases "t = 0"; cases sign) (simp_all add: rounds_to_def round_increment_def)
  next
    case 5
    then show ?thesis using assms by (cases g; cases "t = 0") (simp_all add: rounds_to_def round_increment_def)
  next
    case 6
    then show ?thesis using assms by (cases g) (simp_all add: rounds_to_def round_increment_def)
  qed
qed

lemma bf16_round_correct: "rounds_to rm sign m (bf16_round rm sign m)"
  using rounds_core [of "m mod 2 ^ 15" rm sign "m div 2 ^ 16" "odd (m div 2 ^ 15)"] split_fields [of m]
  by (simp add: bf16_round_def)

subsection \<open>The base rounding function\<close>

lemma uint_field: "uint (drop_bit k (w :: 'a::len word) AND mask n) = uint w div 2 ^ k mod 2 ^ n"
proof -
  have "uint (drop_bit k w AND mask n) = uint (take_bit n (drop_bit k w))" by (simp only: take_bit_eq_mask)
  also have "\<dots> = take_bit n (drop_bit k (uint w))" by (simp add: unsigned_take_bit_eq unsigned_drop_bit_eq take_bit_int_eq_self [OF uint_nonnegative uint_bounded])
  finally show ?thesis by (simp only: drop_bit_int_div take_bit_eq_mod [where 'a = int])
qed

lemma field_ones:
  assumes "k + n \<le> LENGTH('a)"
  shows "((w :: 'a::len word) AND push_bit k (mask n) = push_bit k (mask n)) = (uint w div 2 ^ k mod 2 ^ n = 2 ^ n - 1)"
proof -
  have "(w AND push_bit k (mask n) = push_bit k (mask n)) = (drop_bit k w AND mask n = mask n)"
  proof
    assume "w AND push_bit k (mask n) = push_bit k (mask n)"
    then have "drop_bit k (w AND push_bit k (mask n)) = drop_bit k (push_bit k (mask n))" by simp
    then show "drop_bit k w AND mask n = mask n"
      using assms by (simp add: bit_eq_iff bit_simps) (metis add.commute add_less_cancel_left less_le_trans)
  next
    assume "drop_bit k w AND mask n = mask n"
    then show "w AND push_bit k (mask n) = push_bit k (mask n)"
      by (auto simp: bit_eq_iff bit_simps)
  qed
  also have "\<dots> = (uint (drop_bit k w AND mask n) = uint (mask n :: 'a word))" by (simp only: word_uint_eq_iff)
  also have "uint (mask n :: 'a word) = 2 ^ n - 1"
  proof -
    have "uint (mask n :: 'a word) = mask n"
      using assms by (intro bit_eqI) (auto simp: bit_simps)
    then show ?thesis by (simp add: mask_eq_exp_minus_1)
  qed
  finally show ?thesis by (simp add: uint_field)
qed

lemma exp16_ones: "((w :: u32) AND 0x7F80 = 0x7F80) = (uint w div 2 ^ 7 mod 2 ^ 8 = 255)"
  using field_ones [of 7 8 w] by (simp add: mask_eq_exp_minus_1)

lemma exp32_field: "(drop_bit 23 (w :: u32) AND 0xFF = 0xFF) = (uint w div 2 ^ 23 mod 2 ^ 8 = 255)"
proof -
  have "(drop_bit 23 w AND 0xFF = 0xFF) = (uint (drop_bit 23 w AND mask 8) = uint (0xFF :: u32))"
    by (simp add: mask_eq_exp_minus_1 word_uint_eq_iff)
  then show ?thesis by (simp add: uint_field)
qed

lemma uint_drop_bit_div: "uint (drop_bit k (w :: 'a::len word)) = uint w div 2 ^ k"
  by (simp add: unsigned_drop_bit_eq take_bit_int_eq_self [OF uint_nonnegative uint_bounded] drop_bit_int_div)

lemma guard_sticky_zero: "0 < p \<Longrightarrow> 0 \<le> t \<Longrightarrow> ((if g then p else 0) + t = 0) = (\<not> (g \<or> t \<noteq> (0 :: int)))"
  by (cases g) auto

lemma mod16_zero: "((m :: int) mod 2 ^ 16 = 0) = (\<not> (odd (m div 2 ^ 15) \<or> m mod 2 ^ 15 \<noteq> 0))"
proof -
  have "m div 2 ^ 16 * 2 ^ 16 + m mod 2 ^ 16
      = m div 2 ^ 16 * 2 ^ 16 + ((if odd (m div 2 ^ 15) then 2 ^ 15 else 0) + m mod 2 ^ 15)"
    unfolding div_mult_mod_eq add.assoc [symmetric] by (rule split_fields(1))
  then have e: "m mod 2 ^ 16 = (if odd (m div 2 ^ 15) then 2 ^ 15 else 0) + m mod 2 ^ 15"
    by (simp only: add_left_cancel)
  show ?thesis unfolding e by (rule guard_sticky_zero [OF _ split_fields(2)]) simp
qed

lemma uint_increment:
  assumes "uint (d :: u32) = (if sg then 1 else 0) * 2 ^ 15 + q" "0 \<le> q" "q < 0x7F80"
  shows "uint (if c then d + 1 else d) = (if sg then 1 else 0) * 2 ^ 15 + (q + (if c then 1 else 0))"
  using assms by (cases c; cases sg) (simp_all add: uint_word_ariths)

lemma narrow_fields:
  assumes "uint (w :: u32) = (if sg then 1 else 0) * 2 ^ 15 + M" "0 \<le> M" "M \<le> 0x7F80"
  shows "take_bit 16 (uint w) = (if sg then 1 else 0) * 2 ^ 15 + M"
    and "((if sg then 1 else 0) * 2 ^ 15 + M) mod 2 ^ 15 = M"
    and "odd (((if sg then 1 else 0) * 2 ^ 15 + M) div 2 ^ 15) = sg"
    and "uint w div 2 ^ 7 mod 2 ^ 8 = M div 2 ^ 7"
proof -
  have M: "M < 32768" "M < 65536" "M div 128 < 256" "0 \<le> M div 128"
    using assms(2,3) by (simp_all add: pos_imp_zdiv_nonneg_iff)
  have d: "(32768 + M) div 128 = 256 + M div 128" by (simp add: div_plus_div_distrib_dvd_left)
  show "take_bit 16 (uint w) = (if sg then 1 else 0) * 2 ^ 15 + M"
    unfolding assms(1) take_bit_eq_mod using assms(2) M(1,2) by (cases sg) (simp_all add: mod_pos_pos_trivial)
  show "((if sg then 1 else 0) * 2 ^ 15 + M) mod 2 ^ 15 = M"
    using assms(2) M(1) by (cases sg) (simp_all add: mod_pos_pos_trivial)
  show "odd (((if sg then 1 else 0) * 2 ^ 15 + M) div 2 ^ 15) = sg"
    using assms(2) M(1) by (cases sg) (simp_all add: div_add_self1 div_pos_pos_trivial)
  show "uint w div 2 ^ 7 mod 2 ^ 8 = M div 2 ^ 7"
    unfolding assms(1) using M(3,4) d by (cases sg) (simp_all add: mod_pos_pos_trivial)
qed

lemma increment_bounds:
  assumes "M = q + (if c then 1 else 0)" "0 \<le> q" "q < (0x7F80 :: int)"
  shows "0 \<le> M" "M \<le> 0x7F80" "M = 0x7F80 \<Longrightarrow> c"
  using assms by (cases c; simp)+

lemma overflow_field: "0 \<le> M \<Longrightarrow> M \<le> 0x7F80 \<Longrightarrow> (M div 2 ^ 7 = 255) = (M = (0x7F80 :: int))"
  by (auto simp: algebra_simps)

lemma uint_narrow16: "uint (ucast (w :: u32) :: u16) = take_bit 16 (uint w)"
  by (simp add: unsigned_ucast_eq)

lemma conj_collapse: "R \<Longrightarrow> (Q \<Longrightarrow> P) \<Longrightarrow> (P \<and> Q \<and> R) = Q"
  by blast

text \<open>The fields the code reads, in terms of the sign and the magnitude.\<close>

lemma sign_magnitude:
  "uint (bits :: u32) = (if bit bits 31 then 1 else 0) * 2 ^ 31 + mag32 bits" "0 \<le> mag32 bits"
proof -
  let ?b = "uint bits" and ?S = "if bit bits 31 then 1 else 0 :: int"
  have "?b div 2 ^ 31 < 2" "0 \<le> ?b div 2 ^ 31" using uint_bounded [of bits] by (simp_all add: pos_imp_zdiv_nonneg_iff)
  then have "?b div 2 ^ 31 = 0 \<or> ?b div 2 ^ 31 = 1" by linarith
  then have "?b div 2 ^ 31 = ?S" by (auto simp: bit_uint_div [of bits 31])
  then show "?b = ?S * 2 ^ 31 + mag32 bits" using div_mult_mod_eq [of ?b "2 ^ 31"] by (simp add: mag32_def)
qed (simp add: mag32_def)

lemma magnitude_fields:
  shows "uint (bits :: u32) div 2 ^ 16 = (if bit bits 31 then 1 else 0) * 2 ^ 15 + mag32 bits div 2 ^ 16"
    and "bit bits 16 = odd (mag32 bits div 2 ^ 16)" "bit bits 15 = odd (mag32 bits div 2 ^ 15)"
    and "(bits AND 0x7FFF \<noteq> 0) = (mag32 bits mod 2 ^ 15 \<noteq> 0)"
proof -
  let ?b = "uint bits" and ?m = "mag32 bits" and ?S = "if bit bits 31 then 1 else 0 :: int"
  note b = sign_magnitude [of bits]
  show q: "?b div 2 ^ 16 = ?S * 2 ^ 15 + ?m div 2 ^ 16" using b(1) by (cases "bit bits 31") simp_all
  have g: "?b div 2 ^ 15 = ?S * 2 ^ 16 + ?m div 2 ^ 15" using b(1) by (cases "bit bits 31") simp_all
  have t: "?b mod 2 ^ 15 = ?m mod 2 ^ 15"
  proof -
    have "(2147483648 + m) mod 32768 = m mod (32768 :: int)" for m
      using mod_mult_self3 [of 65536 32768 m] by simp
    then show ?thesis using b(1) by (cases "bit bits 31") simp_all
  qed
  show "bit bits 16 = odd (?m div 2 ^ 16)" "bit bits 15 = odd (?m div 2 ^ 15)" "(bits AND 0x7FFF \<noteq> 0) = (?m mod 2 ^ 15 \<noteq> 0)"
    unfolding bit_uint_div [of bits 16] bit_uint_div [of bits 15] sticky_bits q g t by simp_all
qed

lemma finite_exponent:
  assumes "mag32 bits < 0x7F800000"
  shows "drop_bit 23 bits AND 0xFF \<noteq> 0xFF"
proof -
  let ?b = "uint bits" and ?m = "mag32 bits" and ?S = "if bit bits 31 then 1 else 0 :: int"
  have "?b div 2 ^ 23 = ?S * 2 ^ 8 + ?m div 2 ^ 23" using sign_magnitude(1) [of bits] by (cases "bit bits 31") simp_all
  moreover have "0 \<le> ?m div 2 ^ 23" "?m div 2 ^ 23 < 255"
    using assms sign_magnitude(2) [of bits] by (simp_all add: pos_imp_zdiv_nonneg_iff)
  ultimately have "?b div 2 ^ 23 mod 2 ^ 8 = ?m div 2 ^ 23" by (cases "bit bits 31") simp_all
  then show ?thesis unfolding exp32_field using assms by simp
qed

text \<open>The function computes the rounded magnitude, keeps the sign and reports the overflow.\<close>

lemma RoundBFloat16_magnitude:
  assumes fin: "mag32 bits < 0x7F800000" and r: "RoundBFloat16 bits inst_rm fp flags = (r, fl)"
  shows "bit r 15 = bit bits 31"
    and "mag16 r = bf16_round (effective_rm inst_rm fp) (bit bits 31) (mag32 bits)"
    and "fl = flags \<union> (if mag32 bits mod 2 ^ 16 = 0 then {} else {Inexact}) \<union> (if mag16 r = 0x7F80 then {Overflow} else {})"
proof -
  let ?b = "uint bits" and ?m = "mag32 bits" and ?rm = "effective_rm inst_rm fp"
  let ?S = "if bit bits 31 then 1 else 0 :: int"
  note b = sign_magnitude [of bits] and q = magnitude_fields(1) [of bits] and f = magnitude_fields(2-4) [of bits]
  have m: "?m div 2 ^ 16 < 0x7F80" "0 \<le> ?m div 2 ^ 16" using fin b(2) by simp_all
  let ?inc = "(odd (?m div 2 ^ 15) \<or> ?m mod 2 ^ 15 \<noteq> 0)
      \<and> round_increment ?rm (bit bits 31) (odd (?m div 2 ^ 16)) (odd (?m div 2 ^ 15)) (?m mod 2 ^ 15 \<noteq> 0)"
  let ?M = "bf16_round ?rm (bit bits 31) ?m"
  let ?res = "if ?inc then drop_bit 16 bits + 1 else drop_bit 16 bits"
  have M: "?M = ?m div 2 ^ 16 + (if ?inc then 1 else 0)" by (simp only: bf16_round_def)
  note Mb = increment_bounds [OF M m(2,1)]
  have res: "uint ?res = ?S * 2 ^ 15 + ?M"
  proof -
    have "uint (drop_bit 16 bits) = ?S * 2 ^ 15 + ?m div 2 ^ 16" by (simp only: uint_drop_bit_div q)
    then show ?thesis unfolding M by (rule uint_increment [OF _ m(2,1)])
  qed
  note ex = finite_exponent [OF fin]
  have ov: "(?res AND 0x7F80 = 0x7F80) = (?M = 0x7F80)"
  proof -
    have "uint ?res div 2 ^ 7 mod 2 ^ 8 = ?M div 2 ^ 7" by (rule narrow_fields(4) [OF res Mb(1,2)])
    then show ?thesis unfolding exp16_ones by (simp only: overflow_field [OF Mb(1,2)])
  qed
  let ?fl1 = "if odd (?m div 2 ^ 15) \<or> ?m mod 2 ^ 15 \<noteq> 0 then insert Inexact flags else flags"
  have "RoundBFloat16 bits inst_rm fp flags = (ucast ?res,
      if ?inc \<and> ?res AND 0x7F80 = 0x7F80 \<and> drop_bit 23 bits AND 0xFF \<noteq> 0xFF then insert Overflow (insert Inexact ?fl1) else ?fl1)"
    by (simp only: RoundBFloat16_def Let_def field_odd f)
  then have rr: "(r, fl) = (ucast ?res, if ?inc \<and> ?res AND 0x7F80 = 0x7F80 \<and> drop_bit 23 bits AND 0xFF \<noteq> 0xFF
      then insert Overflow (insert Inexact ?fl1) else ?fl1)"
    using r by (rule trans [OF sym, rotated])
  have c: "(?inc \<and> ?res AND 0x7F80 = 0x7F80 \<and> drop_bit 23 bits AND 0xFF \<noteq> 0xFF) = (?M = 0x7F80)"
    unfolding ov by (rule conj_collapse [OF ex Mb(3)])
  have r': "r = ucast ?res" "fl = (if ?M = 0x7F80 then insert Overflow (insert Inexact ?fl1) else ?fl1)"
    using rr unfolding c prod.inject by (rule conjunct1, rule conjunct2)
  have ur: "uint r = ?S * 2 ^ 15 + ?M"
  proof -
    have "uint r = take_bit 16 (uint ?res)" unfolding r'(1) by (rule uint_narrow16)
    then show ?thesis unfolding narrow_fields(1) [OF res Mb(1,2)] .
  qed
  show m16: "mag16 r = ?M" unfolding mag16_def ur by (rule narrow_fields(2) [OF res Mb(1,2)])
  show "bit r 15 = bit bits 31" unfolding bit_uint_div [of r 15] ur by (rule narrow_fields(3) [OF res Mb(1,2)])
  have "?M = 0x7F80 \<Longrightarrow> odd (?m div 2 ^ 15) \<or> ?m mod 2 ^ 15 \<noteq> 0" by (rule conjunct1 [OF Mb(3)])
  then show "fl = flags \<union> (if ?m mod 2 ^ 16 = 0 then {} else {Inexact}) \<union> (if mag16 r = 0x7F80 then {Overflow} else {})"
    unfolding r'(2) m16 mod16_zero [of ?m] by (cases "?M = 0x7F80") auto
qed

text \<open>Property C4. The base rounding function rounds every finite binary32 pattern correctly to
  bfloat16 in each rounding mode (nearest-even, to zero, down, up, nearest away), keeps the sign,
  and raises inexact exactly when bits are lost and overflow exactly when the result is infinite.\<close>

theorem RoundBFloat16_rounds:
  assumes fin: "mag32 bits < 0x7F800000" and r: "RoundBFloat16 bits inst_rm fp flags = (r, fl)"
  shows "bit r 15 = bit bits 31 \<and> rounds_to (effective_rm inst_rm fp) (bit bits 31) (mag32 bits) (mag16 r)
    \<and> fl = flags \<union> (if mag32 bits mod 2 ^ 16 = 0 then {} else {Inexact}) \<union> (if mag16 r = 0x7F80 then {Overflow} else {})"
  unfolding RoundBFloat16_magnitude(1,2) [OF assms] using RoundBFloat16_magnitude(3) [OF assms]
  by (simp only: bf16_round_correct RoundBFloat16_magnitude(2) [OF assms] simp_thms)

subsection \<open>Agreement of the implementations\<close>

lemma sticky_mask: "(push_bit 15 1 - 1 :: u32) = 0x7FFF"
  by simp

lemma exp_mask: "drop_bit 23 ((b :: u32) AND 0x7F800000) = drop_bit 23 b AND 0xFF"
proof -
  have "(0x7F800000 :: u32) = push_bit 23 0xFF" by simp
  then show ?thesis by (simp only: drop_bit_and) simp
qed

lemma inexact_bits: "((bits :: u32) AND 0xFFFF \<noteq> 0) = (bit bits 15 \<or> bits AND 0x7FFF \<noteq> 0)"
  using low_mask [of bits 16] mod16_zero [of "uint bits"] sticky_bits [of bits] bit_uint_div [of bits 15]
  by (simp add: mask_eq_exp_minus_1)

lemma field_zero: "((w :: 'a::len word) AND push_bit k (mask n) = 0) = (drop_bit k w AND mask n = 0)"
proof
  assume "w AND push_bit k (mask n) = 0"
  then have "drop_bit k (w AND push_bit k (mask n)) = 0" by simp
  then show "drop_bit k w AND mask n = 0"
    by (simp add: bit_eq_iff bit_simps) (metis add.commute bit_imp_le_length)
next
  assume "drop_bit k w AND mask n = 0"
  then show "w AND push_bit k (mask n) = 0"
    by (auto simp: bit_eq_iff bit_simps)
qed

lemma narrow_exp_zero: "((ucast (w :: u32) :: u16) AND 0x7F80 = 0) = (w AND 0x7F80 = 0)"
proof -
  have u: "((ucast w :: u16) AND 0x7F80 = 0) = (drop_bit 7 (ucast w :: u16) AND mask 8 = 0)"
    using field_zero [of "ucast w :: u16" 7 8] by (simp add: mask_eq_exp_minus_1)
  have v: "(w AND 0x7F80 = 0) = (drop_bit 7 w AND mask 8 = 0)"
    using field_zero [of w 7 8] by (simp add: mask_eq_exp_minus_1)
  have "uint (drop_bit 7 (ucast w :: u16) AND mask 8) = uint (drop_bit 7 w AND mask 8)"
    by (rule bit_eqI) (auto simp: bit_simps)
  then show ?thesis unfolding u v by (simp only: word_uint_eq_iff unsigned_0)
qed

text \<open>The rounding of the M3 implementation is that of the base simulator; it differs
  only in the flags, where it also raises underflow for an inexact result with a zero exponent
  field.\<close>

theorem m3_rounding_agrees:
  "m3_RoundBFloat16 bits rm fp flags =
     (let (r, fl) = RoundBFloat16 bits rm fp flags
      in (r, if bits AND 0xFFFF \<noteq> 0 \<and> r AND 0x7F80 = 0 then insert Underflow fl else fl))"
  unfolding m3_RoundBFloat16_def RoundBFloat16_def Let_def field_odd sticky_mask exp_mask inexact_bits
    prod.case narrow_exp_zero ..

lemma nan_fields: "((b :: u32) AND 0x7F800000 = 0x7F800000) = (drop_bit 23 b AND 0xFF = 0xFF)"
proof -
  have "(b AND 0x7F800000 = 0x7F800000) = (uint b div 2 ^ 23 mod 2 ^ 8 = 255)"
    using field_ones [of 23 8 b] by (simp add: mask_eq_exp_minus_1)
  then show ?thesis by (simp add: exp32_field)
qed








lemma widen_dist: "push_bit 16 (ucast (x :: u16)) AND push_bit 16 (ucast m) = (push_bit 16 (ucast (x AND m)) :: u32)"
  by (rule bit_word_eqI) (auto simp: bit_simps)

lemma widen_and: "(push_bit 16 (ucast (x :: u16)) AND (push_bit 16 (ucast m) :: u32) = 0) = (x AND m = 0)"
proof -
  note widen_dist [of x m]
  moreover have "uint (push_bit 16 (ucast (y :: u16)) :: u32) = uint y * 2 ^ 16" for y
  proof -
    have "uint (push_bit 16 (ucast y) :: u32) = take_bit 32 (push_bit 16 (uint y))"
      by (simp add: unsigned_push_bit_eq unsigned_ucast_eq take_bit_push_bit take_bit_int_eq_self [OF uint_nonnegative uint_bounded])
    also have "\<dots> = uint y * 2 ^ 16"
      using uint_bounded [of y] by (simp add: push_bit_eq_mult take_bit_int_eq_self)
    finally show ?thesis .
  qed
  ultimately have "uint (push_bit 16 (ucast x) AND (push_bit 16 (ucast m) :: u32)) = uint (x AND m) * 2 ^ 16" by (simp only:)
  then show ?thesis by (simp add: uint_0_iff [symmetric] del: uint_0_iff)
qed
lemma narrow_widen: "ucast (drop_bit 16 (push_bit 16 (ucast (x :: u16)) :: u32)) = x"
  by (rule bit_word_eqI) (auto simp: bit_simps)

lemma narrow16: "ucast (ucast (x :: u16) :: u32) = x"
  by (rule bit_word_eqI) (auto simp: bit_simps)

lemma widen_eq: "(push_bit 16 (ucast (x :: u16)) = (push_bit 16 (ucast m) :: u32)) = (x = m)"
  by (metis narrow_widen)

lemma widen_nan:
  "f32_IsNaN (push_bit 16 (ucast x)) = BF16_IsNaN x" "f32_IsSNaN (push_bit 16 (ucast x)) = BF16_IsSNaN x"
proof -
  let ?w = "\<lambda>x :: u16. push_bit 16 (ucast x) :: u32"
  have e: "(?w x AND 0x7F800000 = 0x7F800000) = (x AND 0x7F80 = 0x7F80)"
  proof -
    have "?w x AND 0x7F800000 = ?w (x AND 0x7F80)" using widen_dist [of x "0x7F80"] by simp
    moreover have "(0x7F800000 :: u32) = ?w 0x7F80" by simp
    ultimately show ?thesis by (simp only: widen_eq)
  qed
  have q: "(?w x AND 0x00400000 = 0) = (x AND 0x40 = 0)" using widen_and [of x "0x40"] by simp
  have m: "(?w x AND 0x007FFFFF = 0) = (x AND 0x7F = 0)"
  proof -
    have "?w x AND 0x007FFFFF = ?w x AND 0x007F0000"
    proof (rule bit_word_eqI)
      fix n assume n: "n < LENGTH(32)"
      have "bit (0x007FFFFF :: u32) n = (n < 23)" using bit_mask_iff [of 23 n, where 'a = u32] n
        by (auto simp: mask_eq_exp_minus_1)
      moreover have "bit (0x007F0000 :: u32) n = (16 \<le> n \<and> n < 23)"
        using bit_push_bit_iff [of 16 "mask 7 :: u32" n] bit_mask_iff [of 7 "n - 16", where 'a = u32] n
        by (auto simp: mask_eq_exp_minus_1)
      ultimately show "bit (?w x AND 0x007FFFFF) n = bit (?w x AND 0x007F0000) n"
        by (auto simp: bit_simps)
    qed
    then show ?thesis using widen_and [of x "0x7F"] by simp
  qed
  show "f32_IsNaN (?w x) = BF16_IsNaN x" "f32_IsSNaN (?w x) = BF16_IsSNaN x"
    unfolding f32_IsNaN_def f32_IsSNaN_def BF16_IsNaN_def BF16_IsSNaN_def e q m by simp_all
qed

text \<open>Widening a bfloat16 value to binary32 and narrowing it back gives the value, exactly
  and without flags, in every rounding mode; NaNs become the canonical NaN and only a signalling
  NaN raises invalid.\<close>

theorem widen_narrow_roundtrip:
  "m3_ConvertF32ToBF16 (ConvertBF16ToF32 x) rm fp {} =
     (if BF16_IsNaN x then (0x7FC0, if BF16_IsSNaN x then {InvalidOp} else {}) else (x, {}))"
proof -
  let ?b = "push_bit 16 (ucast x) :: u32"
  have bits: "bit ?b 15 = False" "?b AND 0x7FFF = 0"
  proof -
    show "bit ?b 15 = False" by (simp add: bit_simps)
    have "?b AND mask 15 = 0" by (rule bit_word_eqI) (simp add: bit_simps)
    then show "?b AND 0x7FFF = 0" by (simp add: mask_eq_exp_minus_1)
  qed
  have up: "drop_bit 16 ?b = ucast x"
    by (rule bit_word_eqI) (auto simp: bit_simps dest: bit_imp_le_length)
  show ?thesis
    by (simp add: m3_ConvertF32ToBF16_def ConvertBF16ToF32_def widen_nan m3_RoundBFloat16_def Let_def field_odd bits up
        narrow16)
qed

subsection \<open>Masked vector conversion\<close>

lemma vcvt_step_flush:
  assumes g: "\<forall>x f. conv x f = (g x, f \<union> h x)"
  shows "case vcvt_step conv m n src k (buf, vregs, flags) of (buf', vregs', flags') \<Rightarrow>
    flush_buffer buf' vregs' = (if mask_bit m k
      then (flush_buffer buf vregs)(k div n := (flush_buffer buf vregs (k div n))[k mod n := g (src k)])
      else flush_buffer buf vregs)
    \<and> flags' = (if mask_bit m k then flags \<union> h (src k) else flags)"
  by (cases buf) (auto simp: vcvt_step_def flush_buffer_def g Let_def)

lemma vcvt_loop_elements:
  assumes g: "\<forall>x f. conv x f = (g x, f \<union> h x)" and n: "0 < n" and len: "\<forall>r. length (vregs r) = n"
    and le: "vstart \<le> vl"
  shows "case fold (vcvt_step conv m n src) [vstart..<vl] (None, vregs, {}) of (buf', vregs', flags') \<Rightarrow>
    (\<forall>r. length (flush_buffer buf' vregs' r) = n)
    \<and> (\<forall>r. \<forall>i < n. flush_buffer buf' vregs' r ! i =
        (if vstart \<le> r * n + i \<and> r * n + i < vl \<and> mask_bit m (r * n + i) then g (src (r * n + i)) else vregs r ! i))
    \<and> flags' = (\<Union>k \<in> {k \<in> {vstart..<vl}. mask_bit m k}. h (src k))"
  using le
proof (induction vl rule: dec_induct)
  case base
  then show ?case using len by (auto simp: flush_buffer_def)
next
  case (step k)
  obtain buf' vregs' flags' where e: "fold (vcvt_step conv m n src) [vstart..<k] (None, vregs, {}) = (buf', vregs', flags')"
    by (metis prod_cases3)
  let ?f = "flush_buffer buf' vregs'"
  have IH: "\<forall>r. length (?f r) = n" "\<And>r i. i < n \<Longrightarrow> ?f r ! i =
        (if vstart \<le> r * n + i \<and> r * n + i < k \<and> mask_bit m (r * n + i) then g (src (r * n + i)) else vregs r ! i)"
      "flags' = (\<Union>k \<in> {k' \<in> {vstart..<k}. mask_bit m k'}. h (src k))"
    using step.IH unfolding e by simp_all
  obtain b v fl where s: "vcvt_step conv m n src k (buf', vregs', flags') = (b, v, fl)" by (metis prod_cases3)
  have f: "fold (vcvt_step conv m n src) [vstart..<Suc k] (None, vregs, {}) = (b, v, fl)"
    using step.hyps e s by simp
  have st: "flush_buffer b v = (if mask_bit m k then ?f(k div n := (?f (k div n))[k mod n := g (src k)]) else ?f)"
    "fl = (if mask_bit m k then flags' \<union> h (src k) else flags')"
    using vcvt_step_flush [OF g, where m = m and n = n and src = src and k = k and buf = buf' and vregs = vregs' and flags = flags'] unfolding s by simp_all
  have idx: "(r = k div n \<and> i = k mod n) = (r * n + i = k)" if "i < n" for r i
    using that by (auto simp: div_mult_mod_eq)
  have set: "{k' \<in> {vstart..<Suc k}. mask_bit m k'} = (if mask_bit m k then insert k {k' \<in> {vstart..<k}. mask_bit m k'}
      else {k' \<in> {vstart..<k}. mask_bit m k'})"
    using step.hyps by (auto simp: less_Suc_eq)
  have fl: "fl = (\<Union>k \<in> {k' \<in> {vstart..<Suc k}. mask_bit m k'}. h (src k))"
    unfolding st(2) set IH(3) by auto
  have el: "flush_buffer b v r ! i = (if vstart \<le> r * n + i \<and> r * n + i < Suc k \<and> mask_bit m (r * n + i)
      then g (src (r * n + i)) else vregs r ! i)" if i: "i < n" for r i
  proof (cases "r * n + i = k")
    case True
    then have "r = k div n" "i = k mod n" using idx [OF i] by auto
    then show ?thesis using st(1) IH(1,2) i True step.hyps by simp
  next
    case False
    then have "\<not> (r = k div n \<and> i = k mod n)" using idx [OF i] by blast
    then have "flush_buffer b v r ! i = ?f r ! i" using st(1) by (cases "r = k div n") auto
    then show ?thesis using IH(2) [OF i] False by (auto simp: less_Suc_eq)
  qed
  have ln: "\<forall>r. length (flush_buffer b v r) = n" using st(1) IH(1) by simp
  show ?case unfolding f prod.case using fl el ln by blast
qed

text \<open>Property C37. A masked M3 widening writes exactly the active elements: element \<open>i\<close> of destination
  register \<open>r\<close> becomes the converted source element when its index is in \<open>vstart ..< vl\<close> and its mask
  bit is set, every other element is undisturbed, \<open>vstart\<close> is cleared and the accrued flags are
  those of the active conversions.\<close>

theorem m3_widening_elementwise:
  assumes "m3_Vfwcvtbf16ffv fs mstatus st dst src vm mask_span vreg_bytes vstart vl elem vregs = Completed (vregs', vstart', st')"
    and "4 \<le> vreg_bytes" "\<forall>r. length (vregs r) = vreg_bytes div 4" "vstart \<le> vl"
  shows "(\<forall>r. \<forall>i < vreg_bytes div 4. let k = r * (vreg_bytes div 4) + i in vregs' r ! i =
      (if vstart \<le> k \<and> k < vl \<and> mask_bit (if m3_is_masked vm then Some mask_span else None) k
       then fst (ConvertBF16ToF32Precise (elem k)) else vregs r ! i))
    \<and> vstart' = 0
    \<and> fflags st' = fflags st \<union> (\<Union>k \<in> {k \<in> {vstart..<vl}. mask_bit (if m3_is_masked vm then Some mask_span else None) k}.
        snd (ConvertBF16ToF32Precise (elem k)))"
proof -
  let ?m = "if m3_is_masked vm then Some mask_span else None" and ?n = "vreg_bytes div 4"
  let ?conv = "\<lambda>x flags. let (r, f) = ConvertBF16ToF32Precise x in (r, flags \<union> f)"
  have g: "\<forall>x f. ?conv x f = (fst (ConvertBF16ToF32Precise x), f \<union> snd (ConvertBF16ToF32Precise x))"
    by (simp add: case_prod_unfold Let_def)
  have n: "0 < ?n" using assms(2) by simp
  obtain b v fl where f: "fold (vcvt_step ?conv ?m ?n elem) [vstart..<vl] (None, vregs, {}) = (b, v, fl)"
    by (metis prod_cases3)
  note el = vcvt_loop_elements [OF g n assms(3,4), of ?m elem, unfolded f prod.case]
  have l: "vcvt_loop ?conv ?m ?n vstart vl elem vregs = (flush_buffer b v, fl)"
    unfolding vcvt_loop_def f by simp
  have "vregs' = flush_buffer b v \<and> vstart' = 0 \<and> fflags st' = fflags st \<union> fl"
    using assms(1) by (auto simp only: m3_Vfwcvtbf16ffv_def Let_def [of ?m] l prod.case split: if_splits)
      (auto split: if_splits)
  then show ?thesis using el by (simp add: Let_def)
qed

lemma m3_round_flags:
  "m3_RoundBFloat16 b rm fp (f \<union> g) = (fst (m3_RoundBFloat16 b rm fp g), f \<union> snd (m3_RoundBFloat16 b rm fp g))"
  by (simp only: m3_RoundBFloat16_def Let_def fst_conv snd_conv if_distrib [of "(\<union>) f"] Un_insert_right)

lemma m3_convert_flags:
  "m3_ConvertF32ToBF16 b rm fp f = (fst (m3_ConvertF32ToBF16 b rm fp {}), f \<union> snd (m3_ConvertF32ToBF16 b rm fp {}))"
  using m3_round_flags [of b rm fp f "{}"] by (simp add: m3_ConvertF32ToBF16_def)

text \<open>A masked M3 narrowing writes exactly the active elements, each converted in the current
  rounding mode whatever flags the others raised; \<open>vstart\<close> is cleared and the accrued flags are
  those of the active conversions.\<close>

theorem m3_narrowing_elementwise:
  assumes "m3_Vfncvtbf16ffw fs mstatus st dst src vm mask_span vreg_bytes vstart vl elem vregs = Completed (vregs', vstart', st')"
    and "2 \<le> vreg_bytes" "\<forall>r. length (vregs r) = vreg_bytes div 2" "vstart \<le> vl"
  shows "(\<forall>r. \<forall>i < vreg_bytes div 2. let k = r * (vreg_bytes div 2) + i in vregs' r ! i =
      (if vstart \<le> k \<and> k < vl \<and> mask_bit (if m3_is_masked vm then Some mask_span else None) k
       then fst (m3_ConvertF32ToBF16 (elem k) (GetRoundingMode st) (Some st) {}) else vregs r ! i))
    \<and> vstart' = 0
    \<and> fflags st' = fflags st \<union> (\<Union>k \<in> {k \<in> {vstart..<vl}. mask_bit (if m3_is_masked vm then Some mask_span else None) k}.
        snd (m3_ConvertF32ToBF16 (elem k) (GetRoundingMode st) (Some st) {}))"
proof -
  let ?m = "if m3_is_masked vm then Some mask_span else None" and ?n = "vreg_bytes div 2"
  let ?conv = "\<lambda>x flags. m3_ConvertF32ToBF16 x (GetRoundingMode st) (Some st) flags"
  have g: "\<forall>x f. ?conv x f = (fst (?conv x {}), f \<union> snd (?conv x {}))"
    using m3_convert_flags by blast
  have n: "0 < ?n" using assms(2) by simp
  obtain b v fl where f: "fold (vcvt_step ?conv ?m ?n elem) [vstart..<vl] (None, vregs, {}) = (b, v, fl)"
    by (metis prod_cases3)
  note el = vcvt_loop_elements [OF g n assms(3,4), of ?m elem, unfolded f prod.case]
  have l: "vcvt_loop ?conv ?m ?n vstart vl elem vregs = (flush_buffer b v, fl)"
    unfolding vcvt_loop_def f by simp
  have "vregs' = flush_buffer b v \<and> vstart' = 0 \<and> fflags st' = fflags st \<union> fl"
    using assms(1) by (auto simp only: m3_Vfncvtbf16ffw_def Let_def [of ?m] l prod.case split: if_splits)
      (auto split: if_splits)
  then show ?thesis using el by (simp add: Let_def)
qed

text \<open>A vector state for the witnesses: 32-byte registers, elements 1.0, 2.0 and a signalling NaN.\<close>

definition sample_fp :: fp_state where
  "sample_fp = \<lparr>GetRoundingMode = 0, rounding_mode_valid = True, frm = 0, fflags = {}\<rparr>"

lemma m3_widening_elementwise_witness:
  "\<exists>v st'. m3_Vfwcvtbf16ffv 1 0x600 sample_fp [''v8''] [''v4''] (Some ''v0'') [0x2] 32 0 3
        (\<lambda>k. [0x3F80, 0x7F81, 0x4000] ! k) (\<lambda>_. replicate 8 7) = Completed (v, 0, st')
      \<and> v 0 ! 0 = 7 \<and> v 0 ! 1 = 0x7FC00000 \<and> v 0 ! 2 = 7 \<and> InvalidOp \<in> fflags st'"
proof -
  obtain v vs st' where c: "m3_Vfwcvtbf16ffv 1 0x600 sample_fp [''v8''] [''v4''] (Some ''v0'') [0x2] 32 0 3
        (\<lambda>k. [0x3F80, 0x7F81, 0x4000] ! k) (\<lambda>_. replicate 8 7) = Completed (v, vs, st')"
    unfolding m3_Vfwcvtbf16ffv_def m3_overlaps_def by (simp add: case_prod_unfold Let_def)
  note E = m3_widening_elementwise [OF c]
  have m: "m3_is_masked (Some ''v0'')" by code_simp
  have "mask_bit (Some [0x2]) 0 = False" "mask_bit (Some [0x2]) 1 = True" "mask_bit (Some [0x2]) 2 = False" by code_simp+
  moreover have "fst (ConvertBF16ToF32Precise 0x7F81) = 0x7FC00000" "snd (ConvertBF16ToF32Precise 0x7F81) = {InvalidOp}"
    by code_simp+
  moreover have "v 0 ! 0 = (if mask_bit (Some [0x2]) 0 then fst (ConvertBF16ToF32Precise 0x3F80) else 7)"
    "v 0 ! 1 = (if mask_bit (Some [0x2]) 1 then fst (ConvertBF16ToF32Precise 0x7F81) else 7)"
    "v 0 ! 2 = (if mask_bit (Some [0x2]) 2 then fst (ConvertBF16ToF32Precise 0x4000) else 7)" "vs = 0"
    using E m by (auto simp: Let_def numeral_2_eq_2)
  moreover have "InvalidOp \<in> fflags st'"
  proof -
    have "(1 :: nat) \<in> {k \<in> {0..<3}. mask_bit (Some [0x2]) k}" using \<open>mask_bit (Some [0x2]) 1 = True\<close> by simp
    then show ?thesis using E m \<open>snd (ConvertBF16ToF32Precise 0x7F81) = {InvalidOp}\<close> by (force simp: Let_def)
  qed
  ultimately show ?thesis using c by simp
qed

lemma m3_narrowing_elementwise_witness:
  "\<exists>v st'. m3_Vfncvtbf16ffw 1 0x600 sample_fp [''v8''] [''v4''] (Some ''__VectorTrue__'') [] 32 1 2
        (\<lambda>k. [0x3F800000, 0x3F818000] ! k) (\<lambda>_. replicate 16 7) = Completed (v, 0, st')
      \<and> v 0 ! 0 = 7 \<and> v 0 ! 1 = 0x3F82"
proof -
  obtain v vs st' where c: "m3_Vfncvtbf16ffw 1 0x600 sample_fp [''v8''] [''v4''] (Some ''__VectorTrue__'') [] 32 1 2
        (\<lambda>k. [0x3F800000, 0x3F818000] ! k) (\<lambda>_. replicate 16 7) = Completed (v, vs, st')"
    unfolding m3_Vfncvtbf16ffw_def m3_overlaps_def sample_fp_def by (simp add: case_prod_unfold Let_def)
  note E = m3_narrowing_elementwise [OF c]
  have m: "m3_is_masked (Some ''__VectorTrue__'') = False" by code_simp
  moreover have "mask_bit None 1 = True" by code_simp
  moreover have "fst (m3_ConvertF32ToBF16 0x3F818000 (GetRoundingMode sample_fp) (Some sample_fp) {}) = 0x3F82"
    by code_simp
  ultimately have "v 0 ! 0 = 7 \<and> v 0 ! 1 = 0x3F82 \<and> vs = 0" using E by (auto simp: Let_def)
  then show ?thesis using c by auto
qed


lemma RoundBFloat16_rounds_witness:
  "RoundBFloat16 0x7F7FFFFF 0 None {} = (0x7F80, {Inexact, Overflow})
   \<and> rounds_to 0 False 0x7F7FFFFF 0x7F80 \<and> rounds_to 0 False 0x3F818000 0x3F82"
proof -
  have r: "RoundBFloat16 0x7F7FFFFF 0 None {} = (0x7F80, {Inexact, Overflow})" by code_simp
  have s: "RoundBFloat16 0x3F818000 0 None {} = (0x3F82, {Inexact})" by code_simp
  have m: "mag32 0x7F7FFFFF = 0x7F7FFFFF" "mag32 0x3F818000 = 0x3F818000" "mag16 0x7F80 = 0x7F80" "mag16 0x3F82 = 0x3F82"
    by code_simp+
  have b: "bit (0x7F7FFFFF :: u32) 31 = False" "bit (0x3F818000 :: u32) 31 = False" by code_simp+
  have e: "effective_rm 0 None = 0" by code_simp
  show ?thesis using RoundBFloat16_rounds [OF _ r] RoundBFloat16_rounds [OF _ s] r unfolding m b e by simp
qed

end
