(* ===== verification/NPU_State.thy ===== *)
theory NPU_State
  imports NPU_Prelude
begin

text \<open>
  The architectural state the CoralNPU simulator adds to MPACT's RISC-V state
  (\<open>sim/coralnpu_state.h\<close>, \<open>sim/coralnpu_state.cc\<close>) and the instructions that only touch it
  (\<open>sim/coralnpu_instructions.cc\<close>): termination, logging and the uncached stores.

  MPACT's \<open>Trap\<close> is recorded: \<open>traps\<close> lists the calls in order. Output to \<open>std::cout\<close> is appended to
  \<open>cout\<close>, the complaints on \<open>std::cerr\<close> are counted.
\<close>

unbundle bit_operations_syntax

subsection \<open>The state\<close>

datatype log_arg = LogWord u32 | LogString string

record trap =
  is_interrupt :: bool
  trap_value :: u64
  exception_code :: u64
  epc :: u64

record CoralNPUState =
  vector_length :: u32
  max_physical_address :: u64
  log_args :: "log_arg list"
  clog_string :: string
  acc_register :: "u32 list list"
  depthwise_acc_register :: "u32 list"
  misa :: u64
  kisa :: u64
  cout :: string
  cerr_count :: nat
  traps :: "trap list"

definition kMemMask :: u64 where
  "kMemMask = 0x7fffffff"

definition kCoralnpuMaxMemoryAddress :: u64 where
  "kCoralnpuMaxMemoryAddress = 0x3fffff"

definition kVectorLengthInBits :: u32 where
  "kVectorLengthInBits = 256"

text \<open>
  The constructor. \<open>depthwise_acc_register_\<close> is not initialised by it, so its contents are an
  argument.
\<close>

definition CoralNPUState_init :: "u64 \<Rightarrow> u32 list \<Rightarrow> CoralNPUState" where
  "CoralNPUState_init max_address dwacc =
     \<lparr>vector_length = kVectorLengthInBits, max_physical_address = max_address, log_args = [],
      clog_string = [], acc_register = replicate 8 (replicate 8 0), depthwise_acc_register = dwacc,
      misa = 0x4000000000801100, kisa = 0, cout = [], cerr_count = 0, traps = []\<rparr>"

definition Trap :: "bool \<Rightarrow> u64 \<Rightarrow> u64 \<Rightarrow> u64 \<Rightarrow> CoralNPUState \<Rightarrow> CoralNPUState" where
  "Trap interrupt value code pc s = s\<lparr>traps := traps s @
     [\<lparr>is_interrupt = interrupt, trap_value = value, exception_code = code, epc = pc\<rparr>]\<rparr>"

text \<open>\<open>ExceptionCode::kIllegalInstruction\<close> and the breakpoint code that \<open>MPause\<close> passes.\<close>

definition kIllegalInstruction :: u64 where
  "kIllegalInstruction = 2"

text \<open>
  \<open>MPause\<close>: the registered handlers are asked in order until one accepts; each may change the state
  of its owner, the \<open>'e\<close> component. Only if none accepts is a breakpoint trap raised.
\<close>

fun mpause_handlers :: "(u64 option \<Rightarrow> 'e \<Rightarrow> bool \<times> 'e) list \<Rightarrow> u64 option \<Rightarrow> 'e \<Rightarrow> bool \<times> 'e" where
  "mpause_handlers [] inst e = (False, e)"
| "mpause_handlers (h # hs) inst e =
     (let (res, e) = h inst e in if res then (True, e) else mpause_handlers hs inst e)"

definition MPause ::
    "(u64 option \<Rightarrow> 'e \<Rightarrow> bool \<times> 'e) list \<Rightarrow> u64 option \<Rightarrow> CoralNPUState \<times> 'e \<Rightarrow> CoralNPUState \<times> 'e" where
  "MPause on_mpause inst = (\<lambda>(s, e).
     let (res, e) = mpause_handlers on_mpause inst e
     in if res then (s, e)
        else (Trap False 0 3 (case inst of None \<Rightarrow> 0 | Some address \<Rightarrow> address) s, e))"

definition CoralNPUIMpause ::
    "(u64 option \<Rightarrow> 'e \<Rightarrow> bool \<times> 'e) list \<Rightarrow> u64 \<Rightarrow> CoralNPUState \<times> 'e \<Rightarrow> CoralNPUState \<times> 'e" where
  "CoralNPUIMpause on_mpause address = MPause on_mpause (Some address)"

definition CoralNPUIllegalInstruction :: "u64 \<Rightarrow> CoralNPUState \<Rightarrow> CoralNPUState" where
  "CoralNPUIllegalInstruction address s = Trap False 0 kIllegalInstruction address s"

definition CoralNPUNopInstruction :: "CoralNPUState \<Rightarrow> CoralNPUState" where
  "CoralNPUNopInstruction s = s"

subsection \<open>Number formatting\<close>

text \<open>\<open>absl::StrFormat\<close> with \<open>%u\<close>, \<open>%d\<close> and \<open>%x\<close>: digits most significant first, no padding.\<close>

definition digit_char :: "nat \<Rightarrow> char" where
  "digit_char d = (if d < 10 then char_of (48 + d) else char_of (87 + d))"

fun digits :: "nat \<Rightarrow> nat \<Rightarrow> string" where
  "digits base n =
     (if base < 2 \<or> n < base then [digit_char n] else digits base (n div base) @ [digit_char (n mod base)])"

definition StrFormat_u :: "u32 \<Rightarrow> string" where
  "StrFormat_u w = digits 10 (unat w)"

definition StrFormat_d :: "u32 \<Rightarrow> string" where
  "StrFormat_d w = (if sint w < 0 then CHR ''-'' # digits 10 (nat (- sint w)) else digits 10 (nat (sint w)))"

definition StrFormat_x :: "u32 \<Rightarrow> string" where
  "StrFormat_x w = digits 16 (unat w)"

subsection \<open>Logging\<close>

text \<open>
  Errors of the logging code: a failed \<open>CHECK_GT\<close>, running past the terminator of the format
  string, and \<open>std::string::resize(npos)\<close>.
\<close>

datatype log_error = CheckFailed | OutOfBounds | LengthError

text \<open>One directive: the text it appends and whether it was rejected as \<open>incorrect format\<close>.\<close>

definition format_arg :: "log_arg \<Rightarrow> char option \<Rightarrow> string \<times> bool" where
  "format_arg arg c = (case arg of
      LogWord w \<Rightarrow>
        if c = Some CHR ''u'' then (StrFormat_u w, False)
        else if c = Some CHR ''d'' then (StrFormat_d w, False)
        else if c = Some CHR ''x'' then (StrFormat_x w, False)
        else ([], True)
    | LogString t \<Rightarrow> if c = Some CHR ''s'' then (t, False) else ([], True))"

text \<open>
  The loop of \<open>PrintLog\<close> over the characters up to the terminator. A \<open>%\<close> as last character reads the
  terminator as its directive and steps over it.
\<close>

fun print_loop :: "string \<Rightarrow> log_arg list \<Rightarrow> string \<Rightarrow> nat \<Rightarrow> log_error + string \<times> nat" where
  "print_loop [] args log_string errs = Inr (log_string, errs)"
| "print_loop (c # cs) args log_string errs =
     (if c = CHR ''%'' then
        (case args of [] \<Rightarrow> Inl CheckFailed
         | arg # rest \<Rightarrow>
             (case cs of [] \<Rightarrow> Inl OutOfBounds
              | f # cs' \<Rightarrow>
                  let (text, bad) = format_arg arg (Some f)
                  in print_loop cs' rest (log_string @ text) (errs + (if bad then 1 else 0))))
      else print_loop cs args (log_string @ [c]) errs)"

definition PrintLog :: "string \<Rightarrow> CoralNPUState \<Rightarrow> log_error + CoralNPUState" where
  "PrintLog format_string s =
     (case print_loop format_string (log_args s) [] 0 of
        Inl e \<Rightarrow> Inl e
      | Inr (log_string, errs) \<Rightarrow>
          Inr (s\<lparr>cout := cout s @ log_string, cerr_count := cerr_count s + errs, log_args := []\<rparr>))"

definition SetLogArgs :: "log_arg \<Rightarrow> CoralNPUState \<Rightarrow> CoralNPUState" where
  "SetLogArgs data s = s\<lparr>log_args := log_args s @ [data]\<rparr>"

definition WordHasZero :: "u32 \<Rightarrow> bool" where
  "WordHasZero data \<longleftrightarrow> drop_bit 24 data AND 0xff = 0 \<or> drop_bit 16 data AND 0xff = 0
     \<or> drop_bit 8 data AND 0xff = 0 \<or> data AND 0xff = 0"

text \<open>\<open>std::string(reinterpret_cast<char*>(&data), 4)\<close> on a little-endian host.\<close>

definition word_chars :: "u32 \<Rightarrow> string" where
  "word_chars data = map (\<lambda>b. char_of (unat b)) (to_bytes data)"

text \<open>\<open>s.resize(s.find('\0'))\<close>.\<close>

definition trim_at_nul :: "string \<Rightarrow> log_error + string" where
  "trim_at_nul t = (if CHR 0x00 \<in> set t then Inr (takeWhile (\<lambda>c. c \<noteq> CHR 0x00) t) else Inl LengthError)"

text \<open>
  The loop of \<open>CoralNPUStringLoadHelper\<close>; \<open>load\<close> is the four-byte \<open>LoadMemory\<close>. It need not end when
  \<open>max_physical_address\<close> exceeds the range of the 32-bit address, so it is a partial function.
\<close>

partial_function (option) string_load_loop :: "(u32 \<Rightarrow> u32) \<Rightarrow> u64 \<Rightarrow> u32 \<Rightarrow> string \<Rightarrow> string option" where
  "string_load_loop load max_address addr out =
     (let data = load addr; out = out @ word_chars data; addr = addr + 4
      in if \<not> WordHasZero data \<and> ucast addr < max_address then string_load_loop load max_address addr out
         else Some out)"

definition CoralNPUStringLoadHelper ::
    "(u32 \<Rightarrow> u32) \<Rightarrow> u64 \<Rightarrow> u32 \<Rightarrow> string \<Rightarrow> (log_error + string) option" where
  "CoralNPUStringLoadHelper load max_address addr out_string =
     map_option trim_at_nul (string_load_loop load max_address addr out_string)"

text \<open>
  \<open>CoralNPULogInstruction\<close>: \<open>rs\<close> is the source operand. \<open>None\<close> means the string load does not end.
\<close>

definition CoralNPULogInstruction ::
    "(u32 \<Rightarrow> u32) \<Rightarrow> nat \<Rightarrow> u32 \<Rightarrow> CoralNPUState \<Rightarrow> (log_error + CoralNPUState) option" where
  "CoralNPULogInstruction load log_mode rs s =
     (if log_mode = 0 then
        map_option (\<lambda>r. case r of Inl e \<Rightarrow> Inl e | Inr format_string \<Rightarrow> PrintLog format_string s)
          (CoralNPUStringLoadHelper load (max_physical_address s) rs [])
      else if log_mode = 1 then Some (Inr (SetLogArgs (LogWord rs) s))
      else if log_mode = 2 then
        (let text = clog_string s @ word_chars rs in
         if WordHasZero rs then
           (case trim_at_nul text of Inl e \<Rightarrow> Some (Inl e)
            | Inr text \<Rightarrow> Some (Inr ((SetLogArgs (LogString text) s)\<lparr>clog_string := []\<rparr>)))
         else Some (Inr (s\<lparr>clog_string := text\<rparr>)))
      else if log_mode = 3 then
        map_option (\<lambda>r. case r of Inl e \<Rightarrow> Inl e | Inr str_arg \<Rightarrow> Inr (SetLogArgs (LogString str_arg) s))
          (CoralNPUStringLoadHelper load (max_physical_address s) rs [])
      else Some (Inr s))"

subsection \<open>Uncached stores\<close>

text \<open>
  The cache-invalidation bit: addresses are masked only when the configured memory fits the
  hardware.
\<close>

definition mask_address :: "CoralNPUState \<Rightarrow> u32 \<Rightarrow> u32" where
  "mask_address s addr =
     (if max_physical_address s \<le> kCoralnpuMaxMemoryAddress then addr AND ucast kMemMask else addr)"

text \<open>The address and the value \<open>CoralNPUIStore\<close> hands to \<open>StoreMemory\<close>.\<close>

definition CoralNPUIStore :: "u32 \<Rightarrow> u32 \<Rightarrow> u32 \<Rightarrow> CoralNPUState \<Rightarrow> u32 \<times> 't::len word" where
  "CoralNPUIStore base offset value s = (mask_address s (base + offset), ucast value)"

end
