(* ===== verification/NPU_StateProps.thy ===== *)
theory NPU_StateProps
  imports NPU_State
begin

text \<open>
  Properties of the CoralNPU state and its instructions: number formatting round trips, the log
  format interpreter succeeds exactly on well-formed calls, strings survive their trip through
  memory words and through \<open>CLOG\<close> registers, and the string load terminates.
\<close>

unbundle bit_operations_syntax

subsection \<open>Number formatting\<close>

definition digit_value :: "char \<Rightarrow> nat" where
  "digit_value c = (if of_char c < (58 :: nat) then of_char c - 48 else of_char c - 87)"

definition parse_digits :: "nat \<Rightarrow> string \<Rightarrow> nat" where
  "parse_digits base t = foldl (\<lambda>n c. n * base + digit_value c) 0 t"

definition parse_int :: "string \<Rightarrow> int" where
  "parse_int t = (if t \<noteq> [] \<and> hd t = CHR ''-'' then - int (parse_digits 10 (tl t)) else int (parse_digits 10 t))"

lemma digit_value_char: "d < 16 \<Longrightarrow> digit_value (digit_char d) = d"
  by (auto simp: digit_value_def digit_char_def of_char_of)

lemma parse_digits_snoc: "parse_digits base (t @ [c]) = parse_digits base t * base + digit_value c"
  by (simp add: parse_digits_def)

declare digits.simps [simp del]

lemma parse_digits_digits:
  assumes "2 \<le> base" "base \<le> 16"
  shows "parse_digits base (digits base n) = n"
proof (induction n rule: less_induct)
  case (less n)
  show ?case
  proof (cases "n < base")
    case True
    then show ?thesis using assms by (subst digits.simps) (simp add: parse_digits_def digit_value_char)
  next
    case False
    then have "n div base < n" using assms by (intro div_less_dividend) auto
    moreover have "n mod base < 16" using assms by (meson le_trans less_le_trans mod_less_divisor zero_less_numeral)
    ultimately show ?thesis using False assms
      by (subst digits.simps) (simp add: parse_digits_snoc less.IH digit_value_char)
  qed
qed

lemma digits_nonempty: "digits base n \<noteq> []"
  by (subst digits.simps) simp

lemma digits_no_minus:
  assumes "2 \<le> base" "base \<le> 16"
  shows "c \<in> set (digits base n) \<Longrightarrow> c \<noteq> CHR ''-''"
proof (induction n rule: less_induct)
  case (less n)
  have d: "digit_char k \<noteq> CHR ''-''" if "k < 16" for k
  proof
    assume "digit_char k = CHR ''-''"
    then have "(of_char (digit_char k) :: nat) = 45" by simp
    then show False using that by (auto simp: digit_char_def of_char_of split: if_splits)
  qed
  show ?case
  proof (cases "n < base")
    case True
    then have "digits base n = [digit_char n]" by (subst digits.simps) simp
    then show ?thesis using True less.prems assms d by auto
  next
    case False
    then have "n div base < n" using assms by (intro div_less_dividend) auto
    moreover have "n mod base < 16" using assms by (meson le_trans less_le_trans mod_less_divisor zero_less_numeral)
    moreover have "digits base n = digits base (n div base) @ [digit_char (n mod base)]"
      using False assms by (subst digits.simps) simp
    from this have "c \<in> set (digits base (n div base)) \<or> c = digit_char (n mod base)"
      using less.prems by auto
    ultimately show ?thesis using less.IH [of "n div base"] d [of "n mod base"] by (elim disjE) simp_all
  qed
qed

text \<open>The log formats are unambiguous: reading back what \<open>%d\<close>, \<open>%u\<close> and \<open>%x\<close> print gives
  the signed, unsigned and hexadecimal value of the logged register.\<close>

theorem formats_round_trip:
  "parse_int (StrFormat_d w) = sint w \<and> parse_digits 10 (StrFormat_u w) = unat w
   \<and> parse_digits 16 (StrFormat_x w) = unat w"
proof -
  have "hd (digits 10 n) \<noteq> CHR ''-''" for n
    using digits_no_minus [of 10 "hd (digits 10 n)" n] digits_nonempty [of 10 n] by auto
  then show ?thesis
    by (auto simp: StrFormat_d_def StrFormat_u_def StrFormat_x_def parse_int_def parse_digits_digits digits_nonempty)
qed

subsection \<open>The format interpreter\<close>

text \<open>A format string is a sequence of pieces: a literal character, a directive, or a final \<open>%\<close>.\<close>

datatype piece = Literal char | Directive char | Dangling

fun pieces :: "string \<Rightarrow> piece list" where
  "pieces [] = []"
| "pieces [c] = (if c = CHR ''%'' then [Dangling] else [Literal c])"
| "pieces (c # f # cs) = (if c = CHR ''%'' then Directive f # pieces cs else Literal c # pieces (f # cs))"

fun arguments :: "piece list \<Rightarrow> nat" where
  "arguments [] = 0"
| "arguments (Literal c # ps) = arguments ps"
| "arguments (p # ps) = Suc (arguments ps)"

fun render :: "piece list \<Rightarrow> log_arg list \<Rightarrow> string" where
  "render (Literal c # ps) args = c # render ps args"
| "render (Directive f # ps) (a # args) = fst (format_arg a (Some f)) @ render ps args"
| "render _ _ = []"

lemma print_loop_steps:
  "c \<noteq> CHR ''%'' \<Longrightarrow> print_loop (c # cs) args out errs = print_loop cs args (out @ [c]) errs"
  "print_loop (CHR ''%'' # cs) [] out errs = Inl CheckFailed"
  "print_loop [CHR ''%''] (arg # rest) out errs = Inl OutOfBounds"
  "print_loop (CHR ''%'' # f # cs) (arg # rest) out errs = print_loop cs rest (out @ fst (format_arg arg (Some f)))
     (errs + (if snd (format_arg arg (Some f)) then 1 else 0))"
  by (simp_all add: case_prod_unfold Let_def)

lemma print_loop_ok:
  "Dangling \<notin> set (pieces f) \<Longrightarrow> arguments (pieces f) \<le> length args
     \<Longrightarrow> \<exists>errs'. print_loop f args out errs = Inr (out @ render (pieces f) args, errs')"
proof (induction f arbitrary: args out errs rule: pieces.induct)
  case (3 c f cs)
  show ?case
  proof (cases "c = CHR ''%''")
    case True
    then obtain arg rest where "args = arg # rest" using 3(4) by (cases args) auto
    then show ?thesis using 3(1) [OF True, of rest] 3(3,4) True
      by (simp add: print_loop_steps(4) del: print_loop.simps) (metis append.assoc)
  next
    case False
    then show ?thesis using 3(2) [OF False, of args "out @ [c]" errs] 3(3,4)
      by (simp add: print_loop_steps(1) del: print_loop.simps)
  qed
qed (auto split: if_splits)



subsection \<open>Strings in memory words\<close>

lemma WordHasZero_bytes: "WordHasZero w = (0 \<in> set (to_bytes w))"
proof -
  have b: "(drop_bit k w AND 0xff = 0) = (ucast (drop_bit k w) = (0 :: u8))" for k
  proof -
    have "(drop_bit k w AND 0xff = 0) = (take_bit 8 (drop_bit k w) = 0)" by (simp add: take_bit_eq_mask mask_eq_exp_minus_1)
    also have "\<dots> = (ucast (drop_bit k w) = (0 :: u8))"
      by (auto simp: bit_eq_iff bit_simps)
    finally show ?thesis .
  qed
  have "to_bytes w = [ucast w, ucast (drop_bit 8 w), ucast (drop_bit 16 w), ucast (drop_bit 24 w)]"
    by (simp add: to_bytes_def sizeof_def upt_rec)
  then show ?thesis using b [of 0] b [of 8] b [of 16] b [of 24] by (auto simp: WordHasZero_def)
qed

lemma WordHasZero_chars: "WordHasZero w = (CHR 0x00 \<in> set (word_chars w))"
proof -
  have c: "(char_of (unat b) = CHR 0x00) = (b = 0)" for b :: u8
  proof
    assume "char_of (unat b) = CHR 0x00"
    then have "(of_char (char_of (unat b) :: char) :: nat) = 0" by simp
    moreover have "unat b < 256" using unsigned_less [of b] by simp
    ultimately show "b = 0" by (simp add: of_char_of unat_eq_zero)
  qed (simp add: char_of_def)
  then show ?thesis unfolding WordHasZero_bytes word_chars_def set_map image_iff eq_commute [of "CHR 0x00"] by (simp only: c) simp
qed

lemma length_word_chars [simp]: "length (word_chars w) = 4"
  by (simp add: word_chars_def sizeof_def)

lemma u32_less_u64: "(ucast (x :: u32) < (m :: u64)) = (unat x < unat m)"
proof -
  have "unat x < 2 ^ 64" using unsigned_less [of x, where 'a = nat] by simp
  then show ?thesis by (simp add: word_less_nat_alt unsigned_ucast_eq take_bit_nat_eq_self)
qed

definition mem_chars :: "(u32 \<Rightarrow> u8) \<Rightarrow> u32 \<Rightarrow> nat \<Rightarrow> string" where
  "mem_chars mem a n = map (\<lambda>i. char_of (unat (mem (a + of_nat i)))) [0..<n]"

definition load_word :: "(u32 \<Rightarrow> u8) \<Rightarrow> u32 \<Rightarrow> u32" where
  "load_word mem a = from_bytes (map (\<lambda>i. mem (a + of_nat i)) [0..<4])"

text \<open>The C string \<open>t\<close> is stored at \<open>a\<close>.\<close>

definition cstring_at :: "(u32 \<Rightarrow> u8) \<Rightarrow> u32 \<Rightarrow> string \<Rightarrow> bool" where
  "cstring_at mem a t \<longleftrightarrow> mem_chars mem a (Suc (length t)) = t @ [CHR 0x00] \<and> CHR 0x00 \<notin> set t"

lemma mem_chars_append: "mem_chars mem a (m + n) = mem_chars mem a m @ mem_chars mem (a + of_nat m) n"
proof -
  have "[0..<m + n] = [0..<m] @ map (\<lambda>i. i + m) [0..<n]"
    unfolding map_add_upt using upt_add_eq_append [of 0 m n] by (simp add: add.commute [of n m])
  then show ?thesis by (simp add: mem_chars_def ac_simps)
qed

lemma length_mem_chars [simp]: "length (mem_chars mem a n) = n"
  by (simp add: mem_chars_def)

lemma word_chars_load: "word_chars (load_word mem a) = mem_chars mem a 4"
proof -
  have "to_bytes (load_word mem a) = map (\<lambda>i. mem (a + of_nat i)) [0..<4]"
    unfolding load_word_def by (intro to_from_bytes) (simp_all add: sizeof_def)
  then show ?thesis by (simp add: word_chars_def mem_chars_def)
qed

lemma cstring_at_short:
  assumes "cstring_at mem a t" "length t < 4"
  obtains junk where "mem_chars mem a 4 = t @ CHR 0x00 # junk"
proof -
  have "mem_chars mem a (Suc (length t) + (3 - length t)) = t @ CHR 0x00 # mem_chars mem (a + of_nat (Suc (length t))) (3 - length t)"
    using assms(1) unfolding mem_chars_append by (simp add: cstring_at_def)
  moreover have "Suc (length t) + (3 - length t) = 4" using assms(2) by simp
  ultimately show ?thesis using that by metis
qed

lemma cstring_at_long:
  assumes "cstring_at mem a t" "4 \<le> length t"
  shows "mem_chars mem a 4 = take 4 t" and "cstring_at mem (a + 4) (drop 4 t)"
proof -
  have "mem_chars mem a (4 + Suc (length t - 4)) = take 4 t @ drop 4 t @ [CHR 0x00]"
    using assms by (simp add: cstring_at_def)
  then have "mem_chars mem a 4 @ mem_chars mem (a + of_nat 4) (Suc (length t - 4)) = take 4 t @ drop 4 t @ [CHR 0x00]"
    unfolding mem_chars_append .
  then have "mem_chars mem a 4 = take 4 t \<and> mem_chars mem (a + of_nat 4) (Suc (length t - 4)) = drop 4 t @ [CHR 0x00]"
    using assms(2) by (intro append_eq_append_conv [THEN iffD1]) simp_all
  then show "mem_chars mem a 4 = take 4 t" "cstring_at mem (a + 4) (drop 4 t)"
    using assms by (auto simp: cstring_at_def dest: in_set_dropD)
qed

lemma string_load_loop_reads:
  "cstring_at mem a t \<Longrightarrow> unat a + length t < unat max_address \<Longrightarrow> unat a + length t < 2 ^ 32
     \<Longrightarrow> \<exists>junk. string_load_loop (load_word mem) max_address a out = Some (out @ t @ CHR 0x00 # junk)"
proof (induction "length t" arbitrary: a t out rule: less_induct)
  case less
  show ?case
  proof (cases "length t < 4")
    case True
    then obtain junk where "mem_chars mem a 4 = t @ CHR 0x00 # junk" using cstring_at_short [OF less.prems(1)] by blast
    then show ?thesis
      by (subst string_load_loop.simps) (simp add: Let_def WordHasZero_chars word_chars_load)
  next
    case False
    then have n: "4 \<le> length t" by simp
    note c = cstring_at_long [OF less.prems(1) n]
    have z: "\<not> WordHasZero (load_word mem a)"
      using less.prems(1) c(1) by (auto simp: WordHasZero_chars word_chars_load cstring_at_def dest: in_set_takeD)
    have u: "unat (a + 4) = unat a + 4"
      using less.prems(3) n by (subst unat_word_ariths) (simp add: take_bit_nat_eq_self)
    have lt: "ucast (a + 4) < max_address"
      using less.prems(2) n u by (simp add: u32_less_u64)
    have "\<exists>junk. string_load_loop (load_word mem) max_address (a + 4) (out @ take 4 t)
        = Some ((out @ take 4 t) @ drop 4 t @ CHR 0x00 # junk)"
      using less.prems n u by (intro less.hyps) (simp_all add: c(2))
    moreover have "take 4 t @ drop 4 t @ CHR 0x00 # junk = t @ CHR 0x00 # junk" for junk
      by (metis append.assoc append_take_drop_id)
    ultimately show ?thesis
      by (subst string_load_loop.simps) (simp add: Let_def z lt word_chars_load c(1))
  qed
qed

lemma trim_at_nul_stops: "CHR 0x00 \<notin> set t \<Longrightarrow> trim_at_nul (t @ CHR 0x00 # junk) = Inr t"
  unfolding trim_at_nul_def by (induction t) auto

lemma string_load_reads:
  assumes "cstring_at mem a t" "unat a + length t < unat max_address" "unat a + length t < 2 ^ 32"
  shows "CoralNPUStringLoadHelper (load_word mem) max_address a [] = Some (Inr t)"
  using string_load_loop_reads [OF assms, of "[]"] assms(1)
  by (auto simp: CoralNPUStringLoadHelper_def trim_at_nul_stops cstring_at_def)

text \<open>Property C13. \<open>CoralNPUStringLoadHelper\<close> returns the C string stored at its address, whatever its
  length and alignment to the four-byte loads, when the string lies below the end of memory.\<close>

theorem StringLoadHelper_reads_cstring:
  assumes "cstring_at mem a t" "unat a + length t < unat max_address" "unat a + length t < 2 ^ 32"
  shows "CoralNPUStringLoadHelper (load_word mem) max_address a [] = Some (Inr t)"
  by (rule string_load_reads [OF assms])

lemma string_load_loop_ends:
  assumes m: "unat max_address \<le> 2 ^ 32 - 4"
  shows "unat a < unat max_address \<Longrightarrow> \<exists>t. string_load_loop load max_address a out = Some t"
proof (induction "unat max_address - unat a" arbitrary: a out rule: less_induct)
  case less
  show ?case
  proof (cases "\<not> WordHasZero (load a) \<and> ucast (a + 4) < max_address")
    case False
    then show ?thesis by (subst string_load_loop.simps) (auto simp: Let_def)
  next
    case True
    then have lt: "unat (a + 4) < unat max_address" by (simp add: u32_less_u64)
    have u: "unat (a + 4) = unat a + 4"
      using less.prems m by (subst unat_word_ariths) (simp add: take_bit_nat_eq_self)
    have "\<exists>t. string_load_loop load max_address (a + 4) (out @ word_chars (load a)) = Some t"
      using u lt by (intro less.hyps) simp_all
    then show ?thesis using True by (subst string_load_loop.simps) (simp add: Let_def)
  qed
qed

text \<open>The string load ends for every memory contents and start address when the memory
  lies within reach of the 32-bit address; it fails only on \<open>resize(npos)\<close>, when no terminator was
  found.\<close>

theorem StringLoadHelper_ends:
  assumes "unat max_address \<le> 2 ^ 32 - 4"
  shows "\<exists>r. CoralNPUStringLoadHelper load max_address a out = Some r
    \<and> (case r of Inl e \<Rightarrow> e = LengthError | Inr t \<Rightarrow> CHR 0x00 \<notin> set t)"
proof -
  have "\<exists>t. string_load_loop load max_address a out = Some t"
  proof (cases "\<not> WordHasZero (load a) \<and> ucast (a + 4) < max_address")
    case True
    then show ?thesis using string_load_loop_ends [OF assms, of "a + 4"]
      by (subst string_load_loop.simps) (simp add: Let_def u32_less_u64)
  qed (subst string_load_loop.simps, auto simp: Let_def)
  then obtain t where t: "string_load_loop load max_address a out = Some t" ..
  show ?thesis
    by (auto simp: CoralNPUStringLoadHelper_def t trim_at_nul_def dest: set_takeWhileD)
qed

subsection \<open>The log instructions\<close>

text \<open>A string cut into words for \<open>CLOG\<close>, the last one padded with terminators.\<close>

definition char_word :: "string \<Rightarrow> u32" where
  "char_word cs = from_bytes (map (\<lambda>c. of_nat (of_char c)) cs)"

fun clog_words :: "string \<Rightarrow> u32 list" where
  "clog_words t = (if length t < 4 then [char_word (take 4 (t @ replicate 4 (CHR 0x00)))]
     else char_word (take 4 t) # clog_words (drop 4 t))"

declare clog_words.simps [simp del]

fun clog_run :: "u32 list \<Rightarrow> CoralNPUState \<Rightarrow> (log_error + CoralNPUState) option" where
  "clog_run [] s = Some (Inr s)"
| "clog_run (w # ws) s = (case CoralNPULogInstruction (\<lambda>_. 0) 2 w s of
     Some (Inr s') \<Rightarrow> clog_run ws s' | r \<Rightarrow> r)"

lemma word_chars_char_word: "length cs = 4 \<Longrightarrow> word_chars (char_word cs) = cs"
proof -
  assume n: "length cs = 4"
  have "to_bytes (char_word cs) = map (\<lambda>c. of_nat (of_char c)) cs"
    unfolding char_word_def using n by (intro to_from_bytes) (simp_all add: sizeof_def)
  moreover have "char_of (unat (of_nat (of_char c) :: u8)) = c" for c :: char
  proof -
    have "unat (of_nat (of_char c) :: u8) = (of_char c :: nat)"
      using nat_of_char_less_256 [of c] by (simp add: unsigned_of_nat take_bit_nat_eq_self del: of_nat_of_char)
    then show ?thesis by (simp only: char_of_char)
  qed
  ultimately show ?thesis by (simp add: word_chars_def o_def)
qed

lemma clog_run_collects:
  "CHR 0x00 \<notin> set t \<Longrightarrow> CHR 0x00 \<notin> set (clog_string s)
     \<Longrightarrow> clog_run (clog_words t) s = Some (Inr (s\<lparr>log_args := log_args s @ [LogString (clog_string s @ t)], clog_string := []\<rparr>))"
proof (induction t arbitrary: s rule: clog_words.induct)
  case (1 t)
  show ?case
  proof (cases "length t < 4")
    case True
    then have k: "take 4 (t @ replicate 4 (CHR 0x00)) = t @ CHR 0x00 # replicate (3 - length t) (CHR 0x00)"
      by (cases "4 - length t") (auto simp: take_replicate min_def)
    have w: "word_chars (char_word (take 4 (t @ replicate 4 (CHR 0x00)))) = t @ CHR 0x00 # replicate (3 - length t) (CHR 0x00)"
      using word_chars_char_word [of "take 4 (t @ replicate 4 (CHR 0x00))"] k True by simp
    then have z: "WordHasZero (char_word (take 4 (t @ replicate 4 (CHR 0x00))))" by (simp add: WordHasZero_chars)
    have "trim_at_nul ((clog_string s @ t) @ CHR 0x00 # replicate (3 - length t) (CHR 0x00)) = Inr (clog_string s @ t)"
      using 1(2,3) by (intro trim_at_nul_stops) simp
    then show ?thesis using True w z
      by (subst clog_words.simps) (simp add: CoralNPULogInstruction_def Let_def SetLogArgs_def)
  next
    case False
    have w: "word_chars (char_word (take 4 t)) = take 4 t" using False by (intro word_chars_char_word) simp
    then have z: "\<not> WordHasZero (char_word (take 4 t))" using 1(2) by (auto simp: WordHasZero_chars dest: in_set_takeD)
    let ?s = "s\<lparr>clog_string := clog_string s @ take 4 t\<rparr>"
    have "clog_run (clog_words (drop 4 t)) ?s = Some (Inr (?s\<lparr>log_args := log_args ?s @ [LogString (clog_string ?s @ drop 4 t)], clog_string := []\<rparr>))"
      using 1(2,3) False by (intro 1(1)) (auto dest: in_set_takeD in_set_dropD)
    then show ?thesis using False w z
      by (subst clog_words.simps) (simp add: CoralNPULogInstruction_def Let_def)
  qed
qed

text \<open>A string of any length passed to \<open>CLOG\<close> four characters at a time arrives whole: the
  calls collect it in \<open>clog_string\<close> and the last one turns it into one string argument.\<close>

theorem CLOG_reassembles:
  assumes "CHR 0x00 \<notin> set t" "clog_string s = []"
  shows "clog_run (clog_words t) s = Some (Inr (s\<lparr>log_args := log_args s @ [LogString t]\<rparr>))"
  using clog_run_collects [of t s] assms by simp

lemma render_plain: "CHR ''%'' \<notin> set f \<Longrightarrow> render (pieces f) args = f \<and> arguments (pieces f) = 0 \<and> Dangling \<notin> set (pieces f)"
  by (induction f rule: pieces.induct) auto

lemma pieces_split:
  "CHR ''%'' \<notin> set p \<Longrightarrow> pieces (p @ CHR ''%'' # d # q) = map Literal p @ Directive d # pieces q"
  by (induction p rule: pieces.induct) auto

lemma render_literals: "render (map Literal p @ ps) args = p @ render ps args"
  "arguments (map Literal p @ ps) = arguments ps"
  by (induction p) auto

text \<open>A guest program that logs a register with \<open>SLOG\<close> and then a format string from memory
  with \<open>FLOG\<close> prints that string with its \<open>%d\<close> replaced by the register's signed decimal value.\<close>

theorem SLOG_FLOG_prints:
  assumes "cstring_at mem a (pre @ ''%d'' @ post)" "CHR ''%'' \<notin> set pre" "CHR ''%'' \<notin> set post"
    and "unat a + length (pre @ ''%d'' @ post) < unat (max_physical_address s)" "unat a + length (pre @ ''%d'' @ post) < 2 ^ 32"
    and "log_args s = []"
  shows "\<exists>s1 s2. CoralNPULogInstruction (load_word mem) 1 w s = Some (Inr s1)
    \<and> CoralNPULogInstruction (load_word mem) 0 a s1 = Some (Inr s2)
    \<and> cout s2 = cout s @ pre @ StrFormat_d w @ post \<and> log_args s2 = []"
proof -
  let ?f = "pre @ ''%d'' @ post" and ?s1 = "s\<lparr>log_args := [LogWord w]\<rparr>"
  have l: "CoralNPUStringLoadHelper (load_word mem) (max_physical_address ?s1) a [] = Some (Inr ?f)"
    using string_load_reads [OF assms(1,4,5)] by simp
  have p: "Dangling \<notin> set (pieces ?f)" "arguments (pieces ?f) \<le> 1" "render (pieces ?f) [LogWord w] = pre @ StrFormat_d w @ post"
    using pieces_split [OF assms(2), of "CHR ''d''" post] render_plain [OF assms(3)]
    by (auto simp: render_literals format_arg_def)
  obtain errs where "print_loop ?f (log_args ?s1) [] 0 = Inr (pre @ StrFormat_d w @ post, errs)"
    using print_loop_ok [of ?f "log_args ?s1" "[]" 0] p by auto
  then have "PrintLog ?f ?s1 = Inr (?s1\<lparr>cout := cout s @ pre @ StrFormat_d w @ post, cerr_count := cerr_count s + errs, log_args := []\<rparr>)"
    by (simp add: PrintLog_def)
  then have "CoralNPULogInstruction (load_word mem) 0 a ?s1
      = Some (Inr (?s1\<lparr>cout := cout s @ pre @ StrFormat_d w @ post, cerr_count := cerr_count s + errs, log_args := []\<rparr>))"
    using l by (simp add: CoralNPULogInstruction_def)
  moreover have "CoralNPULogInstruction (load_word mem) 1 w s = Some (Inr ?s1)"
    using assms(6) by (simp add: CoralNPULogInstruction_def SetLogArgs_def)
  ultimately show ?thesis by fastforce
qed

subsection \<open>Concrete runs\<close>

text \<open>A memory with the bytes of a string at address \<open>0x102\<close>.\<close>

definition text_memory :: "string \<Rightarrow> u32 \<Rightarrow> u8" where
  "text_memory t a = (if 0x102 \<le> a \<and> unat (a - 0x102) < length t then of_nat (of_char (t ! unat (a - 0x102))) else 0)"

definition initial_state :: CoralNPUState where
  "initial_state = CoralNPUState_init kCoralnpuMaxMemoryAddress (replicate 32 0)"

lemma text_memory_hello: "cstring_at (text_memory ''x = %d!'') 0x102 ''x = %d!''"
  by code_simp

lemma initial_max: "unat (max_physical_address initial_state) = 0x3fffff" "log_args initial_state = []" "clog_string initial_state = []"
  by (simp_all add: initial_state_def CoralNPUState_init_def kCoralnpuMaxMemoryAddress_def)

lemma StringLoadHelper_reads_cstring_witness:
  "CoralNPUStringLoadHelper (load_word (text_memory ''x = %d!'')) 0x3fffff 0x102 [] = Some (Inr ''x = %d!'')"
  by (rule StringLoadHelper_reads_cstring [OF text_memory_hello]) simp_all

lemma StringLoadHelper_ends_witness:
  "\<exists>r. CoralNPUStringLoadHelper (\<lambda>_. 0x41414141) kCoralnpuMaxMemoryAddress 0x100 [] = Some r
    \<and> (case r of Inl e \<Rightarrow> e = LengthError | Inr t \<Rightarrow> CHR 0x00 \<notin> set t)"
  by (rule StringLoadHelper_ends) (simp add: kCoralnpuMaxMemoryAddress_def)

lemma CLOG_reassembles_witness:
  "clog_run (clog_words ''hello world'') initial_state = Some (Inr (initial_state\<lparr>log_args := [LogString ''hello world'']\<rparr>))"
  using CLOG_reassembles [of "''hello world''" initial_state] by (simp add: initial_max)

lemma SLOG_FLOG_prints_witness:
  "\<exists>s1 s2. CoralNPULogInstruction (load_word (text_memory ''x = %d!'')) 1 0xFFFFFFF9 initial_state = Some (Inr s1)
    \<and> CoralNPULogInstruction (load_word (text_memory ''x = %d!'')) 0 0x102 s1 = Some (Inr s2)
    \<and> cout s2 = cout initial_state @ ''x = '' @ StrFormat_d 0xFFFFFFF9 @ ''!'' \<and> log_args s2 = []"
  using SLOG_FLOG_prints [where mem = "text_memory ''x = %d!''" and a = "0x102" and pre = "''x = ''" and post = "''!''"
      and s = initial_state and w = "0xFFFFFFF9"] text_memory_hello
  by (simp add: initial_max)

end
