(* ===== verification/NPU_Memory.thy ===== *)
theory NPU_Memory
  imports NPU_Prelude
begin

text \<open>
  The memory interface the simulator's instructions use. \<open>memory_if\<close> names the two element-wise
  operations that \<open>RiscVState::LoadMemory\<close> and \<open>StoreMemory\<close> pass on to the memory; the locale
  \<open>byte_memory\<close> states what a memory promises about them in terms of a flat byte view.
\<close>

record 'm memory_if =
  LoadMemory :: "u64 list \<Rightarrow> bool list \<Rightarrow> int \<Rightarrow> u8 list \<Rightarrow> 'm \<Rightarrow> u8 list option"
  StoreMemory :: "u64 list \<Rightarrow> bool list \<Rightarrow> int \<Rightarrow> u8 list \<Rightarrow> 'm \<Rightarrow> 'm option"

text \<open>Overwriting a stretch of a buffer, \<open>memcpy(dst + offset, bs, length bs)\<close>.\<close>

definition overwrite :: "nat \<Rightarrow> 'a list \<Rightarrow> 'a list \<Rightarrow> 'a list" where
  "overwrite off bs xs = take off xs @ bs @ drop (off + length bs) xs"

text \<open>The abstract memory: a byte at every address, and the bytes of an element written to it.\<close>

definition write_range :: "nat \<Rightarrow> u8 list \<Rightarrow> (nat \<Rightarrow> u8) \<Rightarrow> nat \<Rightarrow> u8" where
  "write_range a bs f x = (if a \<le> x \<and> x < a + length bs then bs ! (x - a) else f x)"

definition element :: "nat \<Rightarrow> u8 list \<Rightarrow> nat \<Rightarrow> u8 list" where
  "element sz db i = take sz (drop (i * sz) db)"

definition scatter :: "u64 list \<Rightarrow> nat \<Rightarrow> u8 list \<Rightarrow> (nat \<Rightarrow> u8) \<Rightarrow> nat \<Rightarrow> u8" where
  "scatter addresses sz db f =
     fold (\<lambda>i. write_range (unat (addresses ! i)) (element sz db i)) [0..<length addresses] f"

definition gather :: "u64 list \<Rightarrow> nat \<Rightarrow> (nat \<Rightarrow> u8) \<Rightarrow> u8 list" where
  "gather addresses sz f = concat (map (\<lambda>a. map f [unat a..<unat a + sz]) addresses)"

lemma length_overwrite: "off + length bs \<le> length xs \<Longrightarrow> length (overwrite off bs xs) = length xs"
  by (simp add: overwrite_def)

lemma length_element: "(i + 1) * sz \<le> length db \<Longrightarrow> length (element sz db i) = sz"
  by (auto simp: element_def)

lemma length_gather [simp]: "length (gather as sz f) = length as * sz"
  by (induction as) (simp_all add: gather_def)

lemma write_range_nil [simp]: "write_range a [] f = f"
  by (auto simp: write_range_def fun_eq_iff)

lemma write_range_append: "write_range a (xs @ ys) f = write_range (a + length xs) ys (write_range a xs f)"
  by (auto simp: write_range_def fun_eq_iff nth_append)

lemma read_write_range: "map (write_range a bs f) [a..<a + length bs] = bs"
  by (intro nth_equalityI) (simp_all add: write_range_def)

lemma element_gather: "i < length as \<Longrightarrow> element sz (gather as sz f) i = map f [unat (as ! i)..<unat (as ! i) + sz]"
proof (induction as arbitrary: i)
  case (Cons a as)
  then show ?case by (cases i) (simp_all add: element_def gather_def)
qed simp

text \<open>Elements written to separate places can be read back.\<close>

definition separate :: "u64 list \<Rightarrow> nat \<Rightarrow> bool" where
  "separate addresses sz \<longleftrightarrow> (\<forall>j < length addresses. \<forall>i < j.
     unat (addresses ! i) + sz \<le> unat (addresses ! j) \<or> unat (addresses ! j) + sz \<le> unat (addresses ! i))"

lemma scatter_other:
  assumes "\<And>i. i < length as \<Longrightarrow> \<not> (unat (as ! i) \<le> x \<and> x < unat (as ! i) + sz)"
  shows "scatter as sz db f x = f x"
proof -
  have "fold (\<lambda>i. write_range (unat (as ! i)) (element sz db i)) [0..<k] f x = f x" if "k \<le> length as" for k
    using that
  proof (induction k)
    case (Suc k)
    have "length (element sz db k) \<le> sz" by (simp add: element_def)
    then show ?case using Suc assms [of k] by (auto simp: write_range_def)
  qed simp
  then show ?thesis by (simp add: scatter_def)
qed

lemma scatter_element:
  assumes "separate as sz" "length db = length as * sz" "i < length as" "k < sz"
  shows "scatter as sz db f (unat (as ! i) + k) = db ! (i * sz + k)"
proof -
  have l: "length (element sz db j) = sz" if "j < length as" for j
    using mult_le_mono1 [of "j + 1" "length as" sz] that assms(2) by (intro length_element) simp
  have "fold (\<lambda>i. write_range (unat (as ! i)) (element sz db i)) [0..<n] f (unat (as ! i) + k) = db ! (i * sz + k)"
    if "i < n" "n \<le> length as" for n
    using that
  proof (induction n)
    case (Suc n)
    show ?case
    proof (cases "i = n")
      case True
      have "i * sz + k < length db"
        using mult_le_mono1 [of "i + 1" "length as" sz] assms by simp
      then show ?thesis using True Suc.prems assms(4) l by (simp add: write_range_def element_def)
    next
      case False
      then have "i < n" using Suc.prems by simp
      moreover have "unat (as ! i) + sz \<le> unat (as ! n) \<or> unat (as ! n) + sz \<le> unat (as ! i)"
        using assms(1) Suc.prems \<open>i < n\<close> by (simp add: separate_def)
      ultimately show ?thesis using Suc l assms(4) by (auto simp: write_range_def)
    qed
  qed simp
  then show ?thesis using assms(3) by (simp add: scatter_def)
qed

lemma gather_scatter:
  assumes "separate as sz" "length db = length as * sz"
  shows "gather as sz (scatter as sz db f) = db"
proof (rule nth_equalityI)
  show "length (gather as sz (scatter as sz db f)) = length db" using assms by simp
  fix j assume "j < length (gather as sz (scatter as sz db f))"
  then have j: "j < length as * sz" by simp
  then have p: "0 < sz" by (cases sz) auto
  have i: "j div sz < length as" using j p by (simp add: less_mult_imp_div_less)
  have k: "j mod sz < sz" using p by simp
  have "gather as sz (scatter as sz db f) ! j = element sz (gather as sz (scatter as sz db f)) (j div sz) ! (j mod sz)"
    using k order.trans [OF div_times_less_eq_dividend [of j sz] less_imp_le [OF j]] by (simp add: element_def)
  also have "\<dots> = db ! j"
    using i k scatter_element [OF assms i k] by (simp add: element_gather)
  finally show "gather as sz (scatter as sz db f) ! j = db ! j" .
qed

subsection \<open>The interface\<close>

locale byte_memory =
  fixes M :: "'m memory_if"
    and mem_ok :: "'m \<Rightarrow> bool"
    and in_range :: "'m \<Rightarrow> nat \<Rightarrow> nat \<Rightarrow> bool"
    and byte :: "'m \<Rightarrow> nat \<Rightarrow> u8"
  assumes load_elements: "mem_ok m \<Longrightarrow> 0 < sz \<Longrightarrow> (\<forall>a \<in> set as. in_range m (unat a) sz)
      \<Longrightarrow> length db = length as * sz
      \<Longrightarrow> LoadMemory M as (replicate (length as) True) (int sz) db m = Some (gather as sz (byte m))"
    and store_elements: "mem_ok m \<Longrightarrow> 0 < sz \<Longrightarrow> (\<forall>a \<in> set as. in_range m (unat a) sz)
      \<Longrightarrow> length db = length as * sz
      \<Longrightarrow> \<exists>m'. StoreMemory M as (replicate (length as) True) (int sz) db m = Some m' \<and> mem_ok m'
        \<and> in_range m' = in_range m \<and> byte m' = scatter as sz db (byte m)"
begin

lemma load_after_store:
  assumes "mem_ok m" "0 < sz" "\<forall>a \<in> set as. in_range m (unat a) sz"
    and "length db = length as * sz" "length db' = length as * sz" "separate as sz"
  shows "\<exists>m'. StoreMemory M as (replicate (length as) True) (int sz) db m = Some m'
    \<and> LoadMemory M as (replicate (length as) True) (int sz) db' m' = Some db"
proof -
  obtain m' where m': "StoreMemory M as (replicate (length as) True) (int sz) db m = Some m'" "mem_ok m'"
      "in_range m' = in_range m" "byte m' = scatter as sz db (byte m)"
    using store_elements [OF assms(1-4)] by blast
  then have "LoadMemory M as (replicate (length as) True) (int sz) db' m' = Some db"
    using load_elements [of m' sz as db'] gather_scatter [OF assms(6,4)] assms by simp
  then show ?thesis using m'(1) by blast
qed

end

end
