(* ===== verification/NPU_VectorMemory.thy ===== *)
theory NPU_VectorMemory
  imports NPU_State NPU_Memory NPU_VectorEngine
begin

text \<open>
  The instructions of \<open>sim/coralnpu_vector_memory_instructions.cc\<close>: vector loads and stores with
  length, stride and post-increment, the quad store, scalar duplication, \<open>getvl\<close>, and the moves
  between vector registers and the convolution accumulators.

  A \<open>machine\<close> is the simulator state these instructions see. \<open>LoadMemory\<close> and \<open>StoreMemory\<close> of the
  MPACT state are the operations of a \<open>memory_if\<close>; when they fail the instruction does.
\<close>

record 'm machine =
  npu :: CoralNPUState
  xreg :: "nat \<Rightarrow> u32"
  vreg :: "nat \<Rightarrow> u8 list"
  mem :: 'm

text \<open>
  Operands: \<open>destination\<close> is the scalar register of \<open>Destination(0)\<close>, if there is one, \<open>vd\<close> the first
  register of a vector destination (of the child instruction for a load). \<open>fresh i\<close> is the buffer
  that \<open>AllocateDataBuffer(i)\<close> returns, whose contents the code must not rely on.
\<close>

datatype source_operand = ScalarReg nat | Literal u32 | VectorReg nat

record vm_inst =
  sources :: "source_operand list"
  destination :: "nat option"
  vd :: nat
  fresh :: "nat \<Rightarrow> u8 list"

fun read_operand :: "'m machine \<Rightarrow> source_operand \<Rightarrow> u32" where
  "read_operand s (ScalarReg r) = xreg s r"
| "read_operand s (Literal w) = w"
| "read_operand s (VectorReg r) = lanes (vreg s r) ! 0"

definition GetInstructionSource :: "vm_inst \<Rightarrow> nat \<Rightarrow> 'm machine \<Rightarrow> u32" where
  "GetInstructionSource inst i s = read_operand s (sources inst ! i)"

text \<open>\<open>vs->GetRegister(i)->data_buffer()->Get<T>()\<close>.\<close>

definition source_span :: "vm_inst \<Rightarrow> nat \<Rightarrow> nat \<Rightarrow> 'm machine \<Rightarrow> 't::len word list" where
  "source_span inst n i s = (case sources inst ! n of VectorReg r \<Rightarrow> lanes (vreg s (r + i)) | _ \<Rightarrow> [])"

definition submit :: "vm_inst \<Rightarrow> nat \<Rightarrow> 't::len word list \<Rightarrow> 'm machine \<Rightarrow> 'm machine" where
  "submit inst i span s = s\<lparr>vreg := (vreg s)(vd inst + i := unlanes span)\<rparr>"

definition vector_size_in_bytes :: "'m machine \<Rightarrow> nat" where
  "vector_size_in_bytes s = unat (vector_length (npu s)) div 8"

definition elts_per_register :: "'t::len itself \<Rightarrow> 'm machine \<Rightarrow> nat" where
  "elts_per_register T s = vector_size_in_bytes s div sizeof TYPE('t)"

subsection \<open>Loads\<close>

text \<open>
  The address loop of \<open>CoralNPUVLd\<close>. The row base is a 32-bit value, the sum with the element offset
  is evaluated in 64 bits.
\<close>

definition load_row :: "'t::len itself \<Rightarrow> nat \<Rightarrow> u32 \<Rightarrow> nat \<Rightarrow> u64 list \<times> u32 \<times> nat \<Rightarrow> u64 list \<times> u32 \<times> nat" where
  "load_row T epr stride_elts op_num = (\<lambda>(addresses, base, elts_left).
     let count = min elts_left epr;
         addresses = fold (\<lambda>i addresses. addresses[op_num * epr + i := ucast base + of_nat (i * sizeof TYPE('t))])
           [0..<count] addresses
     in (addresses, base + stride_elts * of_nat (sizeof TYPE('t)), elts_left - count))"

definition load_addresses :: "'t::len itself \<Rightarrow> nat \<Rightarrow> nat \<Rightarrow> nat \<Rightarrow> u32 \<Rightarrow> u32 \<Rightarrow> u64 list" where
  "load_addresses T num_ops epr elts_to_load stride_elts addr =
     fst (fold (load_row T epr stride_elts) [0..<num_ops] (replicate elts_to_load 0, addr, elts_to_load))"

text \<open>The post-incremented address: the modes \<open>.tp\<close>, \<open>.p.x\<close>, \<open>.lp\<close>, \<open>.sp\<close> and \<open>.p.xx\<close>.\<close>

definition load_post_increment ::
    "'t::len itself \<Rightarrow> bool \<Rightarrow> bool \<Rightarrow> nat \<Rightarrow> u32 \<Rightarrow> u32 \<Rightarrow> u32 \<Rightarrow> vm_inst \<Rightarrow> 'm machine \<Rightarrow> u32" where
  "load_post_increment T has_length has_stride num_ops elts_to_load stride_elts addr inst s =
     (if has_length \<and> has_stride then addr + of_nat (vector_size_in_bytes s)
      else if \<not> has_length \<and> \<not> has_stride \<and> length (sources inst) = 1
      then addr + of_nat (vector_size_in_bytes s * num_ops)
      else if has_length then addr + elts_to_load * of_nat (sizeof TYPE('t))
      else if has_stride then addr + stride_elts * of_nat (sizeof TYPE('t) * num_ops)
      else addr + GetInstructionSource inst 1 s * of_nat (sizeof TYPE('t)))"

definition CoralNPUVLd ::
    "'t::len itself \<Rightarrow> 'm memory_if \<Rightarrow> bool \<Rightarrow> bool \<Rightarrow> bool \<Rightarrow> (u8 list \<Rightarrow> 'm machine \<Rightarrow> 'm machine)
     \<Rightarrow> vm_inst \<Rightarrow> 'm machine \<Rightarrow> 'm machine option" where
  "CoralNPUVLd T M has_length has_stride strip_mine child inst s =
     (let epr = elts_per_register T s; num_ops = strip_num_ops strip_mine;
          addr = mask_address (npu s) (GetInstructionSource inst 0 s);
          elts_to_load = of_nat (num_ops * epr) :: u32;
          elts_to_load = (if has_length then min (GetInstructionSource inst 1 s) elts_to_load else elts_to_load);
          stride_elts = (if has_stride then GetInstructionSource inst 1 s else of_nat epr);
          n = unat elts_to_load
      in case LoadMemory M (load_addresses T num_ops epr n stride_elts addr) (replicate n True)
             (int (sizeof TYPE('t))) (replicate (n * sizeof TYPE('t)) 0) (mem s) of
           None \<Rightarrow> None
         | Some value_db \<Rightarrow>
             let s = child value_db s in
             Some (case destination inst of None \<Rightarrow> s
               | Some reg \<Rightarrow>
                   let addr = (if elts_to_load > 0
                     then load_post_increment T has_length has_stride num_ops elts_to_load stride_elts addr inst s else addr)
                   in s\<lparr>xreg := (xreg s)(reg := addr)\<rparr>))"

definition CoralNPUVLdRegWrite :: "'t::len itself \<Rightarrow> bool \<Rightarrow> vm_inst \<Rightarrow> u8 list \<Rightarrow> 'm machine \<Rightarrow> 'm machine" where
  "CoralNPUVLdRegWrite T strip_mine inst value_db s =
     (let epr = elts_per_register T s; values = lanes value_db :: 't word list in
      fold (\<lambda>op_index s.
         let dest_span = fold (\<lambda>e dest_span. dest_span[e :=
               (let value_index = op_index * epr + e in
                if value_index < length values then values ! value_index else 0)])
             [0..<epr] (lanes (fresh inst op_index))
         in submit inst op_index dest_span s)
       [0..<strip_num_ops strip_mine] s)"

text \<open>A load instruction with its child.\<close>

definition vld ::
    "'t::len itself \<Rightarrow> 'm memory_if \<Rightarrow> bool \<Rightarrow> bool \<Rightarrow> bool \<Rightarrow> vm_inst \<Rightarrow> 'm machine \<Rightarrow> 'm machine option" where
  "vld T M has_length has_stride strip_mine inst =
     CoralNPUVLd T M has_length has_stride strip_mine (CoralNPUVLdRegWrite T strip_mine inst) inst"

subsection \<open>Stores\<close>

text \<open>
  The inner loop: \<open>count\<close> elements of one source register from element \<open>start\<close>, stopping after
  \<open>elts_to_store\<close> in all. \<open>address_index\<close> is the length of the lists filled so far.
\<close>

definition store_elts ::
    "'t::len itself \<Rightarrow> nat \<Rightarrow> u32 \<Rightarrow> nat \<Rightarrow> nat \<Rightarrow> 't word list \<Rightarrow> u64 list \<times> 't word list \<Rightarrow> u64 list \<times> 't word list" where
  "store_elts T elts_to_store base_addr start count span =
     fold (\<lambda>j (addresses, values).
        if length addresses < elts_to_store
        then (addresses @ [ucast base_addr + of_nat (j * sizeof TYPE('t))], values @ [span ! (start + j)])
        else (addresses, values)) [0..<count]"

text \<open>One source register: the base moves on once, or once per quarter for a quad store.\<close>

definition store_row ::
    "'t::len itself \<Rightarrow> bool \<Rightarrow> nat \<Rightarrow> nat \<Rightarrow> u32 \<Rightarrow> 't word list
     \<Rightarrow> u32 \<times> u64 list \<times> 't word list \<Rightarrow> u32 \<times> u64 list \<times> 't word list" where
  "store_row T is_quad epr elts_to_store stride_elts span = (\<lambda>(base_addr, acc).
     if is_quad then
       fold (\<lambda>i (base_addr, acc).
          (base_addr + stride_elts * of_nat (sizeof TYPE('t)),
           store_elts T elts_to_store base_addr (i * (epr div 4)) (epr div 4) span acc))
         [0..<4] (base_addr, acc)
     else (base_addr + stride_elts * of_nat (sizeof TYPE('t)),
           store_elts T elts_to_store base_addr 0 epr span acc))"

definition store_post_increment ::
    "'t::len itself \<Rightarrow> bool \<Rightarrow> bool \<Rightarrow> bool \<Rightarrow> nat \<Rightarrow> u32 \<Rightarrow> u32 \<Rightarrow> u32 \<Rightarrow> vm_inst \<Rightarrow> 'm machine \<Rightarrow> u32" where
  "store_post_increment T has_length has_stride is_quad num_ops elts_to_store stride_elts mem_addr inst s =
     (if has_length \<and> has_stride then mem_addr + of_nat (vector_size_in_bytes s)
      else if \<not> has_length \<and> \<not> has_stride \<and> length (sources inst) = 2
      then mem_addr + of_nat (vector_size_in_bytes s * num_ops)
      else if has_length then mem_addr + elts_to_store * of_nat (sizeof TYPE('t))
      else if has_stride
      then mem_addr + stride_elts * of_nat (sizeof TYPE('t) * num_ops * (if is_quad then 4 else 1))
      else mem_addr + GetInstructionSource inst 2 s * of_nat (sizeof TYPE('t)))"

definition VectorStoreHelper ::
    "'t::len itself \<Rightarrow> 'm memory_if \<Rightarrow> bool \<Rightarrow> bool \<Rightarrow> bool \<Rightarrow> bool \<Rightarrow> vm_inst \<Rightarrow> 'm machine \<Rightarrow> 'm machine option" where
  "VectorStoreHelper T M has_length has_stride strip_mine is_quad inst s =
     (let epr = elts_per_register T s; num_ops = strip_num_ops strip_mine;
          mem_addr = mask_address (npu s) (GetInstructionSource inst 1 s);
          elts_to_store = of_nat (num_ops * epr) :: u32;
          elts_to_store = (if has_length then min (GetInstructionSource inst 2 s) elts_to_store else elts_to_store);
          stride_elts = (if has_stride then GetInstructionSource inst 2 s else of_nat epr);
          (base_addr, addresses, values) =
            fold (\<lambda>op_num. store_row T is_quad epr (unat elts_to_store) stride_elts (source_span inst 0 op_num s))
              [0..<num_ops] (mem_addr, [], [])
      in case StoreMemory M addresses (replicate (length addresses) True) (int (sizeof TYPE('t)))
             (unlanes values) (mem s) of
           None \<Rightarrow> None
         | Some m \<Rightarrow>
             let s = s\<lparr>mem := m\<rparr> in
             Some (case destination inst of None \<Rightarrow> s
               | Some reg \<Rightarrow>
                   let mem_addr = (if elts_to_store > 0
                     then store_post_increment T has_length has_stride is_quad num_ops elts_to_store stride_elts mem_addr inst s
                     else mem_addr)
                   in s\<lparr>xreg := (xreg s)(reg := mem_addr)\<rparr>))"

definition CoralNPUVSt ::
    "'t::len itself \<Rightarrow> 'm memory_if \<Rightarrow> bool \<Rightarrow> bool \<Rightarrow> bool \<Rightarrow> vm_inst \<Rightarrow> 'm machine \<Rightarrow> 'm machine option" where
  "CoralNPUVSt T M has_length has_stride strip_mine = VectorStoreHelper T M has_length has_stride strip_mine False"

definition CoralNPUVStQ ::
    "'t::len itself \<Rightarrow> 'm memory_if \<Rightarrow> bool \<Rightarrow> vm_inst \<Rightarrow> 'm machine \<Rightarrow> 'm machine option" where
  "CoralNPUVStQ T M strip_mine = VectorStoreHelper T M False True strip_mine True"

subsection \<open>Duplication and vector length\<close>

definition CoralNPUVDup :: "'t::len itself \<Rightarrow> bool \<Rightarrow> vm_inst \<Rightarrow> 'm machine \<Rightarrow> 'm machine" where
  "CoralNPUVDup T strip_mine inst s =
     (let epr = elts_per_register T s; value = ucast (GetInstructionSource inst 0 s) :: 't word in
      fold (\<lambda>op_index s.
         let dest_span = fold (\<lambda>e dest_span. dest_span[e := value]) [0..<epr] (lanes (fresh inst op_index))
         in submit inst op_index dest_span s)
       [0..<strip_num_ops strip_mine] s)"

definition CoralNPUGetVl :: "'t::len itself \<Rightarrow> bool \<Rightarrow> bool \<Rightarrow> bool \<Rightarrow> nat \<Rightarrow> vm_inst \<Rightarrow> 'm machine \<Rightarrow> 'm machine" where
  "CoralNPUGetVl T strip_mine is_rs1 is_rs2 dest_reg inst s =
     (let vlen = of_nat (vector_size_in_bytes s div sizeof TYPE('t)) :: u32;
          vlen = (if strip_mine then vlen * 4 else vlen);
          vlen = (if is_rs1 then min vlen (GetInstructionSource inst 0 s) else vlen);
          vlen = (if is_rs2 then min vlen (GetInstructionSource inst 1 s) else vlen)
      in s\<lparr>xreg := (xreg s)(dest_reg := vlen)\<rparr>)"

subsection \<open>Accumulator moves\<close>

definition CoralNPUVcGet :: "vm_inst \<Rightarrow> 'm machine \<Rightarrow> 'm machine" where
  "CoralNPUVcGet inst s =
     fold (\<lambda>op_index s.
        let acc_vec = acc_register (npu s) ! op_index;
            dest_span = fold (\<lambda>i dest_span. dest_span[i := acc_vec ! i])
              [0..<length (lanes (fresh inst op_index) :: u32 list)] (lanes (fresh inst op_index));
            s = s\<lparr>npu := (npu s)\<lparr>acc_register := (acc_register (npu s))[op_index := replicate (length acc_vec) 0]\<rparr>\<rparr>
        in submit inst op_index (dest_span :: u32 list) s)
      [0..<unat (vector_length (npu s)) div 32] s"

definition CoralNPUAcSet :: "bool \<Rightarrow> vm_inst \<Rightarrow> 'm machine \<Rightarrow> 'm machine" where
  "CoralNPUAcSet is_transpose inst s =
     fold (\<lambda>op_index s.
        let span = source_span inst 0 op_index s :: u32 list in
        fold (\<lambda>i s. s\<lparr>npu := (npu s)\<lparr>acc_register :=
            (if is_transpose
             then (acc_register (npu s))[i := (acc_register (npu s) ! i)[op_index := span ! i]]
             else (acc_register (npu s))[op_index := (acc_register (npu s) ! op_index)[i := span ! i]])\<rparr>\<rparr>)
          [0..<length span] s)
      [0..<unat (vector_length (npu s)) div 32] s"

text \<open>
  \<open>depthwise_acc_register_\<close> is written through a byte pointer at word \<open>8 * op_index\<close>. Only the first
  \<open>init_n\<close> bytes of the destination buffer are set.
\<close>

definition CoralNPUADwInit :: "vm_inst \<Rightarrow> 'm machine \<Rightarrow> 'm machine" where
  "CoralNPUADwInit inst s =
     (let init_n = unat (vector_length (npu s)) div (8 * 4) in
      fold (\<lambda>op_index s.
         let span = source_span inst 0 op_index s :: u8 list;
             dwacc = fold (\<lambda>i dwacc. dwacc[4 * (8 * op_index) + i := span ! i]) [0..<32]
               (unlanes (depthwise_acc_register (npu s)));
             s = s\<lparr>npu := (npu s)\<lparr>depthwise_acc_register := lanes dwacc\<rparr>\<rparr>;
             dest_span = fold (\<lambda>i dest_span. dest_span[i := span ! i]) [0..<init_n] (lanes (fresh inst op_index))
         in submit inst op_index (dest_span :: u8 list) s)
       [0..<4] s)"

end
