(* ===== verification/NPU_Convolution.thy ===== *)
theory NPU_Convolution
  imports NPU_VectorMemory
begin

text \<open>
  The convolution instructions of \<open>sim/coralnpu_vector_convolution_instructions.{h,cc}\<close>:
  \<open>CoralNPUVConv\<close> multiplies an 8 by 32 matrix of bytes with up to eight registers of bytes into the
  accumulators, \<open>CoralNPUVDwconv\<close> accumulates three byte-wise products. The command words are
  bit-fields, allocated from the least significant bit as \<open>memcpy\<close> sees them on the host.
\<close>

unbundle bit_operations_syntax

definition kVectorLenInByte :: nat where
  "kVectorLenInByte = 32"

definition kVectorLenInWord :: nat where
  "kVectorLenInWord = 8"

definition kDwRegisterProducts :: nat where
  "kDwRegisterProducts = 3"

text \<open>\<open>n\<close> bits from bit \<open>lo\<close> of the command.\<close>

definition bit_field :: "u32 \<Rightarrow> nat \<Rightarrow> nat \<Rightarrow> u32" where
  "bit_field w lo n = take_bit n (drop_bit lo w)"

record vconv_cmd_t =
  vc_mode :: u32
  vc_start :: u32
  vc_stop :: u32
  vc_sbias1 :: u32
  vc_sdata1 :: bool
  vc_sbias2 :: u32
  vc_sdata2 :: bool

definition vconv_cmd :: "u32 \<Rightarrow> vconv_cmd_t" where
  "vconv_cmd w = \<lparr>vc_mode = bit_field w 0 2, vc_start = bit_field w 2 5, vc_stop = bit_field w 7 5,
     vc_sbias1 = bit_field w 12 9, vc_sdata1 = bit w 21, vc_sbias2 = bit_field w 22 9, vc_sdata2 = bit w 31\<rparr>"

record vdwconv_u8_t =
  dw_mode :: u32
  dw_sparsity :: u32
  dw_regbase :: u32
  dw_rsvd :: u32
  dw_sbias1 :: int
  dw_sdata1 :: bool
  dw_sbias2 :: int
  dw_sdata2 :: bool

definition vdwconv_cmd :: "u32 \<Rightarrow> vdwconv_u8_t" where
  "vdwconv_cmd w = \<lparr>dw_mode = bit_field w 0 2, dw_sparsity = bit_field w 2 2, dw_regbase = bit_field w 4 4,
     dw_rsvd = bit_field w 8 4, dw_sbias1 = c_wrap True 9 (uint (bit_field w 12 9)), dw_sdata1 = bit w 21,
     dw_sbias2 = c_wrap True 9 (uint (bit_field w 22 9)), dw_sdata2 = bit w 31\<rparr>"

text \<open>\<open>interleave\<close> and \<open>kInterleave\<close>.\<close>

definition kInterleave :: "nat \<Rightarrow> nat" where
  "kInterleave i = [0, 2, 1, 3] ! i"

subsection \<open>CoralNPUVConv\<close>

text \<open>\<open>(static_cast<int32_t>(sbias) << 23) >> 23\<close>, a nine-bit signed value.\<close>

definition signed_bias :: "u32 \<Rightarrow> int" where
  "signed_bias b = sint (signed_drop_bit 23 (push_bit 23 b))"

text \<open>One product: narrow row \<open>i\<close>, byte \<open>j\<close> of the wide register for step \<open>k\<close>.\<close>

definition vconv_step ::
    "vconv_cmd_t \<Rightarrow> (nat \<Rightarrow> u8 list) \<Rightarrow> u8 list \<Rightarrow> nat \<Rightarrow> nat \<Rightarrow> nat \<Rightarrow> u32 list list \<Rightarrow> u32 list list" where
  "vconv_step cmd vec_narrow wide_source_span k i j accumulator =
     (let n = vec_narrow i ! (4 * k + j mod 4);
          sdata1 = lane_int (vc_sdata1 cmd) n;
          w = wide_source_span ! j;
          sdata2 = lane_int (vc_sdata2 cmd) w;
          rbase = i div 4 * 4; rquad = i mod 4; word = j div 4;
          idx_i = rbase + kInterleave (word mod 4);
          idx_j = rquad * (length accumulator div 4) + word div 4
      in accumulator[idx_i := (accumulator ! idx_i)[idx_j := accumulator ! idx_i ! idx_j
           + word_of_int ((sdata1 + signed_bias (vc_sbias1 cmd)) * (sdata2 + signed_bias (vc_sbias2 cmd)))]])"

definition CoralNPUVConv :: "vm_inst \<Rightarrow> u64 \<Rightarrow> 'm machine \<Rightarrow> 'm machine" where
  "CoralNPUVConv inst address s =
     (let conv_cmd = vconv_cmd (GetInstructionSource inst 1 s);
          trapped = s\<lparr>npu := Trap False 0 kIllegalInstruction address (npu s)\<rparr>
      in if vc_mode conv_cmd \<noteq> 0 then trapped
         else if vc_start conv_cmd > vc_stop conv_cmd then trapped
         else if vc_start conv_cmd \<ge> of_nat kVectorLenInWord \<or> vc_stop conv_cmd \<ge> of_nat kVectorLenInWord then trapped
         else
           let start = unat (vc_start conv_cmd); stop = unat (vc_stop conv_cmd);
               vec_narrow = (\<lambda>vec_idx. source_span inst 0 vec_idx s);
               accumulator = acc_register (npu s);
               accumulator =
                 fold (\<lambda>k accumulator.
                    let wide_source_span = source_span inst 2 (k - start) s in
                    fold (\<lambda>i accumulator. fold (\<lambda>j. vconv_step conv_cmd vec_narrow wide_source_span k i j)
                        [0..<length wide_source_span] accumulator)
                      [0..<8] accumulator)
                  [start..<Suc stop] accumulator
           in s\<lparr>npu := (npu s)\<lparr>acc_register := accumulator\<rparr>\<rparr>)"

subsection \<open>CoralNPUVDwconv\<close>

text \<open>The activation registers the command selects.\<close>

definition vs1_idx :: "nat \<Rightarrow> nat list" where
  "vs1_idx regbase =
     (if regbase \<le> 6 then [regbase, regbase + 1, regbase + 2]
      else if regbase = 7 then [1, 0, 2]
      else if regbase \<le> 11 then [2 * regbase - 15, 2 * regbase - 15 + 1, 0]
      else [2 * regbase - 22, 0, 1])"

text \<open>The three rows of activations; an undefined sparsity leaves the array as it was, \<open>garbage\<close>.\<close>

definition a_data :: "u32 \<Rightarrow> u32 list \<Rightarrow> u32 list \<Rightarrow> u32 list \<Rightarrow> u32 list \<Rightarrow> u32 list" where
  "a_data sparsity garbage vs10_span vs11_span vs12_span =
     (if sparsity = 0 then take 8 vs10_span @ take 8 vs11_span @ take 8 vs12_span
      else if sparsity = 1 then
        [vs10_span ! 7] @ take 7 vs11_span @ take 8 vs11_span @ take 7 (drop 1 vs11_span) @ [vs12_span ! 0]
      else if sparsity = 2 then
        take 8 vs10_span @ take 7 (drop 1 vs10_span) @ [vs11_span ! 0]
          @ take 6 (drop 2 vs10_span) @ [vs11_span ! 0, vs11_span ! 1]
      else garbage)"

text \<open>One product of row \<open>r\<close>; the accumulator is read as \<open>int32_t\<close>, its addition wraps.\<close>

definition vdwconv_step ::
    "vdwconv_u8_t \<Rightarrow> u8 list \<Rightarrow> u8 list \<Rightarrow> nat \<Rightarrow> u32 list \<Rightarrow> u32 list" where
  "vdwconv_step cmd a_span b_span i acc =
     (let a = lane_int (dw_sdata1 cmd) (a_span ! i) + dw_sbias1 cmd;
          b = lane_int (dw_sdata2 cmd) (b_span ! i) + dw_sbias2 cmd;
          p = kVectorLenInWord * kInterleave (i mod 4) + i div 4
      in acc[p := acc ! p + word_of_int (a * b)])"

definition vdwconv_products :: "vdwconv_u8_t \<Rightarrow> u32 list \<Rightarrow> (nat \<Rightarrow> u8 list) \<Rightarrow> u32 list \<Rightarrow> u32 list" where
  "vdwconv_products cmd a b_span acc =
     fold (\<lambda>r acc.
        let a_span = unlanes (take kVectorLenInWord (drop (r * kVectorLenInWord) a)) in
        fold (vdwconv_step cmd a_span (b_span r)) [0..<kVectorLenInByte] acc)
      [0..<kDwRegisterProducts] acc"

definition CoralNPUVDwconv :: "bool \<Rightarrow> vm_inst \<Rightarrow> u64 \<Rightarrow> u32 list \<Rightarrow> 'm machine \<Rightarrow> 'm machine" where
  "CoralNPUVDwconv write_acc inst address garbage s =
     (let dwconv_cmd = vdwconv_cmd (GetInstructionSource inst 1 s);
          idx = vs1_idx (unat (dw_regbase dwconv_cmd));
          span = (\<lambda>i. source_span inst 0 (idx ! i) s);
          a = a_data (dw_sparsity dwconv_cmd) garbage (span 0) (span 1) (span 2);
          s = (if dw_sparsity dwconv_cmd > 2
               then s\<lparr>npu := Trap False 0 kIllegalInstruction address (npu s)\<rparr> else s);
          acc = vdwconv_products dwconv_cmd a (\<lambda>r. source_span inst 2 r s) (depthwise_acc_register (npu s));
          s = s\<lparr>npu := (npu s)\<lparr>depthwise_acc_register := acc\<rparr>\<rparr>
      in if \<not> write_acc then s
         else fold (\<lambda>i s.
             let dest_span = fold (\<lambda>j dest_span. dest_span[j := acc ! (i * kVectorLenInWord + j)])
                   [0..<kVectorLenInWord] (lanes (fresh inst i) :: u32 list)
             in submit inst i dest_span s)
           [0..<4] s)"

end
