(* ===== verification/NPU_RenodeMemory.thy ===== *)
theory NPU_RenodeMemory
  imports NPU_State NPU_Memory
begin

text \<open>
  The memory that a Renode \<open>MappedMemory\<close> shares with the simulator
  (\<open>sim/renode/coralnpu_renode_memory.{h,cc}\<close>): a vector of equally sized blocks that is read and
  written across block boundaries. A failed \<open>ABSL_HARDENING_ASSERT\<close>, an access outside a block or
  outside a span, and a copy loop that makes no progress are the result \<open>None\<close>.
\<close>

record renode_memory =
  addressable_unit_shift :: nat
  addressable_unit_size :: int
  allocation_byte_size :: int
  memory_block_size_bytes :: u64
  base_address :: u64
  max_address :: u64
  block_map :: "u8 list list"

text \<open>\<open>absl::bit_width\<close>.\<close>

fun bit_width :: "nat \<Rightarrow> nat" where
  "bit_width n = (if n = 0 then 0 else Suc (bit_width (n div 2)))"

text \<open>The constructor takes the first \<open>num_block\<close> pointers of Renode's array.\<close>

definition CoralNPURenodeMemory ::
    "u64 \<Rightarrow> u64 \<Rightarrow> u8 list list \<Rightarrow> u64 \<Rightarrow> u32 \<Rightarrow> renode_memory option" where
  "CoralNPURenodeMemory block_size_bytes memory_size_bytes block_ptr_list base unit_size =
     (let max = base + memory_size_bytes;
          num_block = (max + block_size_bytes - 1) div block_size_bytes
      in if max > kCoralnpuMaxMemoryAddress \<and> unat num_block \<le> length block_ptr_list
         then Some \<lparr>addressable_unit_shift = bit_width (unat unit_size) - 1,
           addressable_unit_size = sint unit_size,
           allocation_byte_size = c_wrap True 32 (uint (block_size_bytes * ucast unit_size)),
           memory_block_size_bytes = block_size_bytes, base_address = base,
           max_address = max, block_map = take (unat num_block) block_ptr_list\<rparr>
         else None)"

definition IsValidAddress :: "renode_memory \<Rightarrow> u64 \<Rightarrow> u64 \<Rightarrow> bool" where
  "IsValidAddress M address high_address \<longleftrightarrow> address \<ge> base_address M \<and> high_address \<le> max_address M"

subsection \<open>The copy loop\<close>

text \<open>
  One round of \<open>LoadStoreHelper\<close>: the block, the byte offset in it, and the units and bytes to copy.
\<close>

record block_slice =
  block_idx :: nat
  block_byte_offset :: int
  store_size_in_units :: int
  store_size_in_bytes :: int

definition slice_at :: "renode_memory \<Rightarrow> u64 \<Rightarrow> int \<Rightarrow> block_slice" where
  "slice_at M address size_in_units =
     (let block_idx = address div memory_block_size_bytes M;
          block_unit_offset = c_wrap True 32 (uint (address - block_idx * memory_block_size_bytes M));
          store_size_in_units = min size_in_units (allocation_byte_size M - block_unit_offset)
      in \<lparr>block_idx = unat block_idx,
          block_byte_offset = push_bit (addressable_unit_shift M) block_unit_offset,
          store_size_in_units = store_size_in_units,
          store_size_in_bytes = push_bit (addressable_unit_shift M) store_size_in_units\<rparr>)"

text \<open>The copied bytes lie inside the block.\<close>

definition slice_ok :: "renode_memory \<Rightarrow> block_slice \<Rightarrow> bool" where
  "slice_ok M b \<longleftrightarrow> block_idx b < length (block_map M) \<and> 0 \<le> block_byte_offset b
     \<and> 0 \<le> store_size_in_bytes b
     \<and> block_byte_offset b + store_size_in_bytes b \<le> int (length (block_map M ! block_idx b))"

partial_function (option) load_loop :: "renode_memory \<Rightarrow> u64 \<Rightarrow> int \<Rightarrow> u8 list \<Rightarrow> u8 list option" where
  "load_loop M address size_in_units out =
     (let b = slice_at M address size_in_units in
      if slice_ok M b then
        (let out = out @ take (nat (store_size_in_bytes b))
               (drop (nat (block_byte_offset b)) (block_map M ! block_idx b));
             size_in_units = size_in_units - store_size_in_units b;
             address = address + word_of_int (store_size_in_units b)
         in if size_in_units > 0 then load_loop M address size_in_units out else Some out)
      else None)"

partial_function (option) store_loop ::
    "renode_memory \<Rightarrow> u64 \<Rightarrow> int \<Rightarrow> u8 list \<Rightarrow> renode_memory option" where
  "store_loop M address size_in_units bytes =
     (let b = slice_at M address size_in_units in
      if slice_ok M b \<and> store_size_in_bytes b \<le> int (length bytes) then
        (let n = nat (store_size_in_bytes b);
             block = overwrite (nat (block_byte_offset b)) (take n bytes) (block_map M ! block_idx b);
             M = M\<lparr>block_map := (block_map M)[block_idx b := block]\<rparr>;
             bytes = drop n bytes;
             size_in_units = size_in_units - store_size_in_units b;
             address = address + word_of_int (store_size_in_units b)
         in if size_in_units > 0 then store_loop M address size_in_units bytes else Some M)
      else None)"

definition LoadStoreHelper_load :: "renode_memory \<Rightarrow> u64 \<Rightarrow> int \<Rightarrow> u8 list option" where
  "LoadStoreHelper_load M address size_in_units =
     (if address < max_address M then load_loop M address size_in_units [] else None)"

definition LoadStoreHelper_store :: "renode_memory \<Rightarrow> u64 \<Rightarrow> u8 list \<Rightarrow> int \<Rightarrow> renode_memory option" where
  "LoadStoreHelper_store M address bytes size_in_units =
     (if address < max_address M then store_loop M address size_in_units bytes else None)"

subsection \<open>Loads and stores\<close>

text \<open>
  What happens to the instruction passed to a load: nothing when there is none, otherwise it is
  executed at once or queued on the delay line with the buffer's latency.
\<close>

datatype completion = NoInstruction | ExecuteNow | DelayLine int

definition complete_load :: "bool \<Rightarrow> int \<Rightarrow> completion" where
  "complete_load has_inst latency =
     (if has_inst then (if latency > 0 then DelayLine latency else ExecuteNow) else NoInstruction)"

definition Renode_Load ::
    "renode_memory \<Rightarrow> u64 \<Rightarrow> u8 list \<Rightarrow> bool \<Rightarrow> int \<Rightarrow> (u8 list \<times> completion) option" where
  "Renode_Load M address db has_inst latency =
     (let size_in_units = int (length db) div addressable_unit_size M;
          high = address + word_of_int size_in_units
      in if IsValidAddress M address high \<and> size_in_units > 0
         then (case LoadStoreHelper_load M address size_in_units of None \<Rightarrow> None
               | Some bs \<Rightarrow> if length bs \<le> length db
                   then Some (overwrite 0 bs db, complete_load has_inst latency) else None)
         else None)"

definition Renode_Store :: "renode_memory \<Rightarrow> u64 \<Rightarrow> u8 list \<Rightarrow> renode_memory option" where
  "Renode_Store M address db =
     (let size_in_units = int (length db) div addressable_unit_size M;
          high = address + word_of_int size_in_units
      in if IsValidAddress M address high \<and> size_in_units > 0
         then LoadStoreHelper_store M address db size_in_units else None)"

text \<open>
  The address of element \<open>i\<close>: with more than one address the access is a gather or scatter,
  otherwise it has unit stride. Reading past the address span is \<open>None\<close>.
\<close>

definition element_address :: "u64 list \<Rightarrow> int \<Rightarrow> nat \<Rightarrow> u64 option" where
  "element_address address_span el_size i =
     (if length address_span > 1
      then (if i < length address_span then Some (address_span ! i) else None)
      else (case address_span of [] \<Rightarrow> None | a # _ \<Rightarrow> Some (a + word_of_int (int i * el_size))))"

definition load_element ::
    "renode_memory \<Rightarrow> u64 list \<Rightarrow> bool list \<Rightarrow> int \<Rightarrow> nat \<Rightarrow> u8 list option \<Rightarrow> u8 list option" where
  "load_element M address_span mask_span el_size i r =
     (case r of None \<Rightarrow> None | Some db \<Rightarrow>
        if \<not> mask_span ! i then Some db
        else (let size_in_units = el_size div addressable_unit_size M in
          case element_address address_span el_size i of None \<Rightarrow> None | Some address \<Rightarrow>
            if IsValidAddress M address (address + word_of_int size_in_units)
            then (case LoadStoreHelper_load M address size_in_units of None \<Rightarrow> None
                  | Some bs \<Rightarrow> if nat el_size * i + length bs \<le> length db
                      then Some (overwrite (nat el_size * i) bs db) else None)
            else None))"

definition Renode_LoadMasked ::
    "renode_memory \<Rightarrow> u64 list \<Rightarrow> bool list \<Rightarrow> int \<Rightarrow> u8 list \<Rightarrow> bool \<Rightarrow> int
     \<Rightarrow> (u8 list \<times> completion) option" where
  "Renode_LoadMasked M address_span mask_span el_size db has_inst latency =
     (if el_size div addressable_unit_size M > 0
      then map_option (\<lambda>db. (db, complete_load has_inst latency))
        (fold (load_element M address_span mask_span el_size) [0..<length mask_span] (Some db))
      else None)"

definition store_element ::
    "u64 list \<Rightarrow> bool list \<Rightarrow> int \<Rightarrow> u8 list \<Rightarrow> nat \<Rightarrow> renode_memory option \<Rightarrow> renode_memory option" where
  "store_element address_span mask_span el_size db i r =
     (case r of None \<Rightarrow> None | Some M \<Rightarrow>
        if \<not> mask_span ! i then Some M
        else (let size_in_units = el_size div addressable_unit_size M in
          case element_address address_span el_size i of None \<Rightarrow> None | Some address \<Rightarrow>
            if IsValidAddress M address (address + word_of_int size_in_units)
            then LoadStoreHelper_store M address (drop (nat el_size * i) db) size_in_units
            else None))"

definition Renode_StoreMasked ::
    "renode_memory \<Rightarrow> u64 list \<Rightarrow> bool list \<Rightarrow> int \<Rightarrow> u8 list \<Rightarrow> renode_memory option" where
  "Renode_StoreMasked M address_span mask_span el_size db =
     (if el_size div addressable_unit_size M > 0
      then fold (store_element address_span mask_span el_size db) [0..<length mask_span] (Some M)
      else None)"

end
