(* ===== verification/NPU_RenodeMemoryProps.thy ===== *)
theory NPU_RenodeMemoryProps
  imports NPU_RenodeMemory
begin

text \<open>
  The block memory implements a flat byte memory. \<open>flat\<close> is the abstraction function, \<open>renode_ok\<close>
  the representation invariant; loads read the flat memory, stores update it, whatever block
  boundaries they cross, and everything outside the address range is refused.
\<close>

subsection \<open>Abstraction and invariant\<close>

definition block_size :: "renode_memory \<Rightarrow> nat" where
  "block_size M = unat (memory_block_size_bytes M)"

definition flat :: "renode_memory \<Rightarrow> nat \<Rightarrow> u8" where
  "flat M a = block_map M ! (a div block_size M) ! (a mod block_size M)"

definition renode_ok :: "renode_memory \<Rightarrow> bool" where
  "renode_ok M \<longleftrightarrow> addressable_unit_shift M = 0 \<and> addressable_unit_size M = 1
     \<and> allocation_byte_size M = int (block_size M) \<and> 0 < block_size M \<and> block_size M < 2 ^ 31
     \<and> (\<forall>b \<in> set (block_map M). length b = block_size M)
     \<and> unat (max_address M) \<le> block_size M * length (block_map M)"

text \<open>Everything but the contents of the blocks.\<close>

definition same_layout :: "renode_memory \<Rightarrow> renode_memory \<Rightarrow> bool" where
  "same_layout M M' \<longleftrightarrow> M' = M\<lparr>block_map := block_map M'\<rparr>"

lemma same_layout_refl [simp]: "same_layout M M"
  by (simp add: same_layout_def)

lemma same_layout_fields:
  assumes "same_layout M M'"
  shows "base_address M' = base_address M" "max_address M' = max_address M"
    "memory_block_size_bytes M' = memory_block_size_bytes M" "addressable_unit_size M' = addressable_unit_size M"
    "addressable_unit_shift M' = addressable_unit_shift M" "allocation_byte_size M' = allocation_byte_size M"
  using assms by (auto simp: same_layout_def) (metis renode_memory.select_convs renode_memory.surjective renode_memory.update_convs(7))+

lemma same_layout_trans: "same_layout M N \<Longrightarrow> same_layout N K \<Longrightarrow> same_layout M K"
  unfolding same_layout_def by (metis renode_memory.surjective renode_memory.update_convs(7))

lemma slice_at_ok:
  assumes "renode_ok M" "unat a < unat (max_address M)" "0 < n"
  shows "slice_at M a (int n) = \<lparr>block_idx = unat a div block_size M,
      block_byte_offset = int (unat a mod block_size M),
      store_size_in_units = int (min n (block_size M - unat a mod block_size M)),
      store_size_in_bytes = int (min n (block_size M - unat a mod block_size M))\<rparr>"
    and "slice_ok M (slice_at M a (int n))"
proof -
  let ?b = "memory_block_size_bytes M" and ?B = "block_size M"
  have B: "0 < ?B" "?B < 2 ^ 31" "unat ?b = ?B" and s: "addressable_unit_shift M = 0" "allocation_byte_size M = int ?B"
    using assms(1) by (auto simp: renode_ok_def block_size_def)
  have "a - a div ?b * ?b = a mod ?b" by (simp add: minus_div_mult_eq_mod)
  then have u: "uint (a - a div ?b * ?b) = int (unat a mod ?B)"
    using B by (simp add: uint_nat unat_mod_distrib)
  have lt: "unat a mod ?B < ?B" using B by simp
  then have "unat a mod ?B < 2 ^ 31" using B(2) by linarith
  then have "int (unat a mod ?B) < 2 ^ 31" by (simp only: of_nat_less_numeral_power_cancel_iff)
  then have w: "c_wrap True 32 (uint (a - a div ?b * ?b)) = int (unat a mod ?B)"
    unfolding u by (intro c_wrap_id) auto
  have d: "unat (a div ?b) = unat a div ?B" using B by (simp add: unat_div_distrib)
  have m: "min (int n) (int ?B - int (unat a mod ?B)) = int (min n (?B - unat a mod ?B))"
    by (simp only: of_nat_diff [OF less_imp_le [OF lt]] of_nat_min)
  show eq: "slice_at M a (int n) = \<lparr>block_idx = unat a div ?B, block_byte_offset = int (unat a mod ?B),
      store_size_in_units = int (min n (?B - unat a mod ?B)), store_size_in_bytes = int (min n (?B - unat a mod ?B))\<rparr>"
    unfolding slice_at_def Let_def w d s(1,2) m by simp
  have "unat a < length (block_map M) * ?B"
    using assms(1,2) by (simp add: renode_ok_def mult.commute)
  then have i: "unat a div ?B < length (block_map M)" using B by (simp add: less_mult_imp_div_less)
  then have "length (block_map M ! (unat a div ?B)) = ?B" using assms(1) by (simp add: renode_ok_def)
  then show "slice_ok M (slice_at M a (int n))"
    unfolding slice_ok_def eq using i lt by auto
qed

lemma flat_in_block:
  assumes "0 < block_size M" "i < block_size M - a mod block_size M"
  shows "flat M (a + i) = block_map M ! (a div block_size M) ! (a mod block_size M + i)"
proof -
  have lt: "a mod block_size M + i < block_size M" using assms mod_less_divisor [of "block_size M" a] by linarith
  have e: "a + i = (a mod block_size M + i) + a div block_size M * block_size M"
    using div_mult_mod_eq [of a "block_size M"] by linarith
  have "(a + i) div block_size M = a div block_size M"
    unfolding e using lt assms(1) by (subst div_mult_self1) simp_all
  moreover have "(a + i) mod block_size M = a mod block_size M + i"
    unfolding e using lt by (subst mod_mult_self1) simp
  ultimately show ?thesis by (simp add: flat_def)
qed

lemma unat_add_int: "unat (a :: u64) + k < 2 ^ 64 \<Longrightarrow> unat (a + word_of_int (int k)) = unat a + k"
  by (simp add: unat_word_ariths take_bit_nat_eq_self unsigned_of_nat)

lemma max_address_lt: "unat (max_address M) < 2 ^ 64"
  using unsigned_less [of "max_address M", where 'a = nat] by simp

lemma block_chunk:
  assumes "renode_ok M" "unat a < unat (max_address M)" "c \<le> block_size M - unat a mod block_size M"
  shows "take c (drop (unat a mod block_size M) (block_map M ! (unat a div block_size M))) = map (flat M) [unat a..<unat a + c]"
proof -
  have B: "0 < block_size M" using assms(1) by (simp add: renode_ok_def)
  have "unat a < length (block_map M) * block_size M"
    using assms(1,2) by (simp add: renode_ok_def mult.commute)
  then have "unat a div block_size M < length (block_map M)" using B by (simp add: less_mult_imp_div_less)
  then have l: "length (block_map M ! (unat a div block_size M)) = block_size M" using assms(1) by (simp add: renode_ok_def)
  show ?thesis
    using assms(3) by (intro nth_equalityI) (auto simp: l flat_in_block [OF B])
qed

subsection \<open>The load loop\<close>

lemma load_loop_round:
  assumes "renode_ok M" "unat a < unat (max_address M)" "0 < n" "c = min n (block_size M - unat a mod block_size M)"
  shows "load_loop M a (int n) out =
    (if c < n then load_loop M (a + word_of_int (int c)) (int (n - c)) (out @ map (flat M) [unat a..<unat a + c])
     else Some (out @ map (flat M) [unat a..<unat a + c]))"
proof -
  have d: "int n - int c = int (n - c)" using assms(4) by simp
  have ch: "take c (drop (unat a mod block_size M) (block_map M ! (unat a div block_size M))) = map (flat M) [unat a..<unat a + c]"
    using assms by (intro block_chunk) simp_all
  note sl = slice_at_ok [OF assms(1-3), folded assms(4)]
  show ?thesis
    apply (subst load_loop.simps)
    unfolding Let_def sl(1)
    apply (simp only: sl(2) [unfolded sl(1)] block_slice.select_convs nat_int ch d if_True of_nat_0_less_iff zero_less_diff)
    done
qed

lemma block_round:
  assumes "renode_ok M" "0 < n" "unat (a :: u64) + n \<le> unat (max_address M)"
  obtains c where "c = min n (block_size M - unat a mod block_size M)" "0 < c" "c \<le> n"
    "unat (a + word_of_int (int c)) = unat a + c" "unat a < unat (max_address M)"
proof
  let ?c = "min n (block_size M - unat a mod block_size M)"
  have "0 < block_size M" using assms(1) by (simp add: renode_ok_def)
  then show "0 < ?c" using assms(2) by simp
  show "unat (a + word_of_int (int ?c)) = unat a + ?c"
    using assms(3) max_address_lt [of M] by (intro unat_add_int) linarith
qed (use assms in auto)

lemma load_loop_flat:
  assumes "renode_ok M"
  shows "0 < n \<Longrightarrow> unat a + n \<le> unat (max_address M) \<Longrightarrow>
    load_loop M a (int n) out = Some (out @ map (flat M) [unat a..<unat a + n])"
proof (induction n arbitrary: a out rule: less_induct)
  case (less n)
  obtain c where c: "c = min n (block_size M - unat a mod block_size M)" "0 < c" "c \<le> n"
    "unat (a + word_of_int (int c)) = unat a + c" "unat a < unat (max_address M)"
    using block_round [OF assms less.prems] by metis
  note r = load_loop_round [OF assms c(5) less.prems(1) c(1), of out]
  show ?case
  proof (cases "c < n")
    case True
    have "[unat a..<unat a + n] = [unat a..<unat a + c] @ [unat a + c..<unat a + c + (n - c)]"
      using upt_add_eq_append [of "unat a" "unat a + c" "n - c"] c(3) by simp
    moreover have "load_loop M (a + word_of_int (int c)) (int (n - c)) (out @ map (flat M) [unat a..<unat a + c])
        = Some ((out @ map (flat M) [unat a..<unat a + c]) @ map (flat M) [unat a + c..<unat a + c + (n - c)])"
      using less.IH [of "n - c" "a + word_of_int (int c)"] True c less.prems by simp
    ultimately show ?thesis using r True by simp
  next
    case False
    then show ?thesis using r c(3) by simp
  qed
qed

subsection \<open>The store loop\<close>

lemma flat_store_block:
  assumes "renode_ok M" "unat a < unat (max_address M)" "c \<le> block_size M - unat a mod block_size M" "length bs = c"
    and "M' = M\<lparr>block_map := (block_map M)[unat a div block_size M :=
      overwrite (unat a mod block_size M) bs (block_map M ! (unat a div block_size M))]\<rparr>"
  shows "renode_ok M'" "same_layout M M'" "flat M' = write_range (unat a) bs (flat M)"
proof -
  let ?B = "block_size M" and ?i = "unat a div block_size M" and ?o = "unat a mod block_size M"
  have B: "0 < ?B" using assms(1) by (simp add: renode_ok_def)
  have "unat a < length (block_map M) * ?B"
    using assms(1,2) by (simp add: renode_ok_def mult.commute)
  then have i: "?i < length (block_map M)" using B by (simp add: less_mult_imp_div_less)
  then have l: "length (block_map M ! ?i) = ?B" using assms(1) by (simp add: renode_ok_def)
  have o: "?o < ?B" using B by simp
  have ls: "length (overwrite ?o bs (block_map M ! ?i)) = ?B"
    using assms(3,4) o l by (subst length_overwrite) simp_all
  have bs: "block_size M' = ?B" by (simp add: assms(5) block_size_def)
  have fields: "addressable_unit_shift M' = addressable_unit_shift M" "addressable_unit_size M' = addressable_unit_size M"
    "allocation_byte_size M' = allocation_byte_size M" "max_address M' = max_address M"
    "length (block_map M') = length (block_map M)"
    "set (block_map M') \<subseteq> insert (overwrite ?o bs (block_map M ! ?i)) (set (block_map M))"
    by (simp_all add: assms(5) set_update_subset_insert)
  show "same_layout M M'" by (simp add: same_layout_def assms(5))
  show "renode_ok M'"
    using assms(1) ls fields(6) by (auto simp: renode_ok_def bs fields(1-5))
  show "flat M' = write_range (unat a) bs (flat M)"
  proof
    fix x
    have e: "unat a = ?o + ?i * ?B" by simp
    show "flat M' x = write_range (unat a) bs (flat M) x"
    proof (cases "x div ?B = ?i")
      case True
      then have x: "x = x mod ?B + ?i * ?B" by (metis add.commute div_mult_mod_eq)
      have m: "x mod ?B < ?B" using B by simp
      have in_r: "(unat a \<le> x \<and> x < unat a + length bs) = (?o \<le> x mod ?B \<and> x mod ?B < ?o + length bs)"
        and dif: "x - unat a = x mod ?B - ?o" using e x by linarith+
      have "flat M' x = overwrite ?o bs (block_map M ! ?i) ! (x mod ?B)"
        using True i by (simp add: flat_def bs) (simp add: assms(5))
      also have "\<dots> = (if ?o \<le> x mod ?B \<and> x mod ?B < ?o + length bs then bs ! (x mod ?B - ?o) else block_map M ! ?i ! (x mod ?B))"
        using l o m assms(3,4) by (auto simp: overwrite_def nth_append min_def)
      finally show ?thesis using True by (simp add: write_range_def in_r dif flat_def)
    next
      case False
      have "\<not> (unat a \<le> x \<and> x < unat a + length bs)"
      proof
        assume r: "unat a \<le> x \<and> x < unat a + length bs"
        then have "x = (?o + (x - unat a)) + ?i * ?B" "?o + (x - unat a) < ?B" using e assms(3,4) o by linarith+
        then have "x div ?B = ?i" by (metis B add.commute div_less div_mult_self1 less_not_refl3 add_0)
        then show False using False by simp
      qed
      moreover have "flat M' x = flat M x" using False by (simp add: flat_def bs) (simp add: assms(5))
      ultimately show ?thesis by (auto simp: write_range_def)
    qed
  qed
qed

lemma store_loop_round:
  assumes "renode_ok M" "unat a < unat (max_address M)" "0 < n" "c = min n (block_size M - unat a mod block_size M)"
    and "n \<le> length bs"
    and "M' = M\<lparr>block_map := (block_map M)[unat a div block_size M :=
      overwrite (unat a mod block_size M) (take c bs) (block_map M ! (unat a div block_size M))]\<rparr>"
  shows "store_loop M a (int n) bs =
    (if c < n then store_loop M' (a + word_of_int (int c)) (int (n - c)) (drop c bs) else Some M')"
proof -
  have d: "int n - int c = int (n - c)" and l: "int c \<le> int (length bs)" using assms(4,5) by simp_all
  note sl = slice_at_ok [OF assms(1-3), folded assms(4)]
  show ?thesis
    apply (subst store_loop.simps)
    unfolding Let_def sl(1)
    apply (simp only: sl(2) [unfolded sl(1)] block_slice.select_convs nat_int d l simp_thms if_True of_nat_0_less_iff
        zero_less_diff assms(6) [symmetric])
    done
qed

lemma store_loop_flat:
  "renode_ok M \<Longrightarrow> 0 < n \<Longrightarrow> unat a + n \<le> unat (max_address M) \<Longrightarrow> n \<le> length bs \<Longrightarrow>
    \<exists>M'. store_loop M a (int n) bs = Some M' \<and> renode_ok M' \<and> same_layout M M'
      \<and> flat M' = write_range (unat a) (take n bs) (flat M)"
proof (induction n arbitrary: a bs M rule: less_induct)
  case (less n)
  obtain c where c: "c = min n (block_size M - unat a mod block_size M)" "0 < c" "c \<le> n"
    "unat (a + word_of_int (int c)) = unat a + c" "unat a < unat (max_address M)"
    using block_round [OF less.prems(1-3)] by metis
  have cb: "c \<le> block_size M - unat a mod block_size M" "length (take c bs) = c" using c(1,3) less.prems(4) by simp_all
  define M1 where "M1 = M\<lparr>block_map := (block_map M)[unat a div block_size M :=
      overwrite (unat a mod block_size M) (take c bs) (block_map M ! (unat a div block_size M))]\<rparr>"
  note r = store_loop_round [OF less.prems(1) c(5) less.prems(2) c(1) less.prems(4) M1_def]
  note s = flat_store_block [OF less.prems(1) c(5) cb M1_def]
  show ?case
  proof (cases "c < n")
    case True
    have "\<exists>M'. store_loop M1 (a + word_of_int (int c)) (int (n - c)) (drop c bs) = Some M' \<and> renode_ok M'
        \<and> same_layout M1 M' \<and> flat M' = write_range (unat (a + word_of_int (int c))) (take (n - c) (drop c bs)) (flat M1)"
      using True c less.prems same_layout_fields(2) [OF s(2)] by (intro less.IH s(1)) simp_all
    then obtain M' where M': "store_loop M1 (a + word_of_int (int c)) (int (n - c)) (drop c bs) = Some M'" "renode_ok M'"
      "same_layout M1 M'" "flat M' = write_range (unat a + c) (take (n - c) (drop c bs)) (write_range (unat a) (take c bs) (flat M))"
      unfolding c(4) s(3) by blast
    have "take n bs = take c bs @ take (n - c) (drop c bs)"
      using take_add [of c "n - c" bs] c(3) by simp
    then have "flat M' = write_range (unat a) (take n bs) (flat M)"
      using M'(4) cb(2) by (simp add: write_range_append)
    then show ?thesis using M' r True same_layout_trans [OF s(2) M'(3)] by auto
  next
    case False
    then show ?thesis using r s c(3) by simp
  qed
qed

subsection \<open>Whole accesses\<close>

text \<open>The bytes from \<open>a\<close> up to \<open>a + n\<close> belong to the memory.\<close>

definition mem_range :: "renode_memory \<Rightarrow> nat \<Rightarrow> nat \<Rightarrow> bool" where
  "mem_range M a n \<longleftrightarrow> unat (base_address M) \<le> a \<and> a + n \<le> unat (max_address M)"

lemma mem_range_layout: "same_layout M M' \<Longrightarrow> mem_range M' = mem_range M"
  by (simp add: mem_range_def fun_eq_iff same_layout_fields)

lemma valid_range:
  assumes "mem_range M (unat a) n" "0 < n"
  shows "IsValidAddress M a (a + word_of_int (int n))" "a < max_address M"
proof -
  have "unat (a + word_of_int (int n)) = unat a + n"
    using assms max_address_lt [of M] by (intro unat_add_int) (simp add: mem_range_def)
  then show "IsValidAddress M a (a + word_of_int (int n))" "a < max_address M"
    using assms by (auto simp: IsValidAddress_def mem_range_def word_le_nat_alt word_less_nat_alt)
qed

lemma LoadStoreHelper_load_flat:
  "renode_ok M \<Longrightarrow> mem_range M (unat a) n \<Longrightarrow> 0 < n \<Longrightarrow>
     LoadStoreHelper_load M a (int n) = Some (map (flat M) [unat a..<unat a + n])"
  using load_loop_flat [of M n a "[]"] valid_range [of M a n]
  by (simp add: LoadStoreHelper_load_def mem_range_def)

lemma LoadStoreHelper_store_flat:
  "renode_ok M \<Longrightarrow> mem_range M (unat a) n \<Longrightarrow> 0 < n \<Longrightarrow> n \<le> length bs \<Longrightarrow>
     \<exists>M'. LoadStoreHelper_store M a bs (int n) = Some M' \<and> renode_ok M' \<and> same_layout M M'
       \<and> flat M' = write_range (unat a) (take n bs) (flat M)"
  using store_loop_flat [of M n a bs] valid_range [of M a n]
  by (simp add: LoadStoreHelper_store_def mem_range_def)

lemma ok_unit [simp]: "renode_ok M \<Longrightarrow> addressable_unit_size M = 1"
  by (simp add: renode_ok_def)

subsection \<open>Element-wise accesses\<close>

definition masked_gather :: "u64 list \<Rightarrow> bool list \<Rightarrow> nat \<Rightarrow> u8 list \<Rightarrow> (nat \<Rightarrow> u8) \<Rightarrow> nat \<Rightarrow> u8 list" where
  "masked_gather as msk sz db f k = concat (map (\<lambda>i. if msk ! i then map f [unat (as ! i)..<unat (as ! i) + sz]
     else element sz db i) [0..<k])"

definition masked_scatter :: "u64 list \<Rightarrow> bool list \<Rightarrow> nat \<Rightarrow> u8 list \<Rightarrow> nat \<Rightarrow> (nat \<Rightarrow> u8) \<Rightarrow> nat \<Rightarrow> u8" where
  "masked_scatter as msk sz db k f =
     fold (\<lambda>i f. if msk ! i then write_range (unat (as ! i)) (element sz db i) f else f) [0..<k] f"

lemma length_masked_gather: "k * sz \<le> length db \<Longrightarrow> length (masked_gather as msk sz db f k) = k * sz"
  by (induction k) (simp_all add: masked_gather_def length_element)

lemma element_address_nth: "i < length as \<Longrightarrow> element_address as el_size i = Some (as ! i)"
  by (auto simp: element_address_def split: list.splits)

lemma drop_Suc_element: "(i + 1) * sz \<le> length db \<Longrightarrow> drop (i * sz) db = element sz db i @ drop ((i + 1) * sz) db"
  by (simp add: element_def flip: drop_drop)

lemma load_elements_loop:
  assumes "renode_ok M" "0 < sz" "length db = length as * sz" "length msk = length as"
    and "\<And>i. i < length as \<Longrightarrow> msk ! i \<Longrightarrow> mem_range M (unat (as ! i)) sz"
  shows "k \<le> length as \<Longrightarrow> fold (load_element M as msk (int sz)) [0..<k] (Some db)
    = Some (masked_gather as msk sz db (flat M) k @ drop (k * sz) db)"
proof (induction k)
  case 0
  then show ?case by (simp add: masked_gather_def)
next
  case (Suc k)
  have b: "(k + 1) * sz \<le> length db" using Suc.prems mult_le_mono1 [of "k + 1" "length as" sz] assms(3) by simp
  then have l: "length (masked_gather as msk sz db (flat M) k) = k * sz" by (intro length_masked_gather) simp
  note d = drop_Suc_element [OF b]
  show ?case
  proof (cases "msk ! k")
    case True
    have r: "mem_range M (unat (as ! k)) sz" using assms(5) True Suc.prems by simp
    show ?thesis
      using Suc True LoadStoreHelper_load_flat [OF assms(1) r assms(2)] valid_range(1) [OF r assms(2)] l b assms(1)
      by (simp add: load_element_def element_address_nth overwrite_def masked_gather_def mult.commute [of sz k])
  next
    case False
    then show ?thesis using Suc d by (simp add: load_element_def masked_gather_def)
  qed
qed

lemma store_elements_loop:
  assumes "renode_ok M" "0 < sz" "length db = length as * sz" "length msk = length as"
    and "\<And>i. i < length as \<Longrightarrow> msk ! i \<Longrightarrow> mem_range M (unat (as ! i)) sz"
  shows "k \<le> length as \<Longrightarrow> \<exists>M'. fold (store_element as msk (int sz) db) [0..<k] (Some M) = Some M'
    \<and> renode_ok M' \<and> same_layout M M' \<and> flat M' = masked_scatter as msk sz db k (flat M)"
proof (induction k)
  case 0
  then show ?case using assms(1) by (simp add: masked_scatter_def)
next
  case (Suc k)
  obtain M1 where M1: "fold (store_element as msk (int sz) db) [0..<k] (Some M) = Some M1"
    "renode_ok M1" "same_layout M M1" "flat M1 = masked_scatter as msk sz db k (flat M)"
    using Suc by auto
  have b: "(k + 1) * sz \<le> length db" using Suc.prems mult_le_mono1 [of "k + 1" "length as" sz] assms(3) by simp
  then have bs: "sz \<le> length (drop (k * sz) db)" by simp
  show ?case
  proof (cases "msk ! k")
    case True
    have r: "mem_range M1 (unat (as ! k)) sz"
      using assms(5) [of k] True Suc.prems mem_range_layout [OF M1(3)] by simp
    obtain M2 where M2: "LoadStoreHelper_store M1 (as ! k) (drop (k * sz) db) (int sz) = Some M2" "renode_ok M2"
      "same_layout M1 M2" "flat M2 = write_range (unat (as ! k)) (element sz db k) (flat M1)"
      using LoadStoreHelper_store_flat [OF M1(2) r assms(2) bs] by (auto simp: element_def)
    have "store_element as msk (int sz) db k (Some M1) = Some M2"
      using True Suc.prems M1(2) M2(1) valid_range(1) [OF r assms(2)]
      by (simp add: store_element_def element_address_nth mult.commute)
    moreover have "flat M2 = masked_scatter as msk sz db (Suc k) (flat M)"
      using True M1(4) M2(4) by (simp add: masked_scatter_def)
    ultimately show ?thesis using M1 M2 same_layout_trans by auto
  next
    case False
    then have "store_element as msk (int sz) db k (Some M1) = Some M1" by (simp add: store_element_def)
    moreover have "flat M1 = masked_scatter as msk sz db (Suc k) (flat M)"
      using False M1(4) by (simp add: masked_scatter_def)
    ultimately show ?thesis using M1 by auto
  qed
qed

lemma masked_scatter_read:
  assumes "separate as sz" "length db = length as * sz" "i < length as" "msk ! i"
  shows "map (masked_scatter as msk sz db (length as) f) [unat (as ! i)..<unat (as ! i) + sz] = element sz db i"
proof -
  have l: "length (element sz db j) = sz" if "j < length as" for j
    using mult_le_mono1 [of "j + 1" "length as" sz] that assms(2) by (intro length_element) simp
  have "map (masked_scatter as msk sz db n f) [unat (as ! i)..<unat (as ! i) + sz] = element sz db i"
    if "i < n" "n \<le> length as" for n
    using that
  proof (induction n)
    case (Suc n)
    show ?case
    proof (cases "i = n")
      case True
      then show ?thesis
        using assms(3,4) l [of n] by (auto intro!: nth_equalityI simp: masked_scatter_def write_range_def)
    next
      case False
      then have "i < n" using Suc.prems by simp
      moreover have "unat (as ! i) + sz \<le> unat (as ! n) \<or> unat (as ! n) + sz \<le> unat (as ! i)"
        using assms(1) Suc.prems \<open>i < n\<close> by (simp add: separate_def)
      ultimately have "map (masked_scatter as msk sz db (Suc n) f) [unat (as ! i)..<unat (as ! i) + sz]
          = map (masked_scatter as msk sz db n f) [unat (as ! i)..<unat (as ! i) + sz]"
        using Suc.prems l [of n] by (auto simp: masked_scatter_def write_range_def)
      then show ?thesis using Suc \<open>i < n\<close> by simp
    qed
  qed simp
  then show ?thesis using assms(3) by simp
qed

text \<open>The Renode memory as a provider of the memory interface.\<close>

definition renode_if :: "renode_memory memory_if" where
  "renode_if = \<lparr>LoadMemory = \<lambda>as msk el db M. map_option fst (Renode_LoadMasked M as msk el db True 0),
     StoreMemory = \<lambda>as msk el db M. Renode_StoreMasked M as msk el db\<rparr>"

lemma masked_all:
  "masked_gather as (replicate (length as) True) sz db f (length as) = gather as sz f"
  "masked_scatter as (replicate (length as) True) sz db (length as) f = scatter as sz db f"
proof -
  have "map (\<lambda>i. if replicate (length as) True ! i then map f [unat (as ! i)..<unat (as ! i) + sz] else element sz db i)
      [0..<length as] = map (\<lambda>a. map f [unat a..<unat a + sz]) as"
    by (intro nth_equalityI) simp_all
  then show "masked_gather as (replicate (length as) True) sz db f (length as) = gather as sz f"
    unfolding masked_gather_def gather_def by (simp only:)
  show "masked_scatter as (replicate (length as) True) sz db (length as) f = scatter as sz db f"
    unfolding masked_scatter_def scatter_def by (rule fold_cong) (auto simp: fun_eq_iff)
qed

interpretation renode: byte_memory renode_if renode_ok mem_range flat
proof
  fix m :: renode_memory and sz :: nat and as :: "u64 list" and db :: "u8 list"
  assume ok: "renode_ok m" "0 < sz" and r: "\<forall>a \<in> set as. mem_range m (unat a) sz" and l: "length db = length as * sz"
  have r': "mem_range m (unat (as ! i)) sz" if "i < length as" for i using r that by simp
  show "LoadMemory renode_if as (replicate (length as) True) (int sz) db m = Some (gather as sz (flat m))"
    using load_elements_loop [OF ok l, of "replicate (length as) True" "length as"] r' l ok
    by (simp add: renode_if_def Renode_LoadMasked_def masked_all)
  show "\<exists>m'. StoreMemory renode_if as (replicate (length as) True) (int sz) db m = Some m' \<and> renode_ok m'
      \<and> mem_range m' = mem_range m \<and> flat m' = scatter as sz db (flat m)"
    using store_elements_loop [OF ok l, of "replicate (length as) True" "length as"] r' ok mem_range_layout
    by (auto simp: renode_if_def Renode_StoreMasked_def masked_all)
qed

end
