(* ===== verification/NPU_VectorMemoryProps.thy ===== *)
theory NPU_VectorMemoryProps
  imports NPU_VectorMemory NPU_RenodeMemoryProps
begin

text \<open>
  What the vector memory instructions do: the address loops produce one closed form, so that loads
  gather and stores scatter the elements of a two-dimensional access; the facts are proved inside
  the memory interface and hold for every memory that implements it.
\<close>

subsection \<open>Array loops\<close>

lemma fold_fill [loop_simps]:
  "fold (\<lambda>i xs. xs[b + i := f i]) [0..<c] xs
     = map (\<lambda>k. if b \<le> k \<and> k < b + c then f (k - b) else xs ! k) [0..<length xs]"
proof (induction c)
  case 0
  then show ?case by (intro nth_equalityI) auto
next
  case (Suc c)
  then show ?case by (auto intro!: nth_equalityI simp: nth_list_update less_Suc_eq)
qed

lemma fold_set_all [loop_simps]: "length xs = n \<Longrightarrow> fold (\<lambda>i xs. xs[i := f i]) [0..<n] xs = map f [0..<n]"
  using fold_fill [of 0 f n xs] by (auto intro: nth_equalityI)

lemma div_mod_block: "j < w \<Longrightarrow> (c * w + j) div w = c \<and> (c * w + j) mod w = (j :: nat)"
  by auto

subsection \<open>Addresses\<close>

text \<open>
  Element \<open>k\<close> of an access with rows of \<open>w\<close> elements: the row base wraps at 32 bits, the offset in
  the row is added in 64 bits.
\<close>

definition element_addr :: "'t::len itself \<Rightarrow> nat \<Rightarrow> u32 \<Rightarrow> u32 \<Rightarrow> nat \<Rightarrow> u64" where
  "element_addr T w stride_elts addr k =
     ucast (addr + of_nat (k div w) * (stride_elts * of_nat (sizeof TYPE('t)))) + of_nat (k mod w * sizeof TYPE('t))"

lemma load_rows:
  fixes T :: "'t::len itself"
  assumes "0 < epr"
  shows "j * epr \<le> m \<Longrightarrow> fold (load_row T epr stride) [0..<j] (replicate n 0, addr, n)
    = (map (\<lambda>k. if k < j * epr then element_addr T epr stride addr k else 0) [0..<n],
       addr + of_nat j * (stride * of_nat (sizeof TYPE('t))), n - j * epr)"
proof (induction j)
  case 0
  then show ?case by (auto intro: nth_equalityI)
next
  case (Suc j)
  let ?c = "min (n - j * epr) epr" and ?b = "addr + of_nat j * (stride * of_nat (sizeof TYPE('t)))"
  have "fold (\<lambda>i xs. xs[j * epr + i := ucast ?b + of_nat (i * sizeof TYPE('t))]) [0..<?c]
      (map (\<lambda>k. if k < j * epr then element_addr T epr stride addr k else 0) [0..<n])
    = map (\<lambda>k. if k < Suc j * epr then element_addr T epr stride addr k else 0) [0..<n]"
    (is "?l = ?r")
  proof (rule nth_equalityI)
    show "length ?l = length ?r" by (simp add: fold_fill)
    fix k assume "k < length ?l"
    then have k: "k < n" by (simp add: fold_fill)
    show "?l ! k = ?r ! k"
    proof (cases "j * epr \<le> k \<and> k < Suc j * epr")
      case True
      define i where "i = k - j * epr"
      then have ki: "k = j * epr + i" "i < epr" using True by auto
      then have "k div epr = j" "k mod epr = i" by (simp_all add: div_mod_block)
      moreover have "i < ?c" using ki k by simp
      ultimately show ?thesis using k ki by (simp add: fold_fill element_addr_def)
    next
      case False
      then show ?thesis using k by (auto simp: fold_fill)
    qed
  qed
  then show ?case using Suc by (simp add: load_row_def algebra_simps)
qed

lemma load_addresses_eq:
  fixes T :: "'t::len itself"
  assumes "0 < epr" "n \<le> num_ops * epr"
  shows "load_addresses T num_ops epr n stride addr = map (element_addr T epr stride addr) [0..<n]"
  using load_rows [where T = T and j = num_ops and m = "num_ops * epr" and stride = stride and n = n and addr = addr, OF assms(1)] assms(2)
  by (auto simp: load_addresses_def)

lemma store_elts_take:
  fixes T :: "'t::len itself"
  shows "store_elts T n base start c span (as, vs)
    = (as @ map (\<lambda>j. ucast base + of_nat (j * sizeof TYPE('t))) [0..<min c (n - length as)],
       vs @ map (\<lambda>j. span ! (start + j)) [0..<min c (n - length as)])"
proof (induction c)
  case 0
  then show ?case by (simp add: store_elts_def)
next
  case (Suc c)
  show ?case
  proof (cases "length as + c < n")
    case True
    then have "min (Suc c) (n - length as) = Suc c" "min c (n - length as) = c" by auto
    then show ?thesis using Suc True by (simp add: store_elts_def)
  next
    case False
    then have "min (Suc c) (n - length as) = min c (n - length as)" by auto
    then show ?thesis using Suc False by (auto simp: store_elts_def)
  qed
qed

text \<open>One chunk of \<open>w\<close> elements extends the address and value lists by the next \<open>w\<close> elements.\<close>

lemma store_chunk:
  fixes T :: "'t::len itself"
  assumes "base = addr + of_nat c * (stride * of_nat (sizeof TYPE('t)))"
    and "\<And>j. j < w \<Longrightarrow> span ! (start + j) = V (c * w + j)"
  shows "store_elts T n base start w span
      (map (element_addr T w stride addr) [0..<min n (c * w)], map V [0..<min n (c * w)])
    = (map (element_addr T w stride addr) [0..<min n (Suc c * w)], map V [0..<min n (Suc c * w)])"
proof -
  let ?m = "min w (n - min n (c * w))"
  have e: "[0..<min n (Suc c * w)] = [0..<min n (c * w)] @ [min n (c * w)..<min n (c * w) + ?m]"
  proof -
    have "min n (Suc c * w) = min n (c * w) + ?m" by (auto simp: min_def)
    then show ?thesis by (metis le0 upt_add_eq_append)
  qed
  have f: "map F [min n (c * w)..<min n (c * w) + ?m] = map G [0..<?m]"
    if "\<And>j. j < w \<Longrightarrow> F (c * w + j) = G j" for F G :: "nat \<Rightarrow> 'x"
    using that by (cases "n \<le> c * w") (auto intro!: nth_equalityI simp: min_def)
  have "map (element_addr T w stride addr) [min n (c * w)..<min n (c * w) + ?m]
      = map (\<lambda>j. ucast base + of_nat (j * sizeof TYPE('t))) [0..<?m]"
    by (rule f) (simp add: element_addr_def div_mod_block assms(1))
  moreover have "map V [min n (c * w)..<min n (c * w) + ?m] = map (\<lambda>j. span ! (start + j)) [0..<?m]"
    by (rule f) (simp add: assms(2))
  ultimately show ?thesis by (simp add: store_elts_take e del: mult_Suc)
qed

text \<open>The values and addresses of a whole store: rows of one register, or of a quarter register.\<close>

definition row_width :: "bool \<Rightarrow> nat \<Rightarrow> nat" where
  "row_width is_quad epr = (if is_quad then epr div 4 else epr)"

lemma store_row_step:
  fixes T :: "'t::len itself"
  assumes "4 dvd epr" "\<And>e. e < epr \<Longrightarrow> span ! e = V (r * epr + e)"
    and "w = row_width is_quad epr" "c = (if is_quad then 4 else 1)"
  shows "store_row T is_quad epr n stride span
      (addr + of_nat (r * c) * (stride * of_nat (sizeof TYPE('t))), map (element_addr T w stride addr) [0..<min n (r * c * w)], map V [0..<min n (r * c * w)])
    = (addr + of_nat (Suc r * c) * (stride * of_nat (sizeof TYPE('t))), map (element_addr T w stride addr) [0..<min n (Suc r * c * w)], map V [0..<min n (Suc r * c * w)])"
proof (cases is_quad)
  case False
  have st: "addr + of_nat (Suc r) * S = addr + of_nat r * S + (S :: u32)" for S by (simp add: algebra_simps)
  show ?thesis
    using store_chunk [where T = T and c = r and w = epr and n = n and stride = stride and addr = addr and V = V and span = span and start = 0, OF refl]
      False assms(2-4) by (simp add: store_row_def row_width_def algebra_simps)
next
  case True
  let ?S = "stride * of_nat (sizeof TYPE('t)) :: u32"
  define q where "q = epr div 4"
  have q: "4 * q = epr" using assms(1) by (simp add: q_def)
  have wc: "w = q" "c = 4" using True assms(3,4) by (simp_all add: row_width_def q_def)
  have ch: "store_elts T n (addr + of_nat (r * 4 + i) * ?S) (i * q) q span
      (map (element_addr T q stride addr) [0..<min n ((r * 4 + i) * q)], map V [0..<min n ((r * 4 + i) * q)])
    = (map (element_addr T q stride addr) [0..<min n (Suc (r * 4 + i) * q)], map V [0..<min n (Suc (r * 4 + i) * q)])" if "i < 4" for i
  proof (rule store_chunk [OF refl])
    fix j assume "j < q"
    moreover have "i * q + q \<le> 4 * q" using that mult_le_mono1 [of "Suc i" 4 q] by simp
    ultimately have "span ! (i * q + j) = V (r * epr + (i * q + j))"
      using q by (intro assms(2)) linarith
    moreover have "r * epr + (i * q + j) = (r * 4 + i) * q + j" by (simp add: algebra_simps flip: q)
    ultimately show "span ! (i * q + j) = V ((r * 4 + i) * q + j)" by simp
  qed
  have "fold (\<lambda>i (b, acc). (b + ?S, store_elts T n b (i * q) q span acc)) [0..<k]
      (addr + of_nat (r * 4) * ?S, map (element_addr T q stride addr) [0..<min n (r * 4 * q)], map V [0..<min n (r * 4 * q)])
    = (addr + of_nat (r * 4 + k) * ?S, map (element_addr T q stride addr) [0..<min n ((r * 4 + k) * q)], map V [0..<min n ((r * 4 + k) * q)])"
    if "k \<le> 4" for k
    using that
  proof (induction k)
    case (Suc k)
    have st: "addr + of_nat (r * 4 + Suc k) * ?S = addr + of_nat (r * 4 + k) * ?S + ?S" by (simp add: algebra_simps)
    show ?case using Suc ch [of k] unfolding st by simp
  qed simp
  from this [of 4] show ?thesis
    using True by (simp add: store_row_def wc q_def add.commute [of "r * 4"] del: of_nat_mult of_nat_add)
qed

lemma store_rows:
  fixes T :: "'t::len itself"
  assumes "4 dvd epr" "\<And>r e. r < num_ops \<Longrightarrow> e < epr \<Longrightarrow> span r ! e = V (r * epr + e)"
    and "w = row_width is_quad epr" "c = (if is_quad then 4 else 1)"
  shows "j \<le> num_ops \<Longrightarrow> fold (\<lambda>r. store_row T is_quad epr n stride (span r)) [0..<j] (addr, [], [])
    = (addr + of_nat (j * c) * (stride * of_nat (sizeof TYPE('t))),
       map (element_addr T w stride addr) [0..<min n (j * c * w)], map V [0..<min n (j * c * w)])"
proof (induction j)
  case (Suc j)
  then show ?case
    using store_row_step [where T = T and V = V and r = j and span = "span j" and n = n and stride = stride and addr = addr, OF assms(1) _ assms(3,4)]
      assms(2) [of j] by (simp del: mult_Suc of_nat_mult)
qed simp

subsection \<open>Accesses\<close>

definition machine_ok :: "'m machine \<Rightarrow> bool" where
  "machine_ok s \<longleftrightarrow> vector_length (npu s) = 256 \<and> (\<forall>r. length (vreg s r) = 32)"

abbreviation lane_type :: "'t::len itself \<Rightarrow> bool" where
  "lane_type T \<equiv> LENGTH('t) \<in> {8, 16, 32}"

lemma lane_type_sizes:
  assumes "lane_type TYPE('t::len)"
  shows "8 dvd LENGTH('t)" "sizeof TYPE('t) \<in> {1, 2, 4}" "sizeof TYPE('t) * (32 div sizeof TYPE('t)) = 32"
    "4 dvd 32 div sizeof TYPE('t)" "0 < sizeof TYPE('t)" "0 < 32 div sizeof TYPE('t)" "32 div sizeof TYPE('t) \<le> 32"
  using assms by (auto simp: sizeof_def)

lemma machine_ok_elts: "machine_ok s \<Longrightarrow> elts_per_register (T :: 't::len itself) s = 32 div sizeof TYPE('t)"
  by (simp add: machine_ok_def elts_per_register_def vector_size_in_bytes_def)

text \<open>How many elements an access moves, and the distance between its rows.\<close>

definition access_count :: "'t::len itself \<Rightarrow> bool \<Rightarrow> bool \<Rightarrow> u32 \<Rightarrow> nat" where
  "access_count T has_length strip_mine length_arg =
     (let full = strip_num_ops strip_mine * (32 div sizeof TYPE('t))
      in if has_length then min (unat length_arg) full else full)"

definition access_stride :: "'t::len itself \<Rightarrow> bool \<Rightarrow> u32 \<Rightarrow> u32" where
  "access_stride T has_stride stride_arg = (if has_stride then stride_arg else of_nat (32 div sizeof TYPE('t)))"

lemma access_count_le: "access_count TYPE('t::len) has_length strip_mine x \<le> strip_num_ops strip_mine * (32 div sizeof TYPE('t))"
  by (simp add: access_count_def Let_def)

lemma strip_le: "strip_num_ops sm \<le> 4"
  by (simp add: strip_num_ops_def)

lemma access_count_word:
  assumes "lane_type TYPE('t::len)"
  shows "unat (if hl then min x (of_nat (strip_num_ops sm * (32 div sizeof TYPE('t)))) else of_nat (strip_num_ops sm * (32 div sizeof TYPE('t))) :: u32)
    = access_count TYPE('t) hl sm x"
proof -
  have "strip_num_ops sm * (32 div sizeof TYPE('t)) \<le> 4 * 32"
    using strip_le lane_type_sizes(7) [OF assms] by (rule mult_le_mono)
  then have "unat (of_nat (strip_num_ops sm * (32 div sizeof TYPE('t))) :: u32) = strip_num_ops sm * (32 div sizeof TYPE('t))"
    by (simp only: unat_of_nat) simp
  then show ?thesis by (auto simp: access_count_def Let_def min_def word_le_nat_alt simp del: of_nat_mult)
qed

text \<open>A group of \<open>m\<close> registers from \<open>d\<close> holding the elements \<open>V\<close>.\<close>

definition group_write :: "nat \<Rightarrow> nat \<Rightarrow> (nat \<Rightarrow> 't::len word) \<Rightarrow> (nat \<Rightarrow> u8 list) \<Rightarrow> nat \<Rightarrow> u8 list" where
  "group_write d m V v r = (if d \<le> r \<and> r < d + m
     then unlanes (map (\<lambda>e. V ((r - d) * (32 div sizeof TYPE('t)) + e)) [0..<32 div sizeof TYPE('t)]) else v r)"

definition group_elem :: "nat \<Rightarrow> (nat \<Rightarrow> u8 list) \<Rightarrow> nat \<Rightarrow> 't::len word" where
  "group_elem b v k = lanes (v (b + k div (32 div sizeof TYPE('t)))) ! (k mod (32 div sizeof TYPE('t)))"

lemma group_write_Suc:
  "(group_write d m V v)(d + m := unlanes (map (\<lambda>e. V (m * (32 div sizeof TYPE('t)) + e)) [0..<32 div sizeof TYPE('t)]))
     = group_write d (Suc m) (V :: nat \<Rightarrow> 't::len word) v"
  by (auto simp: group_write_def fun_eq_iff)

lemma group_elem_write:
  fixes V :: "nat \<Rightarrow> 't::len word"
  assumes "lane_type TYPE('t)" "k < m * (32 div sizeof TYPE('t))"
  shows "group_elem d (group_write d m V v) k = V k"
proof -
  have "k div (32 div sizeof TYPE('t)) < m" using assms(2) by (rule less_mult_imp_div_less)
  moreover have "k mod (32 div sizeof TYPE('t)) < 32 div sizeof TYPE('t)" using lane_type_sizes(6) [OF assms(1)] by simp
  ultimately show ?thesis
    using lane_type_sizes(1) [OF assms(1)] by (simp add: group_elem_def group_write_def mult.commute)
qed

lemma group_write_cong:
  fixes V W :: "nat \<Rightarrow> 't::len word"
  assumes "\<And>k. k < m * (32 div sizeof TYPE('t)) \<Longrightarrow> V k = W k"
  shows "group_write d m V v = group_write d m W v"
proof
  fix r
  have "V ((r - d) * (32 div sizeof TYPE('t)) + e) = W ((r - d) * (32 div sizeof TYPE('t)) + e)"
    if "e < 32 div sizeof TYPE('t)" "d \<le> r" "r < d + m" for e
  proof (rule assms)
    have "Suc (r - d) * (32 div sizeof TYPE('t)) \<le> m * (32 div sizeof TYPE('t))"
      using that by (intro mult_le_mono1) simp
    then show "(r - d) * (32 div sizeof TYPE('t)) + e < m * (32 div sizeof TYPE('t))" using that(1) by simp
  qed
  then show "group_write d m V v r = group_write d m W v r"
    by (auto simp: group_write_def intro!: arg_cong [where f = unlanes])
qed

lemma group_write_length:
  fixes V :: "nat \<Rightarrow> 't::len word"
  assumes "lane_type TYPE('t)" "\<forall>r. length (v r) = 32"
  shows "length (group_write d m V v r) = 32"
  using assms(2) lane_type_sizes(3) [OF assms(1)] by (simp add: group_write_def mult.commute)

text \<open>A loop that submits one register after another writes a group.\<close>

lemma submit_group:
  fixes V :: "nat \<Rightarrow> 't::len word"
  assumes "\<And>j s. j < m \<Longrightarrow> step j s = submit inst j (map (\<lambda>e. V (j * (32 div sizeof TYPE('t)) + e)) [0..<32 div sizeof TYPE('t)]) s"
  shows "fold step [0..<m] s = s\<lparr>vreg := group_write (vd inst) m V (vreg s)\<rparr>"
  using assms
proof (induction m)
  case 0
  have "group_write (vd inst) 0 V (vreg s) = vreg s" by (auto simp: group_write_def fun_eq_iff)
  then show ?case by simp
next
  case (Suc m)
  then show ?case by (simp add: submit_def group_write_Suc)
qed

definition fresh_ok :: "vm_inst \<Rightarrow> bool" where
  "fresh_ok inst \<longleftrightarrow> (\<forall>i. length (fresh inst i) = 32)"

lemma reg_write_group:
  fixes T :: "'t::len itself"
  assumes "machine_ok s" "fresh_ok inst"
  shows "CoralNPUVLdRegWrite T sm inst value_db s
    = s\<lparr>vreg := group_write (vd inst) (strip_num_ops sm)
        (\<lambda>k. if k < length (lanes value_db :: 't word list) then lanes value_db ! k else 0 :: 't word) (vreg s)\<rparr>"
  unfolding CoralNPUVLdRegWrite_def machine_ok_elts [OF assms(1)] Let_def
  using assms(2) by (intro submit_group) (simp add: fold_set_all fresh_ok_def)

lemma dup_group:
  fixes T :: "'t::len itself"
  assumes "machine_ok s" "fresh_ok inst"
  shows "CoralNPUVDup T sm inst s
    = s\<lparr>vreg := group_write (vd inst) (strip_num_ops sm) (\<lambda>k. ucast (GetInstructionSource inst 0 s) :: 't word) (vreg s)\<rparr>"
  unfolding CoralNPUVDup_def machine_ok_elts [OF assms(1)] Let_def
  using assms(2) by (intro submit_group) (simp add: fold_set_all fresh_ok_def)

lemma lanes_gather:
  assumes "0 < sizeof TYPE('t::len)"
  shows "(lanes (gather as (sizeof TYPE('t)) f) :: 't word list) = map (\<lambda>a. from_bytes (map f [unat a..<unat a + sizeof TYPE('t)])) as"
  using assms element_gather [of _ as "sizeof TYPE('t)" f]
  by (intro nth_equalityI) (simp_all add: lanes_def element_def)

lemma count_word: "unat w = n \<Longrightarrow> w = of_nat n" "unat w = n \<Longrightarrow> (0 < w) = (n \<noteq> 0)" for w :: "'a::len word"
  by (auto simp: word_less_nat_alt)

context byte_memory
begin

text \<open>What a load leaves behind: the gathered elements, zero past the length.\<close>

lemma load_group:
  fixes s :: "'m machine" and T :: "'t::len itself"
  assumes "lane_type TYPE('t)" "machine_ok s" "fresh_ok inst" "mem_ok (mem s)"
    and "n = access_count TYPE('t) hl sm (GetInstructionSource inst 1 s)"
    and "A = element_addr T (32 div sizeof TYPE('t)) (access_stride T hs (GetInstructionSource inst 1 s))
      (mask_address (npu s) (GetInstructionSource inst 0 s))"
    and "\<And>k. k < n \<Longrightarrow> in_range (mem s) (unat (A k)) (sizeof TYPE('t))"
  obtains s1 where "s1 = s\<lparr>vreg := group_write (vd inst) (strip_num_ops sm)
        (\<lambda>k. if k < n then from_bytes (map (byte (mem s)) [unat (A k)..<unat (A k) + sizeof TYPE('t)]) else 0 :: 't word) (vreg s)\<rparr>"
    "vld T M hl hs sm inst s = Some (case destination inst of None \<Rightarrow> s1 | Some reg \<Rightarrow>
       s1\<lparr>xreg := (xreg s)(reg := (if n = 0 then mask_address (npu s) (GetInstructionSource inst 0 s)
         else load_post_increment T hl hs (strip_num_ops sm) (of_nat n) (access_stride T hs (GetInstructionSource inst 1 s))
           (mask_address (npu s) (GetInstructionSource inst 0 s)) inst s1))\<rparr>)"
proof
  let ?s1 = "s\<lparr>vreg := group_write (vd inst) (strip_num_ops sm)
        (\<lambda>k. if k < n then from_bytes (map (byte (mem s)) [unat (A k)..<unat (A k) + sizeof TYPE('t)]) else 0 :: 't word) (vreg s)\<rparr>"
  let ?epr = "32 div sizeof TYPE('t)" and ?x = "GetInstructionSource inst 1 s"
  let ?w = "if hl then min ?x (of_nat (strip_num_ops sm * ?epr)) else of_nat (strip_num_ops sm * ?epr) :: u32"
  have w: "unat ?w = n" using access_count_word [OF assms(1)] assms(5) by simp
  note wn = count_word [OF this]
  have w': "unat (of_nat n :: u32) = n" "(0 < (of_nat n :: u32)) = (n \<noteq> 0)" using w wn(2) unfolding wn(1) .
  have le: "n \<le> strip_num_ops sm * ?epr" unfolding assms(5) by (rule access_count_le)
  have ad: "load_addresses T (strip_num_ops sm) ?epr n (access_stride T hs ?x) (mask_address (npu s) (GetInstructionSource inst 0 s)) = map A [0..<n]"
    unfolding assms(6) by (rule load_addresses_eq [OF lane_type_sizes(6) [OF assms(1)] le])
  let ?db = "gather (map A [0..<n]) (sizeof TYPE('t)) (byte (mem s))"
  have ld: "LoadMemory M (map A [0..<n]) (replicate n True) (int (sizeof TYPE('t))) (replicate (n * sizeof TYPE('t)) 0) (mem s) = Some ?db"
    using load_elements [of "mem s" "sizeof TYPE('t)" "map A [0..<n]" "replicate (n * sizeof TYPE('t)) 0"] assms(1,4,7) lane_type_sizes(5) [OF assms(1)]
    by auto
  have rw: "CoralNPUVLdRegWrite T sm inst ?db s = ?s1"
    unfolding reg_write_group [OF assms(2,3)] lanes_gather [OF lane_type_sizes(5) [OF assms(1)]]
    by (rule arg_cong [where f = "\<lambda>V. s\<lparr>vreg := group_write (vd inst) (strip_num_ops sm) V (vreg s)\<rparr>"]) auto
  show "vld T M hl hs sm inst s = Some (case destination inst of None \<Rightarrow> ?s1 | Some reg \<Rightarrow>
       ?s1\<lparr>xreg := (xreg s)(reg := (if n = 0 then mask_address (npu s) (GetInstructionSource inst 0 s)
         else load_post_increment T hl hs (strip_num_ops sm) (of_nat n) (access_stride T hs (GetInstructionSource inst 1 s))
           (mask_address (npu s) (GetInstructionSource inst 0 s)) inst ?s1))\<rparr>)"
    unfolding vld_def CoralNPUVLd_def Let_def machine_ok_elts [OF assms(2)] wn(1) w' access_stride_def [of T hs ?x, symmetric] ad ld option.case rw
    by (cases "n = 0") (simp_all split: option.split)
qed simp

lemma load_regs:
  fixes s :: "'m machine" and T :: "'t::len itself"
  assumes "lane_type TYPE('t)" "machine_ok s" "fresh_ok inst" "mem_ok (mem s)"
    and "n = access_count TYPE('t) hl sm (GetInstructionSource inst 1 s)"
    and "A = element_addr T (32 div sizeof TYPE('t)) (access_stride T hs (GetInstructionSource inst 1 s))
      (mask_address (npu s) (GetInstructionSource inst 0 s))"
    and "\<And>k. k < n \<Longrightarrow> in_range (mem s) (unat (A k)) (sizeof TYPE('t))"
  shows "\<exists>s'. vld T M hl hs sm inst s = Some s' \<and> mem s' = mem s \<and> npu s' = npu s
    \<and> vreg s' = group_write (vd inst) (strip_num_ops sm)
        (\<lambda>k. if k < n then from_bytes (map (byte (mem s)) [unat (A k)..<unat (A k) + sizeof TYPE('t)]) else 0 :: 't word) (vreg s)"
proof -
  obtain s1 x where s1: "s1 = s\<lparr>vreg := group_write (vd inst) (strip_num_ops sm)
        (\<lambda>k. if k < n then from_bytes (map (byte (mem s)) [unat (A k)..<unat (A k) + sizeof TYPE('t)]) else 0 :: 't word) (vreg s)\<rparr>"
    and v: "vld T M hl hs sm inst s = Some (case destination inst of None \<Rightarrow> s1 | Some reg \<Rightarrow> s1\<lparr>xreg := x reg\<rparr>)"
    by (rule load_group [OF assms]) blast
  show ?thesis by (cases "destination inst") (simp_all only: v, simp_all add: s1)
qed

text \<open>What a store leaves behind: the elements of the register group scattered to their addresses.\<close>

lemma store_group:
  fixes s :: "'m machine" and T :: "'t::len itself"
  assumes "lane_type TYPE('t)" "machine_ok s" "mem_ok (mem s)" "sources inst ! 0 = VectorReg b"
    and "n = access_count TYPE('t) hl sm (GetInstructionSource inst 2 s)"
    and "A = element_addr T (row_width is_quad (32 div sizeof TYPE('t))) (access_stride T hs (GetInstructionSource inst 2 s))
      (mask_address (npu s) (GetInstructionSource inst 1 s))"
    and "\<And>k. k < n \<Longrightarrow> in_range (mem s) (unat (A k)) (sizeof TYPE('t))"
  obtains m' s1 where "mem_ok m'" "in_range m' = in_range (mem s)"
    "byte m' = scatter (map A [0..<n]) (sizeof TYPE('t)) (unlanes (map (\<lambda>k. group_elem b (vreg s) k :: 't word) [0..<n])) (byte (mem s))"
    "s1 = s\<lparr>mem := m'\<rparr>"
    "VectorStoreHelper T M hl hs sm is_quad inst s = Some (case destination inst of None \<Rightarrow> s1 | Some reg \<Rightarrow>
       s1\<lparr>xreg := (xreg s)(reg := (if n = 0 then mask_address (npu s) (GetInstructionSource inst 1 s)
         else store_post_increment T hl hs is_quad (strip_num_ops sm) (of_nat n) (access_stride T hs (GetInstructionSource inst 2 s))
           (mask_address (npu s) (GetInstructionSource inst 1 s)) inst s1))\<rparr>)"
proof -
  let ?epr = "32 div sizeof TYPE('t)" and ?x = "GetInstructionSource inst 2 s" and ?c = "if is_quad then 4 else 1 :: nat"
  let ?addr = "mask_address (npu s) (GetInstructionSource inst 1 s)"
  define W where "W = row_width is_quad ?epr"
  define V where "V = (\<lambda>k. group_elem b (vreg s) k :: 't word)"
  let ?w = "if hl then min ?x (of_nat (strip_num_ops sm * ?epr)) else of_nat (strip_num_ops sm * ?epr) :: u32"
  have w: "unat ?w = n" using access_count_word [OF assms(1)] assms(5) by simp
  note wn = count_word [OF this]
  have w': "unat (of_nat n :: u32) = n" "(0 < (of_nat n :: u32)) = (n \<noteq> 0)" using w wn(2) unfolding wn(1) .
  have "n \<le> strip_num_ops sm * ?epr" unfolding assms(5) by (rule access_count_le)
  moreover have "?c * W = ?epr" using lane_type_sizes(4) [OF assms(1)] by (auto simp: W_def row_width_def)
  ultimately have le: "min n (strip_num_ops sm * ?c * W) = n" by (simp only: mult.assoc min_absorb1)
  have v: "source_span inst 0 r s ! e = V (r * ?epr + e)" if "e < ?epr" for r e
    using that assms(4) by (simp add: source_span_def V_def group_elem_def div_mod_block)
  have rows: "fold (\<lambda>op_num. store_row T is_quad ?epr n (access_stride T hs ?x) (source_span inst 0 op_num s)) [0..<strip_num_ops sm] (?addr, [], [])
      = (?addr + of_nat (strip_num_ops sm * ?c) * (access_stride T hs ?x * of_nat (sizeof TYPE('t))), map A [0..<n], map V [0..<n])"
    using store_rows [where T = T and V = V and span = "\<lambda>r. source_span inst 0 r s" and num_ops = "strip_num_ops sm" and w = W and c = ?c
        and n = n and stride = "access_stride T hs ?x" and addr = ?addr and is_quad = is_quad,
      OF lane_type_sizes(4) [OF assms(1)] v W_def refl order_refl] unfolding le assms(6) W_def [symmetric] by simp
  have "\<exists>m'. StoreMemory M (map A [0..<n]) (replicate (length (map A [0..<n])) True) (int (sizeof TYPE('t))) (unlanes (map V [0..<n])) (mem s) = Some m'
      \<and> mem_ok m' \<and> in_range m' = in_range (mem s) \<and> byte m' = scatter (map A [0..<n]) (sizeof TYPE('t)) (unlanes (map V [0..<n])) (byte (mem s))"
    using assms(3,7) lane_type_sizes(5) [OF assms(1)] by (intro store_elements) auto
  then obtain m' where m': "StoreMemory M (map A [0..<n]) (replicate (length (map A [0..<n])) True) (int (sizeof TYPE('t))) (unlanes (map V [0..<n])) (mem s) = Some m'"
    "mem_ok m'" "in_range m' = in_range (mem s)"
    "byte m' = scatter (map A [0..<n]) (sizeof TYPE('t)) (unlanes (map V [0..<n])) (byte (mem s))" by blast
  have "VectorStoreHelper T M hl hs sm is_quad inst s = Some (case destination inst of None \<Rightarrow> s\<lparr>mem := m'\<rparr> | Some reg \<Rightarrow>
       s\<lparr>mem := m'\<rparr>\<lparr>xreg := (xreg s)(reg := (if n = 0 then ?addr
         else store_post_increment T hl hs is_quad (strip_num_ops sm) (of_nat n) (access_stride T hs ?x) ?addr inst (s\<lparr>mem := m'\<rparr>)))\<rparr>)"
    unfolding VectorStoreHelper_def Let_def machine_ok_elts [OF assms(2)] wn(1) w' access_stride_def [of T hs ?x, symmetric] rows prod.case m'(1) option.case
    by (cases "n = 0") (simp_all split: option.split)
  then show thesis using m'(2-4) unfolding V_def by (intro that [OF _ _ _ refl])
qed

lemma store_regs:
  fixes s :: "'m machine" and T :: "'t::len itself"
  assumes "lane_type TYPE('t)" "machine_ok s" "mem_ok (mem s)" "sources inst ! 0 = VectorReg b"
    and "n = access_count TYPE('t) hl sm (GetInstructionSource inst 2 s)"
    and "A = element_addr T (row_width is_quad (32 div sizeof TYPE('t))) (access_stride T hs (GetInstructionSource inst 2 s))
      (mask_address (npu s) (GetInstructionSource inst 1 s))"
    and "\<And>k. k < n \<Longrightarrow> in_range (mem s) (unat (A k)) (sizeof TYPE('t))"
  shows "\<exists>s'. VectorStoreHelper T M hl hs sm is_quad inst s = Some s' \<and> mem_ok (mem s') \<and> in_range (mem s') = in_range (mem s)
    \<and> byte (mem s') = scatter (map A [0..<n]) (sizeof TYPE('t)) (unlanes (map (\<lambda>k. group_elem b (vreg s) k :: 't word) [0..<n])) (byte (mem s))
    \<and> vreg s' = vreg s \<and> npu s' = npu s \<and> (destination inst = None \<longrightarrow> xreg s' = xreg s)"
proof -
  obtain m' s1 x where m': "mem_ok m'" "in_range m' = in_range (mem s)"
    "byte m' = scatter (map A [0..<n]) (sizeof TYPE('t)) (unlanes (map (\<lambda>k. group_elem b (vreg s) k :: 't word) [0..<n])) (byte (mem s))"
    "s1 = s\<lparr>mem := m'\<rparr>"
    and v: "VectorStoreHelper T M hl hs sm is_quad inst s = Some (case destination inst of None \<Rightarrow> s1 | Some reg \<Rightarrow> s1\<lparr>xreg := x reg\<rparr>)"
    by (rule store_group [OF assms]) blast
  show ?thesis using m'(1-3) by (cases "destination inst") (simp_all only: v, simp_all add: m'(4))
qed

end

subsection \<open>Accumulators\<close>

text \<open>The accumulator is an eight by eight array of words.\<close>

definition acc_ok :: "CoralNPUState \<Rightarrow> bool" where
  "acc_ok s \<longleftrightarrow> length (acc_register s) = 8 \<and> (\<forall>r < 8. length (acc_register s ! r) = 8)"

definition square :: "(nat \<Rightarrow> nat \<Rightarrow> u32) \<Rightarrow> u32 list list" where
  "square f = map (\<lambda>i. map (f i) [0..<8]) [0..<8]"

lemma square_nth [simp]: "i < 8 \<Longrightarrow> j < 8 \<Longrightarrow> square f ! i ! j = f i j"
  "length (square f) = 8" "i < 8 \<Longrightarrow> length (square f ! i) = 8"
  by (simp_all add: square_def)

lemma square_eqI: "length a = 8 \<Longrightarrow> (\<And>i. i < 8 \<Longrightarrow> length (a ! i) = 8) \<Longrightarrow> (\<And>i j. i < 8 \<Longrightarrow> j < 8 \<Longrightarrow> a ! i ! j = f i j)
    \<Longrightarrow> a = square f"
  by (auto intro!: nth_equalityI simp: square_def)

lemma acset_row:
  assumes "r < 8" "length span = 8"
  shows "k \<le> 8 \<Longrightarrow> fold (\<lambda>i acc. if t then acc[i := (acc ! i)[r := span ! i]] else acc[r := (acc ! r)[i := span ! i]]) [0..<k] (square f)
    = square (\<lambda>i j. if t then (if j = r \<and> i < k then span ! i else f i j)
        else (if i = r \<and> j < k then span ! j else f i j))"
proof (induction k)
  case 0
  show ?case by (auto intro!: square_eqI)
next
  case (Suc k)
  then show ?case using assms by (auto intro!: square_eqI simp: nth_list_update less_Suc_eq)
qed

lemma fold_acc: "fold (\<lambda>i s. s\<lparr>npu := (npu s)\<lparr>acc_register := g i (acc_register (npu s))\<rparr>\<rparr>) xs s
  = s\<lparr>npu := (npu s)\<lparr>acc_register := fold g xs (acc_register (npu s))\<rparr>\<rparr>"
  by (induction xs arbitrary: s) simp_all

lemma acset_acc:
  fixes s :: "'m machine"
  assumes "machine_ok s" "acc_ok (npu s)" "sources inst ! 0 = VectorReg b"
  shows "CoralNPUAcSet t inst s = s\<lparr>npu := (npu s)\<lparr>acc_register :=
    square (\<lambda>i j. if t then lanes (vreg s (b + j)) ! i else lanes (vreg s (b + i)) ! j)\<rparr>\<rparr>"
proof -
  let ?span = "\<lambda>r. lanes (vreg s (b + r)) :: u32 list"
  define F where "F = (\<lambda>i j. acc_register (npu s) ! i ! j)"
  have sq: "acc_register (npu s) = square F" using assms(2) by (intro square_eqI) (auto simp: acc_ok_def F_def)
  have l: "length (?span r) = 8" for r using assms(1) by (simp add: machine_ok_def sizeof_def)
  define step where "step = (\<lambda>op_index (s :: 'm machine).
        let span = source_span inst 0 op_index s :: u32 list in
        fold (\<lambda>i s. s\<lparr>npu := (npu s)\<lparr>acc_register :=
            (if t
             then (acc_register (npu s))[i := (acc_register (npu s) ! i)[op_index := span ! i]]
             else (acc_register (npu s))[op_index := (acc_register (npu s) ! op_index)[i := span ! i]])\<rparr>\<rparr>)
          [0..<length span] s)"
  have st: "step r (s\<lparr>npu := (npu s)\<lparr>acc_register := square f\<rparr>\<rparr>) = s\<lparr>npu := (npu s)\<lparr>acc_register :=
      square (\<lambda>i j. if t then (if j = r then ?span r ! i else f i j) else (if i = r then ?span r ! j else f i j))\<rparr>\<rparr>" if "r < 8" for r f
  proof -
    have "source_span inst 0 r (s\<lparr>npu := (npu s)\<lparr>acc_register := square f\<rparr>\<rparr>) = ?span r"
      using assms(3) by (simp add: source_span_def)
    then have "step r (s\<lparr>npu := (npu s)\<lparr>acc_register := square f\<rparr>\<rparr>) = s\<lparr>npu := (npu s)\<lparr>acc_register :=
        fold (\<lambda>i acc. if t then acc[i := (acc ! i)[r := ?span r ! i]] else acc[r := (acc ! r)[i := ?span r ! i]]) [0..<8] (square f)\<rparr>\<rparr>"
      unfolding step_def Let_def
      by (simp only: fold_acc [where g = "\<lambda>i acc. if t then acc[i := (acc ! i)[r := ?span r ! i]] else acc[r := (acc ! r)[i := ?span r ! i]]"] l) simp
    moreover have "square (\<lambda>i j. if t then (if j = r \<and> i < 8 then ?span r ! i else f i j)
        else (if i = r \<and> j < 8 then ?span r ! j else f i j))
      = square (\<lambda>i j. if t then (if j = r then ?span r ! i else f i j) else (if i = r then ?span r ! j else f i j))"
      by (intro square_eqI) auto
    ultimately show ?thesis by (simp only: acset_row [OF that l order_refl])
  qed
  have "fold step [0..<k] s = s\<lparr>npu := (npu s)\<lparr>acc_register :=
      square (\<lambda>i j. if t then (if j < k then ?span j ! i else F i j) else (if i < k then ?span i ! j else F i j))\<rparr>\<rparr>" if "k \<le> 8" for k
    using that
  proof (induction k)
    case 0
    have "square (\<lambda>i j. if t then (if j < 0 then ?span j ! i else F i j) else (if i < 0 then ?span i ! j else F i j)) = square F"
      by (intro square_eqI) auto
    then show ?case by (simp flip: sq)
  next
    case (Suc k)
    then show ?case
      by (simp add: st) (rule arg_cong [where f = "\<lambda>a. s\<lparr>npu := (npu s)\<lparr>acc_register := a\<rparr>\<rparr>"], rule square_eqI, auto)
  qed
  from this [of 8] have "fold step [0..<8] s = s\<lparr>npu := (npu s)\<lparr>acc_register :=
      square (\<lambda>i j. if t then (if j < 8 then ?span j ! i else F i j) else (if i < 8 then ?span i ! j else F i j))\<rparr>\<rparr>" by simp
  moreover have "square (\<lambda>i j. if t then (if j < 8 then ?span j ! i else F i j) else (if i < 8 then ?span i ! j else F i j))
      = square (\<lambda>i j. if t then ?span j ! i else ?span i ! j)" by (intro square_eqI) auto
  moreover have "CoralNPUAcSet t inst s = fold step [0..<8] s"
    using assms(1) by (simp add: CoralNPUAcSet_def step_def machine_ok_def)
  ultimately show ?thesis by simp
qed

lemma vcget_acc:
  fixes s :: "'m machine"
  assumes "machine_ok s" "acc_ok (npu s)" "fresh_ok inst"
  shows "CoralNPUVcGet inst s = s\<lparr>npu := (npu s)\<lparr>acc_register := square (\<lambda>i j. 0)\<rparr>,
    vreg := group_write (vd inst) 8 (\<lambda>k. acc_register (npu s) ! (k div 8) ! (k mod 8)) (vreg s)\<rparr>"
proof -
  define A where "A = acc_register (npu s)"
  have A: "length A = 8" "\<And>r. r < 8 \<Longrightarrow> length (A ! r) = 8" using assms(2) by (auto simp: acc_ok_def A_def)
  define step where "step = (\<lambda>op_index (s :: 'm machine).
        let acc_vec = acc_register (npu s) ! op_index;
            dest_span = fold (\<lambda>i dest_span. dest_span[i := acc_vec ! i])
              [0..<length (lanes (fresh inst op_index) :: u32 list)] (lanes (fresh inst op_index));
            s = s\<lparr>npu := (npu s)\<lparr>acc_register := (acc_register (npu s))[op_index := replicate (length acc_vec) 0]\<rparr>\<rparr>
        in submit inst op_index (dest_span :: u32 list) s)"
  have l: "length (lanes (fresh inst r) :: u32 list) = 8" for r using assms(3) by (simp add: fresh_ok_def sizeof_def)
  have "fold step [0..<k] s = s\<lparr>npu := (npu s)\<lparr>acc_register := map (\<lambda>i. if i < k then replicate 8 0 else A ! i) [0..<8]\<rparr>,
      vreg := group_write (vd inst) k (\<lambda>k. A ! (k div 8) ! (k mod 8)) (vreg s)\<rparr>" if "k \<le> 8" for k
    using that
  proof (induction k)
    case 0
    have "map ((!) A) [0..<8] = A" using A(1) by (metis map_nth)
    moreover have "group_write (vd inst) 0 (\<lambda>k. A ! (k div 8) ! (k mod 8)) (vreg s) = vreg s"
      by (auto simp: group_write_def fun_eq_iff)
    ultimately show ?case by (simp add: A_def)
  next
    case (Suc k)
    have u: "(map (\<lambda>i. if i < k then replicate 8 0 else A ! i) [0..<8])[k := replicate 8 0]
        = map (\<lambda>i. if i < Suc k then replicate 8 0 else A ! i) [0..<8]"
      using Suc.prems by (auto intro!: nth_equalityI simp: nth_list_update less_Suc_eq)
    have f: "fold (\<lambda>i xs. xs[i := A ! k ! i]) [0..<8] (lanes (fresh inst k)) = map (\<lambda>e. A ! ((k * 8 + e) div 8) ! ((k * 8 + e) mod 8)) [0..<8]"
      by (subst fold_set_all [OF l]) (auto simp: div_mod_block)
    show ?case
      using Suc A(2) [of k] group_write_Suc [of "vd inst" k "\<lambda>k. A ! (k div 8) ! (k mod 8)" "vreg s"]
      by (simp add: step_def submit_def l f u sizeof_def del: length_lanes)
  qed
  from this [of 8] have "fold step [0..<8] s = s\<lparr>npu := (npu s)\<lparr>acc_register := map (\<lambda>i. if i < 8 then replicate 8 0 else A ! i) [0..<8]\<rparr>,
      vreg := group_write (vd inst) 8 (\<lambda>k. A ! (k div 8) ! (k mod 8)) (vreg s)\<rparr>" by simp
  moreover have "map (\<lambda>i. if i < 8 then replicate 8 0 else A ! i) [0..<8] = square (\<lambda>i j. 0)" by (intro square_eqI) auto
  moreover have "CoralNPUVcGet inst s = fold step [0..<8] s"
    using assms(1) by (simp add: CoralNPUVcGet_def step_def machine_ok_def)
  ultimately show ?thesis by (simp add: A_def)
qed

end
