(* ===== verification/NPU_ConvolutionProps.thy ===== *)
theory NPU_ConvolutionProps
  imports NPU_Convolution NPU_VectorMemoryProps
begin

text \<open>
  The convolutions as sums of products. The loops add to cells of an accumulator, so each cell ends
  up with the sum of what was added to it; the interleaved cell indices are injective, which leaves
  one dot product per cell.
\<close>

subsection \<open>Loops that accumulate\<close>

lemma fold_additive:
  fixes cell :: "'s \<Rightarrow> 'a::comm_monoid_add"
  assumes "\<And>x s. x \<in> set xs \<Longrightarrow> P s \<Longrightarrow> P (step x s) \<and> cell (step x s) = cell s + V x"
  shows "P s \<Longrightarrow> P (fold step xs s) \<and> cell (fold step xs s) = cell s + sum_list (map V xs)"
  using assms
proof (induction xs arbitrary: s)
  case (Cons x xs)
  then show ?case by (auto simp: add.assoc)
qed simp

lemma sum_upt: "sum_list (map f [a..<b]) = sum f {a..<b}"
  by (simp add: interv_sum_list_conv_sum_set_nat)

lemma sum_single: "i0 < n \<Longrightarrow> (\<Sum>i = 0..<n. if i = i0 then f i else 0) = (f i0 :: 'a::comm_monoid_add)" for i0 n :: nat
  by (simp add: sum.delta)

text \<open>The four bytes of one word.\<close>

lemma sum_word:
  fixes f :: "nat \<Rightarrow> 'a::comm_monoid_add"
  assumes "4 * wd + 4 \<le> n"
  shows "(\<Sum>j = 0..<n. if j div 4 = wd then f j else 0) = (\<Sum>t = 0..<4. f (4 * wd + t))"
proof -
  have "{j \<in> {0..<n}. j div 4 = wd} = {4 * wd..<4 * wd + 4}" using assms by auto
  then have "(\<Sum>j = 0..<n. if j div 4 = wd then f j else 0) = sum f {4 * wd..<4 * wd + 4}"
    by (simp flip: sum.inter_filter)
  also have "\<dots> = (\<Sum>t = 0..<4. f (4 * wd + t))"
    using sum.shift_bounds_nat_ivl [of f 0 "4 * wd" 4] by (simp add: ac_simps)
  finally show ?thesis .
qed

lemma kInterleave_less: "x < 4 \<Longrightarrow> kInterleave x < 4"
  by (auto simp: kInterleave_def less_Suc_eq numeral_eq_Suc)

lemma kInterleave_inj: "x < 4 \<Longrightarrow> y < 4 \<Longrightarrow> kInterleave x = kInterleave y \<longleftrightarrow> x = y"
  by (auto simp: kInterleave_def less_Suc_eq numeral_eq_Suc)

lemma radix_inj: "b < m \<Longrightarrow> b' < m \<Longrightarrow> a * m + b = a' * m + b' \<longleftrightarrow> a = a' \<and> b = (b' :: nat)"
  by (metis div_mod_block)

subsection \<open>Bytes and biases\<close>

lemma from_bytes_single: "from_bytes [b] = (b :: u8)"
  by (rule bit_word_eqI) (simp add: bit_from_bytes)

lemma lanes_u8 [simp]: "(lanes bs :: u8 list) = bs"
  by (rule nth_equalityI) (simp_all add: lanes_def sizeof_def take_Suc_conv_app_nth from_bytes_single)

lemma unlanes_append: "unlanes (xs @ ys) = unlanes xs @ unlanes ys"
  by (simp add: unlanes_def)

lemma signed_bias_field: "signed_bias (bit_field w lo 9) = c_wrap True 9 (uint (bit_field w lo 9))"
proof (rule bit_eqI)
  fix n
  show "bit (signed_bias (bit_field w lo 9)) n = bit (c_wrap True 9 (uint (bit_field w lo 9))) n"
    by (cases "n < 8"; cases "n = 8") (auto simp: signed_bias_def c_wrap_def bit_field_def bit_simps min_def add.commute [of lo 8])
qed

lemma unat_bit_field: "unat (bit_field w lo n) = unat w div 2 ^ lo mod 2 ^ n"
proof -
  have "take_bit 32 (unat w) = unat w" using unsigned_less [of w, where 'a = nat] by (intro take_bit_nat_eq_self) simp
  then have "unat (bit_field w lo n) = take_bit n (drop_bit lo (unat w))"
    unfolding bit_field_def unsigned_take_bit_eq unsigned_drop_bit_eq by simp
  then show ?thesis by (simp add: take_bit_eq_mod drop_bit_eq_div)
qed

subsection \<open>CoralNPUVConv\<close>

text \<open>One product of the matrix multiplication.\<close>

definition vconv_product :: "vconv_cmd_t \<Rightarrow> (nat \<Rightarrow> u8 list) \<Rightarrow> u8 list \<Rightarrow> nat \<Rightarrow> nat \<Rightarrow> nat \<Rightarrow> int" where
  "vconv_product cmd narrow wid k i j =
     (lane_int (vc_sdata1 cmd) (narrow i ! (4 * k + j mod 4)) + signed_bias (vc_sbias1 cmd))
     * (lane_int (vc_sdata2 cmd) (wid ! j) + signed_bias (vc_sbias2 cmd))"

definition acc_square :: "u32 list list \<Rightarrow> bool" where
  "acc_square acc \<longleftrightarrow> length acc = 8 \<and> (\<forall>r < 8. length (acc ! r) = 8)"

lemma cell_update:
  assumes "acc_square acc" "p < 8" "q < 8" "(p = p0 \<and> q = q0) = c" "p0 < 8" "q0 < 8"
  shows "acc_square (acc[p := (acc ! p)[q := acc ! p ! q + v]])
    \<and> acc[p := (acc ! p)[q := acc ! p ! q + v]] ! p0 ! q0 = acc ! p0 ! q0 + (if c then v else 0)"
  using assms by (auto simp: acc_square_def nth_list_update)

lemma vconv_step_cell:
  assumes "acc_square acc" "i < 8" "j < 32" "i0 < 8" "wd < 8"
  shows "acc_square (vconv_step cmd narrow wid k i j acc) \<and>
    vconv_step cmd narrow wid k i j acc ! (i0 div 4 * 4 + kInterleave (wd mod 4)) ! (i0 mod 4 * 2 + wd div 4)
    = acc ! (i0 div 4 * 4 + kInterleave (wd mod 4)) ! (i0 mod 4 * 2 + wd div 4)
      + (if i = i0 then if j div 4 = wd then word_of_int (vconv_product cmd narrow wid k i j) else 0 else 0)"
proof -
  let ?p = "\<lambda>i j. i div 4 * 4 + kInterleave (j mod 4)" and ?q = "\<lambda>i j. i mod 4 * 2 + j div 4"
  have b: "?p i wd < 8" "?q i wd < 8" if "i < 8" "wd < 8" for i wd :: nat
  proof -
    have "kInterleave (wd mod 4) < 4" by (simp add: kInterleave_less)
    moreover have "i div 4 < 2" "wd div 4 < 2" using that by (simp_all add: less_mult_imp_div_less)
    moreover have "i mod 4 < 4" by simp
    ultimately show "?p i wd < 8" "?q i wd < 8" by linarith+
  qed
  have w: "j div 4 < 8" using assms(3) by (simp add: less_mult_imp_div_less)
  have inj: "?p i (j div 4) = ?p i0 wd \<and> ?q i (j div 4) = ?q i0 wd \<longleftrightarrow> i = i0 \<and> j div 4 = wd"
  proof -
    have "?p i (j div 4) = ?p i0 wd \<longleftrightarrow> i div 4 = i0 div 4 \<and> j div 4 mod 4 = wd mod 4"
      by (subst radix_inj) (simp_all add: kInterleave_less kInterleave_inj)
    moreover have "?q i (j div 4) = ?q i0 wd \<longleftrightarrow> i mod 4 = i0 mod 4 \<and> j div 4 div 4 = wd div 4"
      using w assms(5) by (subst radix_inj) (simp_all add: less_mult_imp_div_less)
    ultimately show ?thesis by (metis div_mult_mod_eq)
  qed
  have acc: "length acc = 8" "\<And>r. r < 8 \<Longrightarrow> length (acc ! r) = 8" using assms(1) by (auto simp: acc_square_def)
  have s: "vconv_step cmd narrow wid k i j acc = acc[?p i (j div 4) := (acc ! ?p i (j div 4))[?q i (j div 4) :=
      acc ! ?p i (j div 4) ! ?q i (j div 4) + word_of_int (vconv_product cmd narrow wid k i j)]]"
    by (simp add: vconv_step_def Let_def acc vconv_product_def)
  have c: "(if i = i0 then if j div 4 = wd then word_of_int (vconv_product cmd narrow wid k i j) else 0 else 0)
      = (if i = i0 \<and> j div 4 = wd then word_of_int (vconv_product cmd narrow wid k i j) else 0 :: u32)" by simp
  show ?thesis
    unfolding s c by (rule cell_update [OF assms(1) b [OF assms(2) w] inj b [OF assms(4,5)]])
qed

text \<open>The loop nest adds to each cell the products of one row and one word over all steps.\<close>

lemma vconv_loops:
  assumes "acc_square acc" "i0 < 8" "wd < 8" "\<And>k. length (wid k) = 32"
  shows "acc_square (fold (\<lambda>k acc. fold (\<lambda>i acc. fold (\<lambda>j. vconv_step cmd narrow (wid k) k i j) [0..<32] acc) [0..<8] acc) [a..<b] acc) \<and>
    fold (\<lambda>k acc. fold (\<lambda>i acc. fold (\<lambda>j. vconv_step cmd narrow (wid k) k i j) [0..<32] acc) [0..<8] acc) [a..<b] acc
      ! (i0 div 4 * 4 + kInterleave (wd mod 4)) ! (i0 mod 4 * 2 + wd div 4)
    = acc ! (i0 div 4 * 4 + kInterleave (wd mod 4)) ! (i0 mod 4 * 2 + wd div 4)
      + word_of_int (\<Sum>k = a..<b. \<Sum>t = 0..<4. vconv_product cmd narrow (wid k) k i0 (4 * wd + t))"
proof -
  let ?cell = "\<lambda>acc :: u32 list list. acc ! (i0 div 4 * 4 + kInterleave (wd mod 4)) ! (i0 mod 4 * 2 + wd div 4)"
  let ?v = "\<lambda>k i j. if i = i0 then if j div 4 = wd then word_of_int (vconv_product cmd narrow (wid k) k i j) else 0 else 0 :: u32"
  have j: "acc_square (fold (\<lambda>j. vconv_step cmd narrow (wid k) k i j) [0..<32] acc)
      \<and> ?cell (fold (\<lambda>j. vconv_step cmd narrow (wid k) k i j) [0..<32] acc) = ?cell acc + (\<Sum>j = 0..<32. ?v k i j)"
    if "acc_square acc" "i < 8" for k i acc
    using that assms(2,3) unfolding sum_upt [symmetric]
    by (intro fold_additive [where P = acc_square] vconv_step_cell) auto
  have vk: "(\<Sum>j = 0..<32. ?v k i j) = (if i = i0 then \<Sum>t = 0..<4. word_of_int (vconv_product cmd narrow (wid k) k i (4 * wd + t)) else 0)" for k i
    using assms(3) by (simp add: sum_word)
  have i: "acc_square (fold (\<lambda>i acc. fold (\<lambda>j. vconv_step cmd narrow (wid k) k i j) [0..<32] acc) [0..<8] acc)
      \<and> ?cell (fold (\<lambda>i acc. fold (\<lambda>j. vconv_step cmd narrow (wid k) k i j) [0..<32] acc) [0..<8] acc)
        = ?cell acc + (\<Sum>t = 0..<4. word_of_int (vconv_product cmd narrow (wid k) k i0 (4 * wd + t)))" if "acc_square acc" for k acc
  proof -
    have "acc_square (fold (\<lambda>i acc. fold (\<lambda>j. vconv_step cmd narrow (wid k) k i j) [0..<32] acc) [0..<8] acc)
      \<and> ?cell (fold (\<lambda>i acc. fold (\<lambda>j. vconv_step cmd narrow (wid k) k i j) [0..<32] acc) [0..<8] acc)
        = ?cell acc + (\<Sum>i = 0..<8. \<Sum>j = 0..<32. ?v k i j)"
      using that j unfolding sum_upt [where a = 0 and b = 8, symmetric] by (intro fold_additive [where P = acc_square]) auto
    moreover have "(\<Sum>i = 0..<8. \<Sum>j = 0..<32. ?v k i j) = (\<Sum>t = 0..<4. word_of_int (vconv_product cmd narrow (wid k) k i0 (4 * wd + t)))"
      unfolding vk by (rule sum_single [OF assms(2)])
    ultimately show ?thesis by simp
  qed
  show ?thesis
    unfolding of_int_sum unfolding sum_upt [where a = a and b = b, symmetric]
    using assms(1) i by (intro fold_additive [where P = acc_square]) auto
qed

subsection \<open>CoralNPUVDwconv\<close>

definition vdwconv_product :: "vdwconv_u8_t \<Rightarrow> u8 list \<Rightarrow> u8 list \<Rightarrow> nat \<Rightarrow> int" where
  "vdwconv_product cmd a b i =
     (lane_int (dw_sdata1 cmd) (a ! i) + dw_sbias1 cmd) * (lane_int (dw_sdata2 cmd) (b ! i) + dw_sbias2 cmd)"

lemma vdwconv_step_cell:
  assumes "length acc = 32" "i < 32" "i0 < 32"
  shows "length (vdwconv_step cmd a b i acc) = 32
    \<and> vdwconv_step cmd a b i acc ! (8 * kInterleave (i0 mod 4) + i0 div 4)
      = acc ! (8 * kInterleave (i0 mod 4) + i0 div 4) + (if i = i0 then word_of_int (vdwconv_product cmd a b i) else 0)"
proof -
  let ?p = "\<lambda>i. 8 * kInterleave (i mod 4) + i div 4"
  have d: "i div 4 < 8" if "i < 32" for i :: nat using that by (simp add: less_mult_imp_div_less)
  have b: "?p i < 32" if "i < 32" for i using d [OF that] kInterleave_less [of "i mod 4"] by simp
  have "?p i = ?p i0 \<longleftrightarrow> i mod 4 = i0 mod 4 \<and> i div 4 = i0 div 4"
    unfolding mult.commute [of 8] using d [OF assms(2)] d [OF assms(3)] by (subst radix_inj) (simp_all add: kInterleave_inj)
  then have inj: "?p i = ?p i0 \<longleftrightarrow> i = i0" by (metis div_mult_mod_eq)
  show ?thesis
    using inj b [OF assms(2)] b [OF assms(3)] assms(1)
    by (auto simp: vdwconv_step_def Let_def kVectorLenInWord_def vdwconv_product_def nth_list_update)
qed

lemma vdwconv_products_cell:
  assumes "length acc = 32" "i0 < 32"
  shows "length (vdwconv_products cmd a b acc) = 32
    \<and> vdwconv_products cmd a b acc ! (8 * kInterleave (i0 mod 4) + i0 div 4)
      = acc ! (8 * kInterleave (i0 mod 4) + i0 div 4)
        + word_of_int (\<Sum>r = 0..<3. vdwconv_product cmd (unlanes (take 8 (drop (r * 8) a))) (b r) i0)"
proof -
  let ?cell = "\<lambda>acc :: u32 list. acc ! (8 * kInterleave (i0 mod 4) + i0 div 4)" and ?a = "\<lambda>r. unlanes (take 8 (drop (r * 8) a))"
  have r: "length (fold (vdwconv_step cmd (?a r) (b r)) [0..<32] acc) = 32
      \<and> ?cell (fold (vdwconv_step cmd (?a r) (b r)) [0..<32] acc) = ?cell acc + word_of_int (vdwconv_product cmd (?a r) (b r) i0)"
    if "length acc = 32" for r acc
  proof -
    have "length (fold (vdwconv_step cmd (?a r) (b r)) [0..<32] acc) = 32
      \<and> ?cell (fold (vdwconv_step cmd (?a r) (b r)) [0..<32] acc)
        = ?cell acc + (\<Sum>i = 0..<32. if i = i0 then word_of_int (vdwconv_product cmd (?a r) (b r) i) else 0)"
      using that assms(2) unfolding sum_upt [symmetric] by (intro fold_additive [where P = "\<lambda>acc. length acc = 32"] vdwconv_step_cell) auto
    then show ?thesis by (simp only: sum_single [OF assms(2)])
  qed
  show ?thesis
    unfolding vdwconv_products_def Let_def kVectorLenInWord_def kVectorLenInByte_def kDwRegisterProducts_def of_int_sum
    unfolding sum_upt [where a = 0 and b = 3, symmetric]
    using assms(1) r by (intro fold_additive [where P = "\<lambda>acc. length acc = 32"]) auto
qed

text \<open>The three activation rows are windows of the three selected registers put side by side.\<close>

definition window_start :: "u32 \<Rightarrow> nat \<Rightarrow> nat" where
  "window_start sparsity r = (if sparsity = 0 then 8 * r else if sparsity = 1 then 7 + r else r)"

lemma list8: "length xs = 8 \<Longrightarrow> \<exists>a b c d e f g h. xs = [a, b, c, d, e, f, g, h]"
  by (auto simp: length_Suc_conv eval_nat_numeral)

lemma a_data_window:
  assumes "length w0 = 8" "length w1 = 8" "length w2 = 8" "sparsity \<le> 2" "r < 3"
  shows "take 8 (drop (r * 8) (a_data sparsity garbage w0 w1 w2)) = take 8 (drop (window_start sparsity r) (w0 @ w1 @ w2))"
proof -
  have s: "sparsity = 0 \<or> sparsity = 1 \<or> sparsity = 2"
  proof -
    have "unat sparsity \<le> 2" using assms(4) by (simp add: word_le_nat_alt)
    then have "unat sparsity = 0 \<or> unat sparsity = 1 \<or> unat sparsity = 2" by linarith
    then show ?thesis by (auto dest: count_word)
  qed
  have r: "r = 0 \<or> r = 1 \<or> r = 2" using assms(5) by linarith
  obtain a b c d e f g h where w0: "w0 = [a, b, c, d, e, f, g, h]" using list8 [OF assms(1)] by blast
  obtain a' b' c' d' e' f' g' h' where w1: "w1 = [a', b', c', d', e', f', g', h']" using list8 [OF assms(2)] by blast
  obtain i j k l m n p q where w2: "w2 = [i, j, k, l, m, n, p, q]" using list8 [OF assms(3)] by blast
  show ?thesis using s r by (elim disjE) (simp_all add: a_data_def window_start_def w0 w1 w2)
qed

lemma drop_unlanes: "drop (k * sizeof TYPE('t)) (unlanes (xs :: 't::len word list)) = unlanes (drop k xs)"
proof (induction xs arbitrary: k)
  case (Cons x xs)
  then show ?case by (cases k) (simp_all add: unlanes_def)
qed (simp add: unlanes_def)

lemma nth_unlanes_drop: "k * sizeof TYPE('t) \<le> length (unlanes xs) \<Longrightarrow>
    unlanes (drop k (xs :: 't::len word list)) ! i = unlanes xs ! (k * sizeof TYPE('t) + i)"
  by (simp flip: drop_unlanes)

lemma unlanes_take_nth: "i < k * sizeof TYPE('t) \<Longrightarrow> k \<le> length xs \<Longrightarrow> unlanes (take k (xs :: 't::len word list)) ! i = unlanes xs ! i"
proof -
  assume i: "i < k * sizeof TYPE('t)" "k \<le> length xs"
  have "unlanes xs = unlanes (take k xs) @ unlanes (drop k xs)" by (simp flip: unlanes_append)
  then show ?thesis using i by (simp add: nth_append)
qed

end
