(* ===== verification/NPU_StripMining.thy ===== *)
theory NPU_StripMining
  imports NPU_VectorMemoryProps
begin

text \<open>
  The strip-mined loop the vector memory instructions are made for: \<open>getvl\<close> takes as many elements
  as fit, a load and a store with that length and post-increment move them, until none is left.
  The loop is shown to copy an array of any length.
\<close>

subsection \<open>Contiguous accesses\<close>

lemma unat_add_nat: "unat (a :: u32) + m < 2 ^ 32 \<Longrightarrow> unat (a + of_nat m) = unat a + m"
  by (simp add: unat_word_ariths unsigned_of_nat take_bit_nat_eq_self)

lemma unat_ucast_u64: "unat (ucast (v :: u32) :: u64) = unat v"
  by (rule unsigned_ucast_eq [THEN trans], rule take_bit_nat_eq_self, rule less_trans [OF unsigned_less]) simp

lemma element_addr_contiguous:
  fixes T :: "'t::len itself"
  assumes "unat addr + (k + 1) * sizeof TYPE('t) \<le> 2 ^ 32"
  shows "unat (element_addr T w (of_nat w) addr k) = unat addr + k * sizeof TYPE('t)"
proof -
  let ?sz = "sizeof TYPE('t)"
  have e: "k div w * w * ?sz + k mod w * ?sz = k * ?sz" by (simp add: add_mult_distrib [symmetric])
  have b: "unat addr + k div w * w * ?sz < 2 ^ 32 \<or> ?sz = 0"
  proof -
    have "(k + 1) * ?sz = k * ?sz + ?sz" by simp
    then show ?thesis using assms e by linarith
  qed
  have "addr + of_nat (k div w) * (of_nat w * of_nat ?sz) = addr + of_nat (k div w * w * ?sz)" by simp
  moreover have "unat (addr + of_nat (k div w * w * ?sz)) = unat addr + k div w * w * ?sz"
  proof (cases "?sz = 0")
    case False
    then have "unat addr + k div w * w * ?sz < 2 ^ 32" using b by simp
    then show ?thesis by (simp add: unat_word_ariths unat_of_nat take_bit_nat_eq_self del: of_nat_mult)
  qed simp
  ultimately have r: "unat (ucast (addr + of_nat (k div w) * (of_nat w * of_nat ?sz)) :: u64) = unat addr + k div w * w * ?sz"
    by (simp only: unat_ucast_u64)
  have l: "k mod w * ?sz \<le> k * ?sz" using e by linarith
  have "unat (element_addr T w (of_nat w) addr k) = unat addr + k div w * w * ?sz + k mod w * ?sz"
    unfolding element_addr_def using r assms e l
    by (simp add: unat_word_ariths unat_of_nat take_bit_nat_eq_self del: of_nat_mult)
  then show ?thesis using e by simp
qed

lemma scatter_contiguous:
  assumes "\<And>k. k < n \<Longrightarrow> unat (B k) = a + k * sz" "length db = n * sz"
  shows "scatter (map B [0..<n]) sz db f = write_range a db f"
proof -
  have "fold (\<lambda>i. write_range (unat (map B [0..<n] ! i)) (element sz db i)) [0..<k] f = write_range a (take (k * sz) db) f" if "k \<le> n" for k
    using that
  proof (induction k)
    case (Suc k)
    have "k * sz \<le> length db" using Suc.prems assms(2) mult_le_mono1 [of k n sz] by simp
    moreover have "take (Suc k * sz) db = take (k * sz) db @ element sz db k"
      by (simp add: element_def take_add add.commute [of sz])
    ultimately show ?case using Suc assms(1) [of k] by (simp add: write_range_append del: mult_Suc)
  qed simp
  then show ?thesis using assms(2) by (simp add: scatter_def)
qed

lemma unlanes_reads:
  assumes "0 < sizeof TYPE('t::len)"
  shows "unlanes (map (\<lambda>k. from_bytes (map f [a + k * sizeof TYPE('t)..<a + k * sizeof TYPE('t) + sizeof TYPE('t)]) :: 't word) [0..<n])
    = map f [a..<a + n * sizeof TYPE('t)]"
proof (induction n)
  case (Suc n)
  have "[a..<a + Suc n * sizeof TYPE('t)] = [a..<a + n * sizeof TYPE('t)] @ [a + n * sizeof TYPE('t)..<a + n * sizeof TYPE('t) + sizeof TYPE('t)]"
    using upt_add_eq_append [of a "a + n * sizeof TYPE('t)" "sizeof TYPE('t)"] by (simp add: ac_simps)
  then show ?case using Suc by (simp add: unlanes_def)
qed (simp add: unlanes_def)

lemma mask_address_low: "unat addr < 2 ^ 31 \<Longrightarrow> mask_address s addr = addr"
proof -
  assume a: "unat addr < 2 ^ 31"
  have "addr AND 0x7FFFFFFF = addr AND mask 31" by (simp add: mask_eq_exp_minus_1)
  also have "\<dots> = take_bit 31 addr" by (simp add: take_bit_eq_mask)
  also have "\<dots> = addr"
  proof (rule word_unat_eq_iff [THEN iffD2])
    show "unat (take_bit 31 addr) = unat addr" using a by (simp add: unsigned_take_bit_eq take_bit_nat_eq_self)
  qed
  finally show ?thesis by (simp add: mask_address_def kMemMask_def)
qed

subsection \<open>The loop\<close>

definition getvl_inst :: vm_inst where
  "getvl_inst = \<lparr>sources = [ScalarReg 12], destination = Some 5, vd = 0, fresh = \<lambda>_. replicate 32 0\<rparr>"

definition load_inst :: vm_inst where
  "load_inst = \<lparr>sources = [ScalarReg 10, ScalarReg 5], destination = Some 10, vd = 0, fresh = \<lambda>_. replicate 32 0\<rparr>"

definition store_inst :: vm_inst where
  "store_inst = \<lparr>sources = [VectorReg 0, ScalarReg 11, ScalarReg 5], destination = Some 11, vd = 0, fresh = \<lambda>_. replicate 32 0\<rparr>"

text \<open>\<open>getvl t, n; vld.lp v0, src, t; vst.lp v0, dst, t; n -= t\<close>, at most \<open>fuel\<close> times.\<close>

fun strip_copy :: "'t::len itself \<Rightarrow> 'm memory_if \<Rightarrow> nat \<Rightarrow> 'm machine \<Rightarrow> 'm machine option" where
  "strip_copy T M 0 s = (if xreg s 12 = 0 then Some s else None)"
| "strip_copy T M (Suc fuel) s =
     (if xreg s 12 = 0 then Some s
      else case vld T M True False True load_inst (CoralNPUGetVl T True True False 5 getvl_inst s) of
             None \<Rightarrow> None
           | Some s1 \<Rightarrow> (case CoralNPUVSt T M True False True store_inst s1 of
               None \<Rightarrow> None
             | Some s2 \<Rightarrow> strip_copy T M fuel (s2\<lparr>xreg := (xreg s2)(12 := xreg s2 12 - xreg s2 5)\<rparr>)))"

lemma getvl_count:
  fixes T :: "'t::len itself" and s :: "'m machine"
  assumes "lane_type TYPE('t)" "machine_ok s"
  shows "CoralNPUGetVl T True True False 5 getvl_inst s
    = s\<lparr>xreg := (xreg s)(5 := of_nat (min (unat (xreg s 12)) (4 * (32 div sizeof TYPE('t)))))\<rparr>"
proof -
  let ?e = "32 div sizeof TYPE('t)"
  have n: "vector_size_in_bytes s = 32" using assms(2) by (simp add: vector_size_in_bytes_def machine_ok_def)
  have e: "of_nat ?e * 4 = (of_nat (4 * ?e) :: u32)" by simp
  have "4 * ?e \<le> 128" using lane_type_sizes(7) [OF assms(1)] by simp
  then have "4 * ?e < 2 ^ LENGTH(32)" by (rule le_less_trans) simp
  then have u: "unat (of_nat (4 * ?e) :: u32) = 4 * ?e" by (simp only: unsigned_of_nat take_bit_nat_eq_self of_nat_id)
  have "min (of_nat (4 * ?e)) (xreg s 12) = of_nat (min (unat (xreg s 12)) (4 * ?e))"
    using u by (auto simp: min_def word_le_nat_alt simp del: of_nat_mult)
  then show ?thesis
    by (simp only: CoralNPUGetVl_def Let_def n e if_True if_False) (simp add: getvl_inst_def GetInstructionSource_def del: of_nat_mult)
qed

context byte_memory
begin

text \<open>One round moves \<open>n\<close> elements.\<close>

lemma copy_round:
  fixes s :: "'m machine" and T :: "'t::len itself"
  assumes "lane_type TYPE('t)" "machine_ok s" "mem_ok (mem s)"
    and n: "n = min (unat (xreg s 12)) (4 * (32 div sizeof TYPE('t)))" "0 < n"
    and bounds: "unat (xreg s 10) + n * sizeof TYPE('t) < 2 ^ 31" "unat (xreg s 11) + n * sizeof TYPE('t) < 2 ^ 31"
    and ranges: "\<And>k. k < n \<Longrightarrow> in_range (mem s) (unat (xreg s 10) + k * sizeof TYPE('t)) (sizeof TYPE('t))"
      "\<And>k. k < n \<Longrightarrow> in_range (mem s) (unat (xreg s 11) + k * sizeof TYPE('t)) (sizeof TYPE('t))"
  obtains s1 s2 where
    "vld T M True False True load_inst (CoralNPUGetVl T True True False 5 getvl_inst s) = Some s1"
    "CoralNPUVSt T M True False True store_inst s1 = Some s2"
    "machine_ok s2" "mem_ok (mem s2)" "in_range (mem s2) = in_range (mem s)"
    "byte (mem s2) = write_range (unat (xreg s 11))
       (map (byte (mem s)) [unat (xreg s 10)..<unat (xreg s 10) + n * sizeof TYPE('t)]) (byte (mem s))"
    "xreg s2 5 = of_nat n" "xreg s2 12 = xreg s 12"
    "xreg s2 10 = xreg s 10 + of_nat (n * sizeof TYPE('t))" "xreg s2 11 = xreg s 11 + of_nat (n * sizeof TYPE('t))"
proof -
  let ?sz = "sizeof TYPE('t)" and ?e = "32 div sizeof TYPE('t)"
  define s0 where "s0 = s\<lparr>xreg := (xreg s)(5 := of_nat n)\<rparr>"
  have g: "CoralNPUGetVl T True True False 5 getvl_inst s = s0"
    unfolding s0_def n(1) by (rule getvl_count [OF assms(1,2)])
  have "n \<le> 4 * ?e" "4 * ?e \<le> 128" using n(1) lane_type_sizes(7) [OF assms(1)] by simp_all
  then have "n \<le> 128" by (rule order_trans)
  then have "n < 2 ^ LENGTH(32)" by (rule le_less_trans) simp
  then have u: "unat (of_nat n :: u32) = n" by (simp only: unsigned_of_nat take_bit_nat_eq_self of_nat_id)
  have cnt: "n = access_count TYPE('t) True True (of_nat n)"
    using \<open>n \<le> 4 * ?e\<close> by (simp add: access_count_def u strip_num_ops_def)
  have m: "mask_address (npu s) (xreg s 10) = xreg s 10" "mask_address (npu s) (xreg s 11) = xreg s 11"
    using bounds by (simp_all add: mask_address_low)
  have src: "GetInstructionSource load_inst 0 s0 = xreg s 10" "GetInstructionSource load_inst 1 s0 = of_nat n"
    by (simp_all add: s0_def load_inst_def GetInstructionSource_def)
  have f0: "fresh_ok load_inst" by (simp add: fresh_ok_def load_inst_def)
  have ok0: "machine_ok s0" "mem_ok (mem s0)" "npu s0 = npu s" "mem s0 = mem s" "vreg s0 = vreg s" using assms(2,3) by (simp_all add: s0_def machine_ok_def)
  define A where "A = element_addr T ?e (of_nat ?e) (xreg s 10)"
  define B where "B = element_addr T ?e (of_nat ?e) (xreg s 11)"
  have le: "(k + 1) * ?sz \<le> n * ?sz" if "k < n" for k using that by (intro mult_le_mono1) simp
  have A: "unat (A k) = unat (xreg s 10) + k * ?sz" if "k < n" for k
    unfolding A_def using le [OF that] bounds by (intro element_addr_contiguous) simp
  have B: "unat (B k) = unat (xreg s 11) + k * ?sz" if "k < n" for k
    unfolding B_def using le [OF that] bounds by (intro element_addr_contiguous) simp
  have A': "A = element_addr T ?e (access_stride T False (GetInstructionSource load_inst 1 s0)) (mask_address (npu s0) (GetInstructionSource load_inst 0 s0))"
    by (simp add: A_def access_stride_def src ok0 m)
  have cnt': "n = access_count TYPE('t) True True (GetInstructionSource load_inst 1 s0)" unfolding src by (rule cnt)
  have r0: "\<And>k. k < n \<Longrightarrow> in_range (mem s0) (unat (A k)) ?sz" using ranges(1) by (simp add: A ok0)
  obtain s1 where s1: "s1 = s0\<lparr>vreg := group_write (vd load_inst) (strip_num_ops True)
        (\<lambda>k. if k < n then from_bytes (map (byte (mem s0)) [unat (A k)..<unat (A k) + ?sz]) else 0 :: 't word) (vreg s0)\<rparr>"
    and v: "vld T M True False True load_inst s0 = Some (case destination load_inst of None \<Rightarrow> s1 | Some reg \<Rightarrow>
       s1\<lparr>xreg := (xreg s0)(reg := (if n = 0 then mask_address (npu s0) (GetInstructionSource load_inst 0 s0)
         else load_post_increment T True False (strip_num_ops True) (of_nat n) (access_stride T False (GetInstructionSource load_inst 1 s0))
           (mask_address (npu s0) (GetInstructionSource load_inst 0 s0)) load_inst s1))\<rparr>)"
    by (rule load_group [OF assms(1) ok0(1) f0 ok0(2) cnt' A' r0])
  define s1' where "s1' = s1\<lparr>xreg := (xreg s0)(10 := xreg s 10 + of_nat (n * ?sz))\<rparr>"
  have v': "vld T M True False True load_inst s0 = Some s1'"
    unfolding v s1'_def src using n(2) by (simp add: load_inst_def load_post_increment_def ok0 m)
  have ok1: "machine_ok s1'" "mem_ok (mem s1')" "npu s1' = npu s" "mem s1' = mem s"
    using ok0 group_write_length [OF assms(1), of "vreg s0"] by (simp_all add: s1'_def s1 machine_ok_def)
  have src1: "sources store_inst ! 0 = VectorReg 0" "GetInstructionSource store_inst 1 s1' = xreg s 11" "GetInstructionSource store_inst 2 s1' = of_nat n"
    by (simp_all add: s1'_def s0_def store_inst_def GetInstructionSource_def)
  have B': "B = element_addr T (row_width False ?e) (access_stride T False (GetInstructionSource store_inst 2 s1')) (mask_address (npu s1') (GetInstructionSource store_inst 1 s1'))"
    unfolding src1 ok1(3) m by (simp add: B_def access_stride_def row_width_def)
  have cnt1: "n = access_count TYPE('t) True True (GetInstructionSource store_inst 2 s1')" unfolding src1 by (rule cnt)
  have r1: "\<And>k. k < n \<Longrightarrow> in_range (mem s1') (unat (B k)) ?sz" using ranges(2) by (simp add: B ok1)
  obtain m' s2 where m': "mem_ok m'" "in_range m' = in_range (mem s1')"
    "byte m' = scatter (map B [0..<n]) ?sz (unlanes (map (\<lambda>k. group_elem 0 (vreg s1') k :: 't word) [0..<n])) (byte (mem s1'))"
    "s2 = s1'\<lparr>mem := m'\<rparr>"
    and w: "VectorStoreHelper T M True False True False store_inst s1' = Some (case destination store_inst of None \<Rightarrow> s2 | Some reg \<Rightarrow>
       s2\<lparr>xreg := (xreg s1')(reg := (if n = 0 then mask_address (npu s1') (GetInstructionSource store_inst 1 s1')
         else store_post_increment T True False False (strip_num_ops True) (of_nat n) (access_stride T False (GetInstructionSource store_inst 2 s1'))
           (mask_address (npu s1') (GetInstructionSource store_inst 1 s1')) store_inst s2))\<rparr>)"
    by (rule store_group [OF assms(1) ok1(1,2) src1(1) cnt1 B' r1])
  define s2' where "s2' = s2\<lparr>xreg := (xreg s1')(11 := xreg s 11 + of_nat (n * ?sz))\<rparr>"
  have w': "CoralNPUVSt T M True False True store_inst s1' = Some s2'"
    unfolding CoralNPUVSt_def w s2'_def src1 using n(2) by (simp add: store_inst_def store_post_increment_def ok1 m)
  have "group_elem 0 (vreg s1') k = (from_bytes (map (byte (mem s)) [unat (xreg s 10) + k * ?sz..<unat (xreg s 10) + k * ?sz + ?sz]) :: 't word)" if "k < n" for k
  proof -
    have "k < 4 * ?e" using that \<open>n \<le> 4 * ?e\<close> by simp
    then show ?thesis
      unfolding s1'_def s1 using that by (simp add: load_inst_def strip_num_ops_def group_elem_write [OF assms(1)] A ok0)
  qed
  then have ge: "map (\<lambda>k. group_elem 0 (vreg s1') k :: 't word) [0..<n]
      = map (\<lambda>k. from_bytes (map (byte (mem s)) [unat (xreg s 10) + k * ?sz..<unat (xreg s 10) + k * ?sz + ?sz])) [0..<n]" by simp
  have "unlanes (map (\<lambda>k. group_elem 0 (vreg s1') k :: 't word) [0..<n]) = map (byte (mem s)) [unat (xreg s 10)..<unat (xreg s 10) + n * ?sz]"
    unfolding ge by (rule unlanes_reads [OF lane_type_sizes(5) [OF assms(1)]])
  then have bm: "byte m' = write_range (unat (xreg s 11)) (map (byte (mem s)) [unat (xreg s 10)..<unat (xreg s 10) + n * ?sz]) (byte (mem s))"
    unfolding m'(3) ok1(4) using B by (subst scatter_contiguous) simp_all
  show thesis
  proof (rule that [OF _ w'])
    show "vld T M True False True load_inst (CoralNPUGetVl T True True False 5 getvl_inst s) = Some s1'" unfolding g by (rule v')
    show "in_range (mem s2') = in_range (mem s)" using m'(2) by (simp add: s2'_def m'(4) ok1(4))
    show "machine_ok s2'" using ok1(1) by (simp add: s2'_def m'(4) machine_ok_def)
    show "byte (mem s2') = write_range (unat (xreg s 11)) (map (byte (mem s)) [unat (xreg s 10)..<unat (xreg s 10) + n * ?sz]) (byte (mem s))"
      using bm by (simp add: s2'_def m'(4))
  qed (simp_all add: s2'_def s1'_def s0_def m' ok1)
qed

lemma read_after_write:
  assumes "a + n \<le> d \<or> d + length bs \<le> a"
  shows "map (write_range d bs f) [a..<a + n] = map f [a..<a + n]"
  using assms by (auto simp: write_range_def)

text \<open>The whole loop, by induction on the rounds left.\<close>

lemma strip_copy_copies:
  fixes s :: "'m machine" and T :: "'t::len itself"
  assumes "lane_type TYPE('t)"
  shows "machine_ok s \<Longrightarrow> mem_ok (mem s) \<Longrightarrow> c = unat (xreg s 12) \<Longrightarrow> c \<le> fuel
    \<Longrightarrow> unat (xreg s 10) + c * sizeof TYPE('t) < 2 ^ 31 \<Longrightarrow> unat (xreg s 11) + c * sizeof TYPE('t) < 2 ^ 31
    \<Longrightarrow> (\<And>k. k < c \<Longrightarrow> in_range (mem s) (unat (xreg s 10) + k * sizeof TYPE('t)) (sizeof TYPE('t)))
    \<Longrightarrow> (\<And>k. k < c \<Longrightarrow> in_range (mem s) (unat (xreg s 11) + k * sizeof TYPE('t)) (sizeof TYPE('t)))
    \<Longrightarrow> unat (xreg s 10) + c * sizeof TYPE('t) \<le> unat (xreg s 11) \<or> unat (xreg s 11) + c * sizeof TYPE('t) \<le> unat (xreg s 10)
    \<Longrightarrow> \<exists>s'. strip_copy T M fuel s = Some s' \<and> xreg s' 12 = 0
      \<and> byte (mem s') = write_range (unat (xreg s 11))
          (map (byte (mem s)) [unat (xreg s 10)..<unat (xreg s 10) + c * sizeof TYPE('t)]) (byte (mem s))"
proof (induction fuel arbitrary: s c)
  case 0
  then have "xreg s 12 = 0" by (simp add: unat_eq_0)
  then show ?case using 0 by simp
next
  case (Suc fuel)
  let ?sz = "sizeof TYPE('t)" and ?src = "unat (xreg s 10)" and ?dst = "unat (xreg s 11)"
  show ?case
  proof (cases "c = 0")
    case True
    then have "xreg s 12 = 0" using Suc.prems(3) by (simp add: unat_eq_0)
    then show ?thesis using True by simp
  next
    case False
    define n where "n = min (unat (xreg s 12)) (4 * (32 div ?sz))"
    have np: "0 < n" using False Suc.prems(3) lane_type_sizes(6) [OF assms] unfolding n_def by simp
    have nc: "n \<le> c" using Suc.prems(3) by (simp add: n_def)
    then have ncs: "n * ?sz \<le> c * ?sz" by (rule mult_le_mono1)
    have cs: "c * ?sz = n * ?sz + (c - n) * ?sz" using nc by (simp flip: add_mult_distrib)
    have b: "?src + n * ?sz < 2 ^ 31" "?dst + n * ?sz < 2 ^ 31" using Suc.prems(5,6) ncs by linarith+
    have rg: "\<And>k. k < n \<Longrightarrow> in_range (mem s) (?src + k * ?sz) ?sz" "\<And>k. k < n \<Longrightarrow> in_range (mem s) (?dst + k * ?sz) ?sz"
      using Suc.prems(7,8) nc by simp_all
    obtain s1 s2 where r: "vld T M True False True load_inst (CoralNPUGetVl T True True False 5 getvl_inst s) = Some s1"
      "CoralNPUVSt T M True False True store_inst s1 = Some s2" "machine_ok s2" "mem_ok (mem s2)" "in_range (mem s2) = in_range (mem s)"
      "byte (mem s2) = write_range ?dst (map (byte (mem s)) [?src..<?src + n * ?sz]) (byte (mem s))"
      "xreg s2 5 = of_nat n" "xreg s2 12 = xreg s 12" "xreg s2 10 = xreg s 10 + of_nat (n * ?sz)" "xreg s2 11 = xreg s 11 + of_nat (n * ?sz)"
      by (rule copy_round [OF assms Suc.prems(1,2) n_def np b rg]) blast
    define s3 where "s3 = s2\<lparr>xreg := (xreg s2)(12 := xreg s2 12 - xreg s2 5)\<rparr>"
    have n32: "unat (of_nat n :: u32) = n"
      using nc Suc.prems(3) unsigned_less [of "xreg s 12", where 'a = nat] by (simp only: unsigned_of_nat take_bit_nat_eq_self of_nat_id)
    have adv: "unat (a + of_nat (n * ?sz)) = unat a + n * ?sz" if "unat (a :: u32) + c * ?sz < 2 ^ 31" for a
    proof (rule unat_add_nat)
      have "unat a + n * ?sz < 2 ^ 31" using that ncs by linarith
      then show "unat a + n * ?sz < 2 ^ 32" by (rule less_trans) simp
    qed
    have x3: "unat (xreg s3 10) = ?src + n * ?sz" "unat (xreg s3 11) = ?dst + n * ?sz" "unat (xreg s3 12) = c - n"
      using adv [OF Suc.prems(5)] adv [OF Suc.prems(6)] n32 nc Suc.prems(3)
      by (simp_all add: s3_def r del: of_nat_mult) (simp add: unat_sub word_le_nat_alt)
    have f3: "mem s3 = mem s2" "machine_ok s3" using r(3) by (simp_all add: s3_def machine_ok_def)
    have "\<exists>s'. strip_copy T M fuel s3 = Some s' \<and> xreg s' 12 = 0
      \<and> byte (mem s') = write_range (unat (xreg s3 11))
          (map (byte (mem s3)) [unat (xreg s3 10)..<unat (xreg s3 10) + (c - n) * ?sz]) (byte (mem s3))"
    proof (rule Suc.IH)
      show "machine_ok s3" "mem_ok (mem s3)" using f3 r(4) by simp_all
      show "c - n = unat (xreg s3 12)" "c - n \<le> fuel" using x3 np Suc.prems(4) by simp_all
      show "unat (xreg s3 10) + (c - n) * ?sz < 2 ^ 31" "unat (xreg s3 11) + (c - n) * ?sz < 2 ^ 31"
        using Suc.prems(5,6) cs x3 by simp_all
      show "unat (xreg s3 10) + (c - n) * ?sz \<le> unat (xreg s3 11) \<or> unat (xreg s3 11) + (c - n) * ?sz \<le> unat (xreg s3 10)"
        using Suc.prems(9) cs x3 by linarith
      fix k assume "k < c - n"
      then show "in_range (mem s3) (unat (xreg s3 10) + k * ?sz) ?sz" "in_range (mem s3) (unat (xreg s3 11) + k * ?sz) ?sz"
        using Suc.prems(7,8) [of "n + k"] by (simp_all add: f3 r(5) x3 add_mult_distrib add.assoc)
    qed
    then obtain s' where s': "strip_copy T M fuel s3 = Some s'" "xreg s' 12 = 0"
      "byte (mem s') = write_range (?dst + n * ?sz) (map (byte (mem s2)) [?src + n * ?sz..<?src + n * ?sz + (c - n) * ?sz]) (byte (mem s2))"
      by (auto simp: x3 f3)
    have mr: "map (byte (mem s2)) [?src + n * ?sz..<?src + n * ?sz + (c - n) * ?sz] = map (byte (mem s)) [?src + n * ?sz..<?src + n * ?sz + (c - n) * ?sz]"
      unfolding r(6) using Suc.prems(9) cs by (intro read_after_write) auto
    have up: "[?src..<?src + c * ?sz] = [?src..<?src + n * ?sz] @ [?src + n * ?sz..<?src + n * ?sz + (c - n) * ?sz]"
      using upt_add_eq_append [of ?src "?src + n * ?sz" "(c - n) * ?sz"] by (simp add: cs add.assoc)
    have "byte (mem s') = write_range (?dst + n * ?sz) (map (byte (mem s)) [?src + n * ?sz..<?src + n * ?sz + (c - n) * ?sz]) (byte (mem s2))"
      using s'(3) mr by (simp only:)
    then have "byte (mem s') = write_range ?dst (map (byte (mem s)) [?src..<?src + c * ?sz]) (byte (mem s))"
      unfolding r(6) up by (simp add: write_range_append)
    moreover have "xreg s 12 \<noteq> 0" using False Suc.prems(3) by auto
    ultimately show ?thesis using s'(1,2) r(1,2) by (simp add: s3_def)
  qed
qed

end

end
