(* ===== verification/NPU_RenodeMemoryClaims.thy ===== *)
theory NPU_RenodeMemoryClaims
  imports NPU_RenodeMemoryProps
begin

text \<open>
  The properties of the Renode memory: the constructor establishes the representation invariant and
  stores keep it, accesses implement the flat memory, everything outside it is refused, and
  masked element accesses round-trip.
\<close>

lemma constructor_ok:
  assumes "CoralNPURenodeMemory bs msize blocks base 1 = Some M"
    and "0 < unat bs" "unat bs < 2 ^ 31" "\<forall>b \<in> set blocks. length b = unat bs"
    and "unat base + unat msize + unat bs \<le> 2 ^ 64"
  shows "renode_ok M" "base_address M = base" "unat (max_address M) = unat base + unat msize" "block_size M = unat bs"
    "unat (max_address M) > 0x3fffff"
proof -
  have max: "unat (base + msize) = unat base + unat msize"
    using assms(2,5) by (subst unat_word_ariths) (simp add: take_bit_nat_eq_self)
  have up: "unat (base + msize + bs - 1) = unat base + unat msize + (unat bs - 1)"
  proof -
    have "base + msize + bs - 1 = base + msize + (bs - 1)" by simp
    moreover have "unat (bs - 1) = unat bs - 1" using assms(2) by (intro unat_minus_one) auto
    ultimately show ?thesis
      using assms(2,5) max by (simp only:) (subst unat_word_ariths, simp add: take_bit_nat_eq_self)
  qed
  have nb: "unat ((base + msize + bs - 1) div bs) = (unat base + unat msize + (unat bs - 1)) div unat bs"
    by (simp only: unat_div_distrib up)
  have M: "M = \<lparr>addressable_unit_shift = bit_width 1 - 1, addressable_unit_size = 1,
      allocation_byte_size = c_wrap True 32 (uint bs), memory_block_size_bytes = bs, base_address = base,
      max_address = base + msize, block_map = take (unat ((base + msize + bs - 1) div bs)) blocks\<rparr>"
    and gt: "base + msize > kCoralnpuMaxMemoryAddress" and le: "unat ((base + msize + bs - 1) div bs) \<le> length blocks"
    using assms(1) by (auto simp: CoralNPURenodeMemory_def Let_def split: if_splits)
  have "int (unat bs) < 2 ^ 31" using assms(3) by (simp only: of_nat_less_numeral_power_cancel_iff)
  then have al: "c_wrap True 32 (uint bs) = int (unat bs)" 
    by (subst c_wrap_id) (auto intro: order_trans [OF _ uint_nonnegative])
  have "unat base + unat msize \<le> unat bs * ((unat base + unat msize + (unat bs - 1)) div unat bs)"
  proof -
    let ?n = "unat base + unat msize + (unat bs - 1)"
    have "?n = unat bs * (?n div unat bs) + ?n mod unat bs" by simp
    moreover have "?n mod unat bs \<le> unat bs - 1" using assms(2) mod_less_divisor [of "unat bs" ?n] by linarith
    ultimately show ?thesis by linarith
  qed
  moreover have "bit_width 1 = 1" by simp
  ultimately show "renode_ok M"
    using assms(2-4) nb max le al unfolding renode_ok_def block_size_def M
    by (auto dest: in_set_takeD simp del: bit_width.simps)
  show "base_address M = base" "unat (max_address M) = unat base + unat msize" "block_size M = unat bs"
    using max by (simp_all add: M block_size_def)
  show "unat (max_address M) > 0x3fffff"
    using gt by (simp add: M word_less_nat_alt kCoralnpuMaxMemoryAddress_def)
qed

lemma Renode_Load_flat:
  assumes "renode_ok M" "mem_range M (unat a) (length db)" "db \<noteq> []"
  shows "Renode_Load M a db has_inst latency = Some (map (flat M) [unat a..<unat a + length db], complete_load has_inst latency)"
  using LoadStoreHelper_load_flat [OF assms(1,2)] valid_range(1) [OF assms(2)] assms
  by (simp add: Renode_Load_def overwrite_def)

lemma Renode_Store_flat:
  assumes "renode_ok M" "mem_range M (unat a) (length db)" "db \<noteq> []"
  shows "\<exists>M'. Renode_Store M a db = Some M' \<and> renode_ok M' \<and> same_layout M M'
    \<and> flat M' = write_range (unat a) db (flat M)"
  using LoadStoreHelper_store_flat [OF assms(1,2), of db] valid_range(1) [OF assms(2)] assms
  by (simp add: Renode_Store_def)

lemma outside_refused:
  assumes "renode_ok M" "n < 2 ^ 31" "unat (max_address M) + 2 ^ 31 \<le> 2 ^ 64" "\<not> mem_range M (unat a) n"
  shows "\<not> (IsValidAddress M a (a + word_of_int (int n)) \<and> a < max_address M)"
proof (cases "unat a + n < 2 ^ 64")
  case True
  then show ?thesis using assms(4) unat_add_int [OF True]
    by (auto simp: IsValidAddress_def mem_range_def word_le_nat_alt)
next
  case False
  then show ?thesis using assms(2,3) by (auto simp: word_less_nat_alt)
qed

subsection \<open>Properties\<close>

text \<open>Property C20. The representation invariant: the constructor establishes it for blocks of the given
  size (below 2 GB) and every completed store keeps it and the address range.\<close>

theorem renode_invariant:
  assumes "CoralNPURenodeMemory bs msize blocks base 1 = Some M0"
    and "0 < unat bs" "unat bs < 2 ^ 31" "\<forall>b \<in> set blocks. length b = unat bs"
    and "unat base + unat msize + unat bs \<le> 2 ^ 64"
    and "renode_ok M" "mem_range M (unat a) (length db)" "db \<noteq> []" "Renode_Store M a db = Some M'"
  shows "renode_ok M0 \<and> mem_range M0 (unat base) (unat msize) \<and> renode_ok M' \<and> mem_range M' = mem_range M"
  using constructor_ok [OF assms(1-5)] Renode_Store_flat [OF assms(6-8)] assms(9) mem_range_layout
  by (auto simp: mem_range_def)

text \<open>Property C2. The block memory refines a flat byte memory: a load of any range inside the memory
  returns its bytes and a store changes exactly its bytes, across however many blocks.\<close>

theorem renode_refines_flat:
  assumes "renode_ok M" "mem_range M (unat a) (length db)" "db \<noteq> []"
  shows "Renode_Load M a db has_inst latency
      = Some (map (flat M) [unat a..<unat a + length db], complete_load has_inst latency)
    \<and> (\<exists>M'. Renode_Store M a db = Some M' \<and> flat M' = write_range (unat a) db (flat M))"
  using Renode_Load_flat [OF assms] Renode_Store_flat [OF assms] by blast

text \<open>Property C21. Accesses that leave the address range, even by wrapping around the address space, and
  empty ones are refused, and no others.\<close>

theorem renode_refuses_outside:
  assumes "renode_ok M" "length db < 2 ^ 31" "unat (max_address M) + 2 ^ 31 \<le> 2 ^ 64"
  shows "(Renode_Load M a db has_inst latency = None) = (db = [] \<or> \<not> mem_range M (unat a) (length db))
    \<and> (Renode_Store M a db = None) = (db = [] \<or> \<not> mem_range M (unat a) (length db))"
proof (cases "db = [] \<or> \<not> mem_range M (unat a) (length db)")
  case True
  then have "db = [] \<or> \<not> (IsValidAddress M a (a + word_of_int (int (length db))) \<and> a < max_address M)"
    using outside_refused [OF assms] by blast
  then show ?thesis using True assms(1)
    by (auto simp: Renode_Load_def Renode_Store_def LoadStoreHelper_load_def LoadStoreHelper_store_def)
next
  case False
  then show ?thesis using Renode_Load_flat [OF assms(1), of a db has_inst latency] Renode_Store_flat [OF assms(1), of a db] by auto
qed

text \<open>A masked scatter followed by a masked gather with the same addresses and mask returns
  the active elements and leaves the inactive elements of the destination buffer as they were.\<close>

theorem renode_masked_roundtrip:
  assumes "renode_ok M" "0 < sz" "length db = length as * sz" "length db' = length as * sz" "length msk = length as"
    and "separate as sz" "\<forall>a \<in> set as. mem_range M (unat a) sz"
  shows "\<exists>M'. Renode_StoreMasked M as msk (int sz) db = Some M'
    \<and> Renode_LoadMasked M' as msk (int sz) db' True 0
      = Some (concat (map (\<lambda>i. element sz (if msk ! i then db else db') i) [0..<length as]), ExecuteNow)"
proof -
  have r: "\<And>i. i < length as \<Longrightarrow> msk ! i \<Longrightarrow> mem_range M (unat (as ! i)) sz" using assms(7) by simp
  obtain M' where M': "fold (store_element as msk (int sz) db) [0..<length as] (Some M) = Some M'" "renode_ok M'"
    "same_layout M M'" "flat M' = masked_scatter as msk sz db (length as) (flat M)"
    using store_elements_loop [OF assms(1,2,3,5) r, of "length as"] by auto
  have r': "\<And>i. i < length as \<Longrightarrow> msk ! i \<Longrightarrow> mem_range M' (unat (as ! i)) sz"
    using r by (simp add: mem_range_layout [OF M'(3)])
  have "masked_gather as msk sz db' (flat M') (length as)
      = concat (map (\<lambda>i. element sz (if msk ! i then db else db') i) [0..<length as])"
    unfolding masked_gather_def M'(4)
    by (rule arg_cong [where f = concat], rule map_cong [OF refl])
      (auto simp: masked_scatter_read [OF assms(6,3)])
  then show ?thesis
    using M'(1) load_elements_loop [OF M'(2) assms(2,4,5) r', of "length as"] assms M'(2)
    by (simp add: Renode_StoreMasked_def Renode_LoadMasked_def complete_load_def)
qed

subsection \<open>Concrete memories\<close>

text \<open>Four blocks of one megabyte, and the same memory built by the constructor.\<close>

definition sample_blocks :: "u8 list list" where
  "sample_blocks = replicate 4 (replicate 0x100000 0)"

definition sample_memory :: renode_memory where
  "sample_memory = the (CoralNPURenodeMemory 0x100000 0x400000 sample_blocks 0 1)"

lemma sample_constructed: "CoralNPURenodeMemory 0x100000 0x400000 sample_blocks 0 1 = Some sample_memory"
  by (simp add: sample_memory_def CoralNPURenodeMemory_def kCoralnpuMaxMemoryAddress_def sample_blocks_def)

lemma sample_args: "0 < unat (0x100000 :: u64)" "unat (0x100000 :: u64) < 2 ^ 31"
  "\<forall>b \<in> set sample_blocks. length b = unat (0x100000 :: u64)"
  "unat (0 :: u64) + unat (0x400000 :: u64) + unat (0x100000 :: u64) \<le> 2 ^ 64"
  by (simp_all add: sample_blocks_def)

lemmas renode_sample_ok = constructor_ok [OF sample_constructed sample_args]

lemma sample_range: "a + n \<le> 0x400000 \<Longrightarrow> mem_range sample_memory a n"
  using renode_sample_ok(2,3) by (simp add: mem_range_def)

lemma renode_invariant_witness:
  "\<exists>M'. Renode_Store sample_memory 0xFFFFE [1, 2, 3, 4] = Some M'
    \<and> renode_ok M' \<and> mem_range M' = mem_range sample_memory"
proof -
  have r: "mem_range sample_memory (unat (0xFFFFE :: u64)) (length [1, 2, 3, 4 :: u8])" by (rule sample_range) simp
  obtain M' where "Renode_Store sample_memory 0xFFFFE [1, 2, 3, 4] = Some M'"
    using Renode_Store_flat [OF renode_sample_ok(1) r] by blast
  moreover from renode_invariant [OF sample_constructed sample_args renode_sample_ok(1) r _ this]
  have "renode_ok M' \<and> mem_range M' = mem_range sample_memory" by simp
  ultimately show ?thesis by blast
qed

lemma renode_refines_flat_witness:
  "Renode_Load sample_memory 0xFFFFE [0, 0, 0, 0] True 0 = Some (map (flat sample_memory) [0xFFFFE..<0x100002], ExecuteNow)"
  using renode_refines_flat [OF renode_sample_ok(1) sample_range, of "0xFFFFE" "[0, 0, 0, 0]" True 0]
  by (simp add: complete_load_def)

lemma renode_refuses_outside_witness:
  "Renode_Load sample_memory 0x3FFFFE [0, 0, 0, 0] True 0 = None \<and> Renode_Store sample_memory 0xFFFFFFFFFFFFFFFE [1, 2, 3, 4] = None
    \<and> Renode_Load sample_memory 0x3FFFFC [0, 0, 0, 0] True 0 \<noteq> None"
proof -
  have m: "unat (max_address sample_memory) + 2 ^ 31 \<le> 2 ^ 64" using renode_sample_ok(3) by simp
  have o: "\<not> mem_range sample_memory (unat (0x3FFFFE :: u64)) (Suc (Suc (Suc (Suc 0))))" "\<not> mem_range sample_memory (unat (0xFFFFFFFFFFFFFFFE :: u64)) (Suc (Suc (Suc (Suc 0))))"
    "mem_range sample_memory (unat (0x3FFFFC :: u64)) (Suc (Suc (Suc (Suc 0))))"
    using renode_sample_ok(2,3) by (simp_all add: mem_range_def)
  show ?thesis
    using renode_refuses_outside [OF renode_sample_ok(1) _ m, of "[0, 0, 0, 0]" "0x3FFFFE" True 0]
      renode_refuses_outside [OF renode_sample_ok(1) _ m, of "[1, 2, 3, 4]" "0xFFFFFFFFFFFFFFFE" True 0]
      renode_refuses_outside [OF renode_sample_ok(1) _ m, of "[0, 0, 0, 0]" "0x3FFFFC" True 0] o
    by simp
qed

lemma renode_masked_roundtrip_witness:
  "\<exists>M'. Renode_StoreMasked sample_memory [0x100, 0xFFFFF, 0x200] [True, True, False] 2 [1, 2, 3, 4, 5, 6] = Some M'
    \<and> Renode_LoadMasked M' [0x100, 0xFFFFF, 0x200] [True, True, False] 2 [9, 9, 9, 9, 9, 9] True 0
      = Some ([1, 2, 3, 4, 9, 9], ExecuteNow)"
proof -
  have s: "separate [0x100, 0xFFFFF, 0x200] 2" by (auto simp: separate_def less_Suc_eq numeral_3_eq_3)
  have r: "\<forall>a \<in> set [0x100, 0xFFFFF, 0x200 :: u64]. mem_range sample_memory (unat a) 2"
    by (auto intro: sample_range)
  show ?thesis
    using renode_masked_roundtrip [OF renode_sample_ok(1) _ _ _ _ s r, of "[1, 2, 3, 4, 5, 6]" "[9, 9, 9, 9, 9, 9]" "[True, True, False]"]
    by (simp add: element_def upt_rec)
qed

end
