(* ===== verification/NPU_VectorMemoryClaims.thy ===== *)
theory NPU_VectorMemoryClaims
  imports NPU_StripMining NPU_RenodeMemoryClaims
begin

text \<open>
  The properties of the vector memory instructions, on the Renode block memory: what loads and
  stores do to registers and memory, that a store can be loaded back, what \<open>getvl\<close> returns, that a
  strip-mined copy loop built from the three copies every byte, and the accumulator moves.
\<close>

subsection \<open>Single instructions\<close>


text \<open>The bytes a store does not touch.\<close>

definition untouched :: "(nat \<Rightarrow> u64) \<Rightarrow> nat \<Rightarrow> nat \<Rightarrow> nat \<Rightarrow> bool" where
  "untouched A n sz x \<longleftrightarrow> (\<forall>k < n. \<not> (unat (A k) \<le> x \<and> x < unat (A k) + sz))"

definition agree_on :: "(nat \<Rightarrow> bool) \<Rightarrow> (nat \<Rightarrow> u8) \<Rightarrow> (nat \<Rightarrow> u8) \<Rightarrow> bool" where
  "agree_on P f g \<longleftrightarrow> (\<forall>x. P x \<longrightarrow> f x = g x)"

text \<open>Property C18. A vector store, plain or quad, writes the first \<open>n\<close> elements of its register group to
  their addresses and no other byte of memory, and keeps every vector register.\<close>

theorem VSt_stores:
  fixes T :: "'t::len itself" and s :: "renode_memory machine"
  assumes "lane_type TYPE('t)" "machine_ok s" "renode_ok (mem s)" "sources inst ! 0 = VectorReg b"
    and "n = access_count TYPE('t) hl sm (GetInstructionSource inst 2 s)"
    and "A = element_addr T (row_width is_quad (32 div sizeof TYPE('t))) (access_stride T hs (GetInstructionSource inst 2 s))
      (mask_address (npu s) (GetInstructionSource inst 1 s))"
    and "\<And>k. k < n \<Longrightarrow> mem_range (mem s) (unat (A k)) (sizeof TYPE('t))"
    and "separate (map A [0..<n]) (sizeof TYPE('t))"
  shows "\<exists>s'. VectorStoreHelper T renode_if hl hs sm is_quad inst s = Some s' \<and> vreg s' = vreg s \<and> npu s' = npu s
    \<and> lanes (gather (map A [0..<n]) (sizeof TYPE('t)) (flat (mem s'))) = map (\<lambda>k. group_elem b (vreg s) k :: 't word) [0..<n]
    \<and> agree_on (untouched A n (sizeof TYPE('t))) (flat (mem s')) (flat (mem s)) \<and> renode_ok (mem s')"
proof -
  let ?V = "map (\<lambda>k. group_elem b (vreg s) k :: 't word) [0..<n]"
  obtain s' where s': "VectorStoreHelper T renode_if hl hs sm is_quad inst s = Some s'" "renode_ok (mem s')"
    "flat (mem s') = scatter (map A [0..<n]) (sizeof TYPE('t)) (unlanes ?V) (flat (mem s))" "vreg s' = vreg s" "npu s' = npu s"
    using renode.store_regs [OF assms(1-7)] by blast
  have "lanes (gather (map A [0..<n]) (sizeof TYPE('t)) (flat (mem s'))) = ?V"
    unfolding s'(3) using assms(8) lane_type_sizes(1) [OF assms(1)] by (subst gather_scatter) simp_all
  moreover have "agree_on (untouched A n (sizeof TYPE('t))) (flat (mem s')) (flat (mem s))"
    unfolding s'(3) by (auto simp: agree_on_def untouched_def intro!: scatter_other)
  ultimately show ?thesis using s' by blast
qed

text \<open>What a vector store wrote, the vector load with the same operands reads back into any
  register group, with zeros past the length.\<close>

theorem VLd_after_VSt:
  fixes T :: "'t::len itself" and s :: "renode_memory machine"
  assumes "lane_type TYPE('t)" "machine_ok s" "fresh_ok ld" "renode_ok (mem s)"
    and "sources st = [VectorReg b, a, x]" "sources ld = [a, x]" "destination st = None" "destination ld = None"
    and "a = ScalarReg ra" "x = ScalarReg rx"
    and "n = access_count TYPE('t) hl sm (xreg s rx)"
    and "A = element_addr T (32 div sizeof TYPE('t)) (access_stride T hs (xreg s rx)) (mask_address (npu s) (xreg s ra))"
    and "\<And>k. k < n \<Longrightarrow> mem_range (mem s) (unat (A k)) (sizeof TYPE('t))"
    and "separate (map A [0..<n]) (sizeof TYPE('t))"
  shows "\<exists>s1 s2. CoralNPUVSt T renode_if hl hs sm st s = Some s1 \<and> vld T renode_if hl hs sm ld s1 = Some s2
    \<and> vreg s2 = group_write (vd ld) (strip_num_ops sm) (\<lambda>k. if k < n then group_elem b (vreg s) k else 0 :: 't word) (vreg s)"
proof -
  let ?V = "map (\<lambda>k. group_elem b (vreg s) k :: 't word) [0..<n]"
  have src: "sources st ! 0 = VectorReg b" "GetInstructionSource st 2 s = xreg s rx" "GetInstructionSource st 1 s = xreg s ra"
    using assms(5,9,10) by (simp_all add: GetInstructionSource_def)
  have n0: "n = access_count TYPE('t) hl sm (GetInstructionSource st 2 s)" unfolding src by (rule assms(11))
  have A0: "A = element_addr T (row_width False (32 div sizeof TYPE('t))) (access_stride T hs (GetInstructionSource st 2 s))
      (mask_address (npu s) (GetInstructionSource st 1 s))" unfolding src using assms(12) by (simp add: row_width_def)
  obtain s1 where s1: "CoralNPUVSt T renode_if hl hs sm st s = Some s1" "renode_ok (mem s1)" "mem_range (mem s1) = mem_range (mem s)"
    "flat (mem s1) = scatter (map A [0..<n]) (sizeof TYPE('t)) (unlanes ?V) (flat (mem s))"
    "vreg s1 = vreg s" "npu s1 = npu s" "xreg s1 = xreg s"
    using renode.store_regs [OF assms(1,2,4) src(1) n0 A0 assms(13)] assms(7) unfolding CoralNPUVSt_def by blast
  have ld: "GetInstructionSource ld 1 s1 = xreg s rx" "GetInstructionSource ld 0 s1 = xreg s ra"
    using assms(6,9,10) s1(7) by (simp_all add: GetInstructionSource_def)
  have ok: "machine_ok s1" using assms(2) s1(5,6) by (simp add: machine_ok_def)
  have v: "from_bytes (map (flat (mem s1)) [unat (A k)..<unat (A k) + sizeof TYPE('t)]) = (group_elem b (vreg s) k :: 't word)" if "k < n" for k
  proof -
    have "lanes (gather (map A [0..<n]) (sizeof TYPE('t)) (flat (mem s1))) = ?V"
      unfolding s1(4) using assms(14) lane_type_sizes(1) [OF assms(1)] by (subst gather_scatter) simp_all
    from arg_cong [OF this, where f = "\<lambda>l. l ! k"] show ?thesis
      using that by (simp add: lanes_gather [OF lane_type_sizes(5) [OF assms(1)]])
  qed
  have n': "n = access_count TYPE('t) hl sm (GetInstructionSource ld 1 s1)" unfolding ld by (rule assms(11))
  have A': "A = element_addr T (32 div sizeof TYPE('t)) (access_stride T hs (GetInstructionSource ld 1 s1))
      (mask_address (npu s1) (GetInstructionSource ld 0 s1))" unfolding ld s1(6) by (rule assms(12))
  have r': "\<And>k. k < n \<Longrightarrow> mem_range (mem s1) (unat (A k)) (sizeof TYPE('t))" using assms(13) s1(3) by simp
  obtain s2 where s2: "vld T renode_if hl hs sm ld s1 = Some s2" "vreg s2 = group_write (vd ld) (strip_num_ops sm)
        (\<lambda>k. if k < n then from_bytes (map (flat (mem s1)) [unat (A k)..<unat (A k) + sizeof TYPE('t)]) else 0 :: 't word) (vreg s)"
    using renode.load_regs [OF assms(1) ok assms(3) s1(2) n' A' r'] unfolding s1(5) by blast
  have "(\<lambda>k. if k < n then from_bytes (map (flat (mem s1)) [unat (A k)..<unat (A k) + sizeof TYPE('t)]) else 0 :: 't word)
      = (\<lambda>k. if k < n then group_elem b (vreg s) k else 0)"
    using v by auto
  then show ?thesis using s1(1) s2 by auto
qed

text \<open>\<open>getvl\<close> returns the largest vector length of the element type, four times that when
  strip-mined, capped by each scalar argument given.\<close>

theorem GetVl_minimum:
  fixes T :: "'t::len itself"
  assumes "lane_type TYPE('t)" "vector_length (npu s) = 256"
  shows "unat (xreg (CoralNPUGetVl T sm is_rs1 is_rs2 r inst s) r) = Min
    ({strip_num_ops sm * (32 div sizeof TYPE('t))}
     \<union> (if is_rs1 then {unat (GetInstructionSource inst 0 s)} else {})
     \<union> (if is_rs2 then {unat (GetInstructionSource inst 1 s)} else {}))"
proof -
  let ?e = "32 div sizeof TYPE('t)"
  have e: "unat (if sm then of_nat ?e * 4 else of_nat ?e :: u32) = strip_num_ops sm * ?e"
    using lane_type_sizes(2) [OF assms(1)] by (auto simp: strip_num_ops_def)
  have m: "unat (min a b) = min (unat a) (unat b)" for a b :: u32 by (simp add: min_def word_le_nat_alt)
  have n: "vector_size_in_bytes s = 32" using assms(2) by (simp add: vector_size_in_bytes_def)
  show ?thesis
    unfolding CoralNPUGetVl_def Let_def n
    by (cases is_rs1; cases is_rs2) (simp_all add: m e min.commute min.left_commute del: of_nat_mult)
qed

text \<open>Moving a register group into the accumulators and reading them back returns the group,
  or its transpose, and leaves the accumulators cleared.\<close>

theorem VcGet_after_AcSet:
  fixes s :: "'m machine"
  assumes "machine_ok s" "acc_ok (npu s)" "sources i ! 0 = VectorReg b" "fresh_ok g"
  shows "CoralNPUVcGet g (CoralNPUAcSet is_transpose i s) = s\<lparr>npu := (npu s)\<lparr>acc_register := replicate 8 (replicate 8 0)\<rparr>,
    vreg := group_write (vd g) 8 (\<lambda>k. if is_transpose then group_elem b (vreg s) (k mod 8 * 8 + k div 8)
      else group_elem b (vreg s) k :: u32) (vreg s)\<rparr>"
proof -
  let ?f = "\<lambda>i j. if is_transpose then lanes (vreg s (b + j)) ! i else lanes (vreg s (b + i)) ! j :: u32"
  have z: "square (\<lambda>i j. 0) = replicate 8 (replicate 8 0)" by (simp add: square_def map_replicate_trivial)
  have ok: "machine_ok (s\<lparr>npu := (npu s)\<lparr>acc_register := square ?f\<rparr>\<rparr>)" "acc_ok ((npu s)\<lparr>acc_register := square ?f\<rparr>)"
    using assms(1) by (simp_all add: machine_ok_def acc_ok_def)
  have "group_write (vd g) 8 (\<lambda>k. square ?f ! (k div 8) ! (k mod 8)) (vreg s)
      = group_write (vd g) 8 (\<lambda>k. if is_transpose then group_elem b (vreg s) (k mod 8 * 8 + k div 8) else group_elem b (vreg s) k :: u32) (vreg s)"
  proof (rule group_write_cong)
    fix k :: nat assume "k < 8 * (32 div sizeof TYPE(32))"
    then have k: "k div 8 < 8" "k mod 8 < 8" by (simp_all add: sizeof_def)
    then show "square ?f ! (k div 8) ! (k mod 8) = (if is_transpose then group_elem b (vreg s) (k mod 8 * 8 + k div 8) else group_elem b (vreg s) k :: u32)"
      using div_mod_block [OF k(1), of "k mod 8"] by (simp add: group_elem_def sizeof_def)
  qed
  then show ?thesis
    using vcget_acc [OF ok(1) _ assms(4)] ok(2) by (simp add: acset_acc [OF assms(1-3)] z)
qed

text \<open>Property C3. The strip-mined loop of \<open>getvl\<close>, load and store terminates within as many rounds as
  there are elements and copies an array of any length and element type between disjoint places in
  memory, changing no other byte.\<close>

theorem strip_copy_correct:
  fixes T :: "'t::len itself" and s :: "renode_memory machine"
  assumes "lane_type TYPE('t)" "machine_ok s" "renode_ok (mem s)" "unat (xreg s 12) \<le> fuel"
    and "len = unat (xreg s 12) * sizeof TYPE('t)" "src = unat (xreg s 10)" "dst = unat (xreg s 11)"
    and "src + len < 2 ^ 31" "dst + len < 2 ^ 31" "mem_range (mem s) src len" "mem_range (mem s) dst len"
    and "src + len \<le> dst \<or> dst + len \<le> src"
  shows "\<exists>s'. strip_copy T renode_if fuel s = Some s' \<and> xreg s' 12 = 0
    \<and> flat (mem s') = write_range dst (map (flat (mem s)) [src..<src + len]) (flat (mem s))"
proof -
  have r: "mem_range (mem s) (a + k * sizeof TYPE('t)) (sizeof TYPE('t))"
    if "mem_range (mem s) a len" "k < unat (xreg s 12)" for a k
  proof -
    have "(k + 1) * sizeof TYPE('t) \<le> len" unfolding assms(5) using that(2) by (intro mult_le_mono1) simp
    then show ?thesis using that(1) by (simp add: mem_range_def)
  qed
  show ?thesis
    using renode.strip_copy_copies [OF assms(1-3) refl assms(4), of T, folded assms(5-7), OF assms(8,9) r [OF assms(10)] r [OF assms(11)] assms(12)] .
qed

subsection \<open>Concrete machines\<close>

definition sample_machine :: "renode_memory machine" where
  "sample_machine = \<lparr>npu = CoralNPUState_init kCoralnpuMaxMemoryAddress (replicate 32 0),
     xreg = (\<lambda>_. 0)(5 := 3, 10 := 0x1000, 11 := 0xFFFFD, 12 := 200), vreg = (\<lambda>r. map of_nat [r..<r + 32]), mem = sample_memory\<rparr>"

lemma sample_machine_ok: "machine_ok sample_machine" "renode_ok (mem sample_machine)" "acc_ok (npu sample_machine)"
  using renode_sample_ok(1) by (simp_all add: sample_machine_def machine_ok_def acc_ok_def CoralNPUState_init_def kVectorLengthInBits_def)

lemma sample_machine_regs: "xreg sample_machine 5 = 3" "xreg sample_machine 10 = 0x1000" "xreg sample_machine 11 = 0xFFFFD"
    "xreg sample_machine 12 = 200" "mem sample_machine = sample_memory"
  by (simp_all add: sample_machine_def)

text \<open>Three 16-bit elements at \<open>0xFFFFD\<close> straddle two memory blocks.\<close>

lemma sample_addr: "k < 3 \<Longrightarrow> unat (element_addr TYPE(16) 16 16 0xFFFFD k) = 0xFFFFD + k * 2"
  using element_addr_contiguous [where T = "TYPE(16)" and addr = "0xFFFFD" and k = k and w = 16] by (simp add: sizeof_def)

lemma sizeof16: "sizeof TYPE(16) = 2"
  by (simp add: sizeof_def)

lemma sample_access:
  "3 = access_count TYPE(16) True False 3"
  "element_addr TYPE(16) 16 16 0xFFFFD = element_addr TYPE(16) (32 div sizeof TYPE(16)) (access_stride TYPE(16) False 3) (mask_address s 0xFFFFD)"
  "k < 3 \<Longrightarrow> mem_range sample_memory (unat (element_addr TYPE(16) 16 16 0xFFFFD k)) (sizeof TYPE(16))"
  "separate (map (element_addr TYPE(16) 16 16 0xFFFFD) [0..<3]) (sizeof TYPE(16))"
proof -
  show "3 = access_count TYPE(16) True False 3" by (simp add: access_count_def strip_num_ops_def sizeof_def)
  show "element_addr TYPE(16) 16 16 0xFFFFD = element_addr TYPE(16) (32 div sizeof TYPE(16)) (access_stride TYPE(16) False 3) (mask_address s 0xFFFFD)"
    by (simp add: access_stride_def sizeof_def mask_address_low)
  show "k < 3 \<Longrightarrow> mem_range sample_memory (unat (element_addr TYPE(16) 16 16 0xFFFFD k)) (sizeof TYPE(16))"
    by (simp add: sample_addr sizeof_def) (rule sample_range, simp)
  show "separate (map (element_addr TYPE(16) 16 16 0xFFFFD) [0..<3]) (sizeof TYPE(16))"
    by (auto simp: separate_def sample_addr sizeof_def less_Suc_eq numeral_3_eq_3)
qed

definition ld16 :: vm_inst where
  "ld16 = \<lparr>sources = [ScalarReg 11, ScalarReg 5], destination = None, vd = 8, fresh = \<lambda>_. replicate 32 0xEE\<rparr>"

definition st16 :: vm_inst where
  "st16 = \<lparr>sources = [VectorReg 1, ScalarReg 11, ScalarReg 5], destination = None, vd = 0, fresh = \<lambda>_. replicate 32 0xEE\<rparr>"

lemma sample_insts: "fresh_ok ld16" "sources st16 ! 0 = VectorReg 1"
  "GetInstructionSource ld16 0 sample_machine = 0xFFFFD" "GetInstructionSource ld16 1 sample_machine = 3"
  "GetInstructionSource st16 1 sample_machine = 0xFFFFD" "GetInstructionSource st16 2 sample_machine = 3"
  by (simp_all add: ld16_def st16_def fresh_ok_def GetInstructionSource_def sample_machine_regs)


lemma VSt_stores_witness:
  "\<exists>s'. VectorStoreHelper TYPE(16) renode_if True False False False st16 sample_machine = Some s' \<and> vreg s' = vreg sample_machine
    \<and> npu s' = npu sample_machine
    \<and> lanes (gather (map (element_addr TYPE(16) 16 16 0xFFFFD) [0..<3]) 2 (flat (mem s')))
        = map (\<lambda>k. group_elem 1 (vreg sample_machine) k :: u16) [0..<3]
    \<and> agree_on (untouched (element_addr TYPE(16) 16 16 0xFFFFD) 3 2) (flat (mem s')) (flat sample_memory) \<and> renode_ok (mem s')"
  using VSt_stores [where T = "TYPE(16)" and s = sample_machine and inst = st16 and hl = True and sm = False and hs = False and is_quad = False
      and n = 3 and A = "element_addr TYPE(16) 16 16 0xFFFFD", OF _ sample_machine_ok(1,2) sample_insts(2),
      unfolded sample_insts sample_machine_regs row_width_def if_False, OF _ sample_access]
  unfolding sizeof16 by simp

lemma VLd_after_VSt_witness:
  "\<exists>s1 s2. CoralNPUVSt TYPE(16) renode_if True False False st16 sample_machine = Some s1 \<and> vld TYPE(16) renode_if True False False ld16 s1 = Some s2
    \<and> vreg s2 = group_write 8 1 (\<lambda>k. if k < 3 then group_elem 1 (vreg sample_machine) k else 0 :: u16) (vreg sample_machine)"
  using VLd_after_VSt [where T = "TYPE(16)" and s = sample_machine and st = st16 and ld = ld16 and hl = True and sm = False and hs = False
      and n = 3 and A = "element_addr TYPE(16) 16 16 0xFFFFD" and b = 1 and ra = 11 and rx = 5 and a = "ScalarReg 11" and x = "ScalarReg 5",
      OF _ sample_machine_ok(1) sample_insts(1) sample_machine_ok(2),
      unfolded sample_insts sample_machine_regs, OF _ _ _ _ _ refl refl sample_access]
  by (simp add: ld16_def st16_def strip_num_ops_def)

lemma GetVl_minimum_witness:
  "unat (xreg (CoralNPUGetVl TYPE(32) True True False 7 \<lparr>sources = [ScalarReg 12], destination = Some 7, vd = 0, fresh = \<lambda>_. []\<rparr> sample_machine) 7) = 32"
  by (subst GetVl_minimum) (use sample_machine_ok(1) in \<open>simp_all add: machine_ok_def GetInstructionSource_def sample_machine_regs strip_num_ops_def sizeof_def\<close>)

lemma VcGet_after_AcSet_witness:
  "vreg (CoralNPUVcGet ld16 (CoralNPUAcSet True st16 sample_machine)) 9
     = unlanes (map (\<lambda>e. group_elem 1 (vreg sample_machine) (e * 8 + 1) :: u32) [0..<8])"
  unfolding VcGet_after_AcSet [OF sample_machine_ok(1,3) sample_insts(2,1)]
proof -
  show "vreg (sample_machine\<lparr>npu := (npu sample_machine)\<lparr>acc_register := replicate 8 (replicate 8 0)\<rparr>,
      vreg := group_write (vd ld16) 8 (\<lambda>k. if True then group_elem 1 (vreg sample_machine) (k mod 8 * 8 + k div 8)
        else group_elem 1 (vreg sample_machine) k :: u32) (vreg sample_machine)\<rparr>) 9
    = unlanes (map (\<lambda>e. group_elem 1 (vreg sample_machine) (e * 8 + 1) :: u32) [0..<8])"
    by (simp add: group_write_def ld16_def sizeof_def upt_conv_Cons del: upt_Suc)
qed

lemma strip_copy_correct_witness:
  "\<exists>s'. strip_copy TYPE(32) renode_if 200 sample_machine = Some s' \<and> xreg s' 12 = 0
    \<and> flat (mem s') = write_range 0xFFFFD (map (flat sample_memory) [0x1000..<0x1320]) (flat sample_memory)"
  using strip_copy_correct [where T = "TYPE(32)" and s = sample_machine and len = 800 and src = "0x1000" and dst = "0xFFFFD" and fuel = 200,
      OF _ sample_machine_ok(1,2)] sample_range [of "0x1000" 800] sample_range [of "0xFFFFD" 800]
  by (simp add: sample_machine_regs sizeof_def)

end
