(* ===== verification/NPU_ConvolutionClaims.thy ===== *)
theory NPU_ConvolutionClaims
  imports NPU_ConvolutionProps NPU_VectorMemoryClaims
begin

text \<open>
  The properties of the convolution instructions: the matrix product in its interleaved layout, the
  depthwise product over windows of the selected registers, and the commands that are refused.
\<close>

text \<open>Property C14. For an accepted command \<open>CoralNPUVConv\<close> adds to every accumulator cell the dot product
  of a row of the narrow matrix with a word of each wide register, over all steps, with the signs and
  nine-bit biases of the command; the cell of row \<open>i\<close> and word \<open>wd\<close> is the double-widened, interleaved
  one.\<close>

theorem VConv_multiplies:
  fixes s :: "'m machine"
  assumes "machine_ok s" "acc_ok (npu s)" "sources inst ! 0 = VectorReg b1" "sources inst ! 2 = VectorReg b3"
    and "cmd = vconv_cmd (GetInstructionSource inst 1 s)" "vc_mode cmd = 0" "vc_start cmd \<le> vc_stop cmd" "vc_stop cmd < 8"
    and "i < 8" "wd < 8"
  shows "acc_register (npu (CoralNPUVConv inst address s)) ! (i div 4 * 4 + kInterleave (wd mod 4)) ! (i mod 4 * 2 + wd div 4)
    = acc_register (npu s) ! (i div 4 * 4 + kInterleave (wd mod 4)) ! (i mod 4 * 2 + wd div 4)
      + word_of_int (\<Sum>k = unat (vc_start cmd)..<Suc (unat (vc_stop cmd)). \<Sum>t = 0..<4.
          (lane_int (vc_sdata1 cmd) (vreg s (b1 + i) ! (4 * k + t)) + c_wrap True 9 (uint (vc_sbias1 cmd)))
          * (lane_int (vc_sdata2 cmd) (vreg s (b3 + (k - unat (vc_start cmd))) ! (4 * wd + t)) + c_wrap True 9 (uint (vc_sbias2 cmd))))"
proof -
  let ?wid = "\<lambda>k. vreg s (b3 + (k - unat (vc_start cmd)))" and ?nar = "\<lambda>i. vreg s (b1 + i)"
  have l: "\<And>k. length (?wid k) = 32" using assms(1) by (simp add: machine_ok_def)
  have sq: "acc_square (acc_register (npu s))" using assms(2) by (simp add: acc_square_def acc_ok_def)
  have sp: "source_span inst 0 r s = ?nar r" "source_span inst 2 r s = vreg s (b3 + r)" for r
    using assms(3,4) by (simp_all add: source_span_def)
  have bias: "signed_bias (vc_sbias1 cmd) = c_wrap True 9 (uint (vc_sbias1 cmd))" "signed_bias (vc_sbias2 cmd) = c_wrap True 9 (uint (vc_sbias2 cmd))"
    by (simp_all add: assms(5) vconv_cmd_def signed_bias_field)
  have lt: "\<not> vc_start cmd > vc_stop cmd" "\<not> (vc_start cmd \<ge> 8 \<or> vc_stop cmd \<ge> 8)" using assms(7,8) by auto
  have "acc_register (npu (CoralNPUVConv inst address s)) =
      fold (\<lambda>k acc. fold (\<lambda>i acc. fold (\<lambda>j. vconv_step cmd ?nar (?wid k) k i j) [0..<32] acc) [0..<8] acc)
        [unat (vc_start cmd)..<Suc (unat (vc_stop cmd))] (acc_register (npu s))"
    unfolding CoralNPUVConv_def Let_def assms(5) [symmetric] kVectorLenInWord_def sp l
    using assms(6) lt by (simp del: upt_Suc)
  then show ?thesis
    using vconv_loops [OF sq assms(9,10), of ?wid cmd ?nar "unat (vc_start cmd)" "Suc (unat (vc_stop cmd))", OF l]
    by (simp add: vconv_product_def bias del: upt_Suc sum.op_ivl_Suc)
qed


text \<open>\<open>CoralNPUVDwconv\<close> adds to every depthwise accumulator word the products of three windows
  of the selected activation registers with the three weight registers: the windows are the registers
  themselves (sparsity 0), the middle one and its neighbours (1) or the first one moved by up to two
  words (2). Byte \<open>i\<close> goes to word \<open>i div 4\<close> of the register that interleaves \<open>i mod 4\<close>.\<close>

theorem VDwconv_accumulates:
  fixes s :: "'m machine"
  assumes "machine_ok s" "length (depthwise_acc_register (npu s)) = 32" "sources inst ! 0 = VectorReg b1" "sources inst ! 2 = VectorReg b3"
    and "cmd = vdwconv_cmd (GetInstructionSource inst 1 s)" "dw_sparsity cmd \<le> 2" "fresh_ok inst" "i < 32"
    and "row = vs1_idx (unat (dw_regbase cmd))"
    and "S = vreg s (b1 + row ! 0) @ vreg s (b1 + row ! 1) @ vreg s (b1 + row ! 2)"
  shows "depthwise_acc_register (npu (CoralNPUVDwconv write_acc inst address garbage s)) ! (8 * kInterleave (i mod 4) + i div 4)
    = depthwise_acc_register (npu s) ! (8 * kInterleave (i mod 4) + i div 4)
      + word_of_int (\<Sum>r = 0..<3. (lane_int (dw_sdata1 cmd) (S ! (4 * window_start (dw_sparsity cmd) r + i)) + dw_sbias1 cmd)
          * (lane_int (dw_sdata2 cmd) (vreg s (b3 + r) ! i) + dw_sbias2 cmd))"
proof -
  let ?w = "\<lambda>r. lanes (vreg s (b1 + row ! r)) :: u32 list" and ?sp = "dw_sparsity cmd"
  let ?a = "a_data ?sp garbage (?w 0) (?w 1) (?w 2)"
  have l: "length (?w r) = 8" for r using assms(1) by (simp add: machine_ok_def sizeof_def)
  have u: "unlanes (?w r) = vreg s (b1 + row ! r)" for r using assms(1) by (intro unlanes_lanes) (simp_all add: machine_ok_def sizeof_def)
  have S: "S = unlanes (?w 0 @ ?w 1 @ ?w 2)" by (simp add: assms(10) unlanes_append u)
  have ns: "\<not> ?sp > 2" using assms(6) by auto
  have sp: "source_span inst 0 r s = lanes (vreg s (b1 + r))" "source_span inst 2 r s = vreg s (b3 + r)" for r
    using assms(3,4) by (simp_all add: source_span_def)
  have win: "unlanes (take 8 (drop (r * 8) ?a)) ! i = S ! (4 * window_start ?sp r + i)" if "r < 3" for r
  proof -
    have w: "window_start ?sp r \<le> 16" using that by (auto simp: window_start_def)
    have "unlanes (take 8 (drop (r * 8) ?a)) ! i = unlanes (drop (window_start ?sp r) (?w 0 @ ?w 1 @ ?w 2)) ! i"
      unfolding a_data_window [OF l l l assms(6) that] using assms(8) w l by (intro unlanes_take_nth) (simp_all add: sizeof_def)
    also have "\<dots> = S ! (4 * window_start ?sp r + i)"
      unfolding S using w l by (subst nth_unlanes_drop) (simp_all add: sizeof_def mult.commute)
    finally show ?thesis .
  qed
  have keep: "depthwise_acc_register (npu (fold (\<lambda>i s. submit inst i (g i) s) xs t)) = depthwise_acc_register (npu t)"
    for g :: "nat \<Rightarrow> u32 list" and xs and t :: "'m machine"
    by (induction xs arbitrary: t) (simp_all add: submit_def)
  have "depthwise_acc_register (npu (CoralNPUVDwconv write_acc inst address garbage s))
      = vdwconv_products cmd ?a (\<lambda>r. vreg s (b3 + r)) (depthwise_acc_register (npu s))"
    unfolding CoralNPUVDwconv_def Let_def assms(5) [symmetric] assms(9) [symmetric] using ns by (simp add: sp keep)
  then show ?thesis
    using vdwconv_products_cell [OF assms(2,8), of cmd ?a "\<lambda>r. vreg s (b3 + r)"] win
    by (simp add: vdwconv_product_def)
qed

subsection \<open>Concrete commands\<close>

text \<open>Steps 0 to 1, signed narrow data, bias 5 on the wide data.\<close>

definition conv_inst :: "u32 \<Rightarrow> vm_inst" where
  "conv_inst w = \<lparr>sources = [VectorReg 0, Literal w, VectorReg 9], destination = None, vd = 16, fresh = \<lambda>_. replicate 32 0\<rparr>"

lemma conv_inst_sources: "sources (conv_inst w) ! 0 = VectorReg 0" "sources (conv_inst w) ! 2 = VectorReg 9"
    "GetInstructionSource (conv_inst w) 1 s = w" "fresh_ok (conv_inst w)"
  by (simp_all add: conv_inst_def GetInstructionSource_def fresh_ok_def)

lemma VConv_multiplies_witness:
  "acc_register (npu (CoralNPUVConv (conv_inst 0x1600080) 0 sample_machine)) ! 4 ! 7
    = acc_register (npu sample_machine) ! 4 ! 7
      + word_of_int (\<Sum>k = 0..<Suc 1. \<Sum>t = 0..<4. (sint (vreg sample_machine (0 + 7) ! (4 * k + t)) + 0)
          * (uint (vreg sample_machine (9 + (k - 0)) ! (4 * 4 + t)) + 5))"
proof -
  have c: "vc_mode (vconv_cmd 0x1600080) = 0" "vc_start (vconv_cmd 0x1600080) = 0" "vc_stop (vconv_cmd 0x1600080) = 1"
    "vc_sdata1 (vconv_cmd 0x1600080) = True" "vc_sdata2 (vconv_cmd 0x1600080) = False"
    "c_wrap True 9 (uint (vc_sbias1 (vconv_cmd 0x1600080))) = 0" "c_wrap True 9 (uint (vc_sbias2 (vconv_cmd 0x1600080))) = 5"
    by (simp_all add: vconv_cmd_def bit_field_def c_wrap_def)
  have p: "7 div 4 * 4 + kInterleave (4 mod 4) = 4" "7 mod 4 * 2 + 4 div 4 = (7 :: nat)" "(1 :: u32) < 8" "(0 :: u32) \<le> 1"
    "unat (0 :: u32) = 0" "unat (1 :: u32) = 1" "(7 :: nat) < 8" "(4 :: nat) < 8"
    by (simp_all add: kInterleave_def)
  show ?thesis
    by (rule VConv_multiplies [where i = 7 and wd = 4 and address = 0, OF sample_machine_ok(1,3) conv_inst_sources(1,2) refl, of "0x1600080",
        unfolded conv_inst_sources c p lane_int_def if_True if_False]) simp_all
qed


lemma VDwconv_accumulates_witness:
  "depthwise_acc_register (npu (CoralNPUVDwconv True (conv_inst 0x24) 0 [] sample_machine)) ! 17
    = depthwise_acc_register (npu sample_machine) ! 17
      + word_of_int (\<Sum>r = 0..<3. (uint ((vreg sample_machine 2 @ vreg sample_machine 3 @ vreg sample_machine 4) ! (4 * (7 + r) + 5)) + 0)
          * (uint (vreg sample_machine (9 + r) ! 5) + 0))"
proof -
  have c: "dw_sparsity (vdwconv_cmd 0x24) = 1" "dw_regbase (vdwconv_cmd 0x24) = 2" "dw_sbias1 (vdwconv_cmd 0x24) = 0"
    "dw_sbias2 (vdwconv_cmd 0x24) = 0" "\<not> dw_sdata1 (vdwconv_cmd 0x24)" "\<not> dw_sdata2 (vdwconv_cmd 0x24)"
    by (simp_all add: vdwconv_cmd_def bit_field_def c_wrap_def)
  have l: "length (depthwise_acc_register (npu sample_machine)) = 32"
    by (simp add: sample_machine_def CoralNPUState_init_def)
  show ?thesis
    using VDwconv_accumulates [where i = 5 and address = 0 and garbage = "[]" and write_acc = True,
        OF sample_machine_ok(1) l conv_inst_sources(1,2) refl _ conv_inst_sources(4), of "0x24"]
    by (simp add: conv_inst_sources [unfolded One_nat_def] c kInterleave_def lane_int_def window_start_def vs1_idx_def flip: numeral_2_eq_2)
qed

end
