(* ===== verification/NPU_V2State.thy ===== *)
theory NPU_V2State
  imports NPU_State
begin

text \<open>
  The memory protection of the second CoralNPU core: the regions and the permission query of
  \<open>sim/coralnpu_v2_state.{h,cc}\<close>, and the validators at the start of
  \<open>sim/coralnpu_v2_instructions.cc\<close>. MPACT's vector configuration (\<open>RiscVVectorState\<close>) is part of the
  state; operands are read through the fields of a \<open>v2_inst\<close>, one per C++ type.
\<close>

unbundle bit_operations_syntax

subsection \<open>State\<close>

definition kNone :: u8 where "kNone = 0"
definition kRead :: u8 where "kRead = 1"
definition kWrite :: u8 where "kWrite = 2"
definition kExecute :: u8 where "kExecute = 4"
definition kReadWrite :: u8 where "kReadWrite = kRead OR kWrite"
definition kReadExecute :: u8 where "kReadExecute = kRead OR kExecute"
definition kReadWriteExecute :: u8 where "kReadWriteExecute = kRead OR kWrite OR kExecute"

record CoralNPUV2MemoryRegion =
  start_address :: u32
  region_length :: u32
  permissions :: u8

record CoralNPUV2State =
  memory_regions :: "CoralNPUV2MemoryRegion list"
  v2_misa :: u64
  v2_traps :: "trap list"
  vstart :: int
  vl :: int
  vector_length_multiplier :: int
  selected_element_width :: int
  vector_register_byte_length :: int

definition v2_Trap :: "bool \<Rightarrow> u64 \<Rightarrow> u64 \<Rightarrow> u64 \<Rightarrow> CoralNPUV2State \<Rightarrow> CoralNPUV2State" where
  "v2_Trap interrupt value code pc s = s\<lparr>v2_traps := v2_traps s @
     [\<lparr>is_interrupt = interrupt, trap_value = value, exception_code = code, epc = pc\<rparr>]\<rparr>"

definition AddMemoryRegion :: "u32 \<Rightarrow> u32 \<Rightarrow> u8 \<Rightarrow> CoralNPUV2State \<Rightarrow> CoralNPUV2State" where
  "AddMemoryRegion start len perms s = s\<lparr>memory_regions := memory_regions s @
     [\<lparr>start_address = start, region_length = len, permissions = perms\<rparr>]\<rparr>"

definition ClearMemoryRegions :: "CoralNPUV2State \<Rightarrow> CoralNPUV2State" where
  "ClearMemoryRegions s = s\<lparr>memory_regions := []\<rparr>"

text \<open>The default configuration: code, data and external memory.\<close>

definition default_memory_regions :: "CoralNPUV2MemoryRegion list" where
  "default_memory_regions =
     [\<lparr>start_address = 0x0, region_length = 0x2000, permissions = kReadExecute\<rparr>,
      \<lparr>start_address = 0x10000, region_length = 0x8000, permissions = kReadWrite\<rparr>,
      \<lparr>start_address = 0x20000000, region_length = 0x400000, permissions = kReadWrite\<rparr>]"

definition StretchMisa32 :: "u32 \<Rightarrow> u64" where
  "StretchMisa32 value =
     (let value64 = ucast value :: u64 in push_bit 32 (value64 AND 0xc0000000) OR (value64 AND 0x03ffffff))"

definition CreateCoralNPUV2State ::
    "(u32 \<times> CoralNPUV2MemoryRegion list) option \<Rightarrow> CoralNPUV2State \<Rightarrow> CoralNPUV2State" where
  "CreateCoralNPUV2State config s =
     (case config of None \<Rightarrow> s
      | Some (initial_misa_value, regions) \<Rightarrow>
          fold (\<lambda>r. AddMemoryRegion (start_address r) (region_length r) (permissions r)) regions
            (s\<lparr>v2_misa := StretchMisa32 initial_misa_value\<rparr>))"

text \<open>The first region that contains the whole access decides.\<close>

fun region_permission :: "CoralNPUV2MemoryRegion list \<Rightarrow> u64 \<Rightarrow> u64 \<Rightarrow> u8 \<Rightarrow> bool" where
  "region_permission [] request_start request_end perms = False"
| "region_permission (region # regions) request_start request_end perms =
     (let region_start = ucast (start_address region) :: u64;
          region_end = ucast (start_address region) + ucast (region_length region) :: u64
      in if request_start \<ge> region_start \<and> request_end \<le> region_end
         then permissions region AND perms = perms
         else region_permission regions request_start request_end perms)"

definition HasPermission :: "u32 \<Rightarrow> u32 \<Rightarrow> u8 \<Rightarrow> CoralNPUV2State \<Rightarrow> bool" where
  "HasPermission address sz perms s =
     region_permission (memory_regions s) (ucast address) (ucast address + ucast sz) perms"

definition v2_MPause ::
    "(u64 option \<Rightarrow> 'e \<Rightarrow> bool \<times> 'e) list \<Rightarrow> u64 option \<Rightarrow> CoralNPUV2State \<times> 'e \<Rightarrow> CoralNPUV2State \<times> 'e" where
  "v2_MPause on_mpause inst = (\<lambda>(s, e).
     let (res, e) = mpause_handlers on_mpause inst e
     in if res then (s, e)
        else (v2_Trap False 0 3 (case inst of None \<Rightarrow> 0 | Some address \<Rightarrow> address) s, e))"

subsection \<open>Instructions\<close>

record v2_inst =
  inst_address :: u64
  inst_size :: u32
  source_u32 :: "nat \<Rightarrow> u32"
  source_i32 :: "nat \<Rightarrow> int"
  source_u64 :: "nat \<Rightarrow> u64"
  source_i64 :: "nat \<Rightarrow> int"
  source_register :: "nat \<Rightarrow> nat \<Rightarrow> u8 list"

text \<open>The load and store access faults and the instruction access fault.\<close>

definition kInstructionAccessFault :: u64 where "kInstructionAccessFault = 1"
definition kLoadAccessFault :: u64 where "kLoadAccessFault = 5"
definition kStoreAccessFault :: u64 where "kStoreAccessFault = 7"

text \<open>\<open>n\<close> is \<open>sizeof(ValueType)\<close>. \<open>fp\<close> selects the template instance for \<open>RVFpRegister\<close>, whose 64-bit
  \<open>ValueType\<close> makes the address a 64-bit sum; the permission query takes its low 32 bits.\<close>

definition AccessCheck :: "bool \<Rightarrow> u32 \<Rightarrow> u64 \<Rightarrow> v2_inst \<Rightarrow> CoralNPUV2State \<Rightarrow> bool \<times> CoralNPUV2State" where
  "AccessCheck fp n fault_exception_code inst s =
     (let address = (if fp then source_u64 inst 0 + source_u64 inst 1
                     else ucast (source_u32 inst 0 + word_of_int (source_i32 inst 1)));
          permission = (if fault_exception_code = kLoadAccessFault then kRead else kWrite)
      in if \<not> HasPermission (ucast address) n permission s
         then (False, v2_Trap False address fault_exception_code (inst_address inst) s)
         else (True, s))"

definition IsJumpAllowed :: "u64 \<Rightarrow> u64 \<Rightarrow> CoralNPUV2State \<Rightarrow> bool \<times> CoralNPUV2State" where
  "IsJumpAllowed address fault_exception_code s =
     (if \<not> HasPermission (ucast address) 4 kExecute s
      then (False, v2_Trap False address fault_exception_code address s) else (True, s))"

definition CheckVectorMask :: "u8 list \<Rightarrow> int \<Rightarrow> bool" where
  "CheckVectorMask src_masks i = (drop_bit (nat (i mod 8)) (src_masks ! nat (i div 8)) AND 1 \<noteq> 0)"

text \<open>A negative source index means that there is no mask.\<close>

definition GetMaskData :: "v2_inst \<Rightarrow> int \<Rightarrow> u8 list option" where
  "GetMaskData inst source_index =
     (if source_index < 0 then None else Some (source_register inst (nat source_index) 0))"

definition CheckVectorAccess ::
    "v2_inst \<Rightarrow> u32 \<Rightarrow> int \<Rightarrow> u8 \<Rightarrow> CoralNPUV2State \<Rightarrow> bool \<times> CoralNPUV2State" where
  "CheckVectorAccess inst address sz permission s =
     (if \<not> HasPermission address (word_of_int sz) permission s
      then (False, v2_Trap False (ucast address)
              (if permission = kRead then kLoadAccessFault else kStoreAccessFault) (inst_address inst) s)
      else (True, s))"

definition HasRangePermission :: "u32 \<Rightarrow> int \<Rightarrow> int \<Rightarrow> int \<Rightarrow> u8 \<Rightarrow> CoralNPUV2State \<Rightarrow> bool" where
  "HasRangePermission base stride element_count element_size permission s =
     (if element_count \<le> 0 then True
      else
        let span = (element_count - 1) * stride in
        if span < - 4294967295 \<or> span > 4294967295 then False
        else
          let start_addr = base; end_addr = word_of_int (uint base + span) :: u32 in
          if span > 0 \<and> end_addr < start_addr \<or> span < 0 \<and> start_addr < end_addr then False
          else
            let min_addr = (if span \<ge> 0 then start_addr else end_addr);
                max_addr = (if span \<ge> 0 then end_addr else start_addr);
                range_end = uint max_addr + element_size
            in if range_end > 0x100000000 then False
               else HasPermission min_addr (word_of_int (range_end - uint min_addr)) permission s)"

subsection \<open>Element loops\<close>

text \<open>The loop over the elements; \<open>validator\<close> may trap.\<close>

fun validate_loop ::
    "u8 list option \<Rightarrow> (CoralNPUV2State \<Rightarrow> int \<Rightarrow> bool \<times> CoralNPUV2State) \<Rightarrow> int list \<Rightarrow> CoralNPUV2State \<Rightarrow> bool \<times> CoralNPUV2State" where
  "validate_loop src_masks validator [] s = (True, s)"
| "validate_loop src_masks validator (i # is) s =
     (if (case src_masks of None \<Rightarrow> False | Some m \<Rightarrow> \<not> CheckVectorMask m i)
      then validate_loop src_masks validator is s
      else let (ok, s) = validator s i in if \<not> ok then (False, s) else validate_loop src_masks validator is s)"

definition ValidateVectorAccess ::
    "v2_inst \<Rightarrow> int \<Rightarrow> int \<Rightarrow> bool \<Rightarrow> (CoralNPUV2State \<Rightarrow> int \<Rightarrow> bool \<times> CoralNPUV2State) \<Rightarrow> CoralNPUV2State \<Rightarrow> bool \<times> CoralNPUV2State" where
  "ValidateVectorAccess inst mask_source_index element_count ignore_vstart validator s =
     (let start = (if ignore_vstart then 0 else vstart s)
      in validate_loop (GetMaskData inst mask_source_index) validator [start..element_count - 1] s)"

definition ValidateStridedVectorAccess ::
    "v2_inst \<Rightarrow> int \<Rightarrow> int \<Rightarrow> bool \<Rightarrow> u32 \<Rightarrow> int \<Rightarrow> int \<Rightarrow> u8
     \<Rightarrow> (CoralNPUV2State \<Rightarrow> int \<Rightarrow> bool \<times> CoralNPUV2State) \<Rightarrow> CoralNPUV2State \<Rightarrow> bool \<times> CoralNPUV2State" where
  "ValidateStridedVectorAccess inst mask_source_index element_count ignore_vstart base stride element_size
       permission validator s =
     (let start = (if ignore_vstart then 0 else vstart s)
      in if start < element_count
           \<and> HasRangePermission (word_of_int (uint base + start * stride)) stride (element_count - start)
               element_size permission s
         then (True, s)
         else ValidateVectorAccess inst mask_source_index element_count ignore_vstart validator s)"

text \<open>\<open>index_op\<close> gives the bytes of each register of the index operand.\<close>

definition GetIndexValue :: "(nat \<Rightarrow> u8 list) \<Rightarrow> int \<Rightarrow> int \<Rightarrow> int \<Rightarrow> u64" where
  "GetIndexValue index_op i index_bytes indices_per_reg =
     (let reg_idx = i div indices_per_reg; elem_idx = i mod indices_per_reg;
          byte_offset = elem_idx * index_bytes;
          index_span = index_op (nat reg_idx)
      in fold (\<lambda>b index_val. index_val OR push_bit (8 * b) (ucast (index_span ! (nat byte_offset + b))))
           [0..<nat index_bytes] 0)"

definition ValidateIndexedVectorAccess ::
    "v2_inst \<Rightarrow> int \<Rightarrow> int \<Rightarrow> bool \<Rightarrow> (nat \<Rightarrow> u8 list) \<Rightarrow> int \<Rightarrow> int
     \<Rightarrow> (CoralNPUV2State \<Rightarrow> int \<Rightarrow> u32 \<Rightarrow> bool \<times> CoralNPUV2State) \<Rightarrow> CoralNPUV2State \<Rightarrow> bool \<times> CoralNPUV2State" where
  "ValidateIndexedVectorAccess inst mask_source_index element_count ignore_vstart index_op index_width
       indices_per_reg validator s =
     ValidateVectorAccess inst mask_source_index element_count ignore_vstart
       (\<lambda>s i. validator s i (ucast (GetIndexValue index_op i index_width indices_per_reg))) s"

text \<open>The loop over the fields of a segment.\<close>

fun check_fields ::
    "v2_inst \<Rightarrow> u32 \<Rightarrow> int \<Rightarrow> u8 \<Rightarrow> int list \<Rightarrow> CoralNPUV2State \<Rightarrow> bool \<times> CoralNPUV2State" where
  "check_fields inst segment_address element_width permission [] s = (True, s)"
| "check_fields inst segment_address element_width permission (fld # rest) s =
     (let (ok, s) = CheckVectorAccess inst (segment_address + word_of_int (fld * element_width)) element_width permission s
      in if \<not> ok then (False, s)
         else check_fields inst segment_address element_width permission rest s)"

end
