(* ===== verification/NPU_V2Instructions.thy ===== *)
theory NPU_V2Instructions
  imports NPU_V2State
begin

text \<open>
  The instruction handlers of \<open>sim/coralnpu_v2_instructions.cc\<close>. Each checks the permissions of what it
  is about to access and then calls the MPACT semantic function; the call it makes, if any, is part
  of its result.
\<close>

definition kMaxEmul :: int where
  "kMaxEmul = 64"

text \<open>The MPACT functions, with the arguments they are called with.\<close>

datatype mpact_call =
    RVLoad nat bool | RVStore nat | RiscVFSw | RiscVIJal | RiscVIJalr
  | VlStrided int | Vlm | VlRegister int int | VlIndexed int | VlSegment int | VlSegmentStrided int | VlSegmentIndexed int
  | VsStrided int | Vsm | VsRegister int | VsIndexed int | VsSegment int | VsSegmentStrided int | VsSegmentIndexed int

type_synonym v2_result = "CoralNPUV2State \<times> mpact_call option"

definition call_if :: "bool \<times> CoralNPUV2State \<Rightarrow> mpact_call \<Rightarrow> v2_result" where
  "call_if r call = (snd r, if fst r then Some call else None)"

definition CoralNPUV2Mpause ::
    "(u64 option \<Rightarrow> 'e \<Rightarrow> bool \<times> 'e) list \<Rightarrow> v2_inst \<Rightarrow> CoralNPUV2State \<times> 'e \<Rightarrow> CoralNPUV2State \<times> 'e" where
  "CoralNPUV2Mpause on_mpause inst = v2_MPause on_mpause (Some (inst_address inst))"

subsection \<open>Scalar accesses and jumps\<close>

definition CoralNPUV2Lw :: "v2_inst \<Rightarrow> CoralNPUV2State \<Rightarrow> v2_result" where
  "CoralNPUV2Lw inst s = call_if (AccessCheck False 4 kLoadAccessFault inst s) (RVLoad 4 True)"

definition CoralNPUV2Lh :: "v2_inst \<Rightarrow> CoralNPUV2State \<Rightarrow> v2_result" where
  "CoralNPUV2Lh inst s = call_if (AccessCheck False 2 kLoadAccessFault inst s) (RVLoad 2 True)"

definition CoralNPUV2Lhu :: "v2_inst \<Rightarrow> CoralNPUV2State \<Rightarrow> v2_result" where
  "CoralNPUV2Lhu inst s = call_if (AccessCheck False 2 kLoadAccessFault inst s) (RVLoad 2 False)"

definition CoralNPUV2Lb :: "v2_inst \<Rightarrow> CoralNPUV2State \<Rightarrow> v2_result" where
  "CoralNPUV2Lb inst s = call_if (AccessCheck False 1 kLoadAccessFault inst s) (RVLoad 1 True)"

definition CoralNPUV2Lbu :: "v2_inst \<Rightarrow> CoralNPUV2State \<Rightarrow> v2_result" where
  "CoralNPUV2Lbu inst s = call_if (AccessCheck False 1 kLoadAccessFault inst s) (RVLoad 1 False)"

definition CoralNPUV2Sw :: "v2_inst \<Rightarrow> CoralNPUV2State \<Rightarrow> v2_result" where
  "CoralNPUV2Sw inst s = call_if (AccessCheck False 4 kStoreAccessFault inst s) (RVStore 4)"

definition CoralNPUV2Sh :: "v2_inst \<Rightarrow> CoralNPUV2State \<Rightarrow> v2_result" where
  "CoralNPUV2Sh inst s = call_if (AccessCheck False 2 kStoreAccessFault inst s) (RVStore 2)"

definition CoralNPUV2Sb :: "v2_inst \<Rightarrow> CoralNPUV2State \<Rightarrow> v2_result" where
  "CoralNPUV2Sb inst s = call_if (AccessCheck False 1 kStoreAccessFault inst s) (RVStore 1)"

definition CoralNPUV2Fsw :: "v2_inst \<Rightarrow> CoralNPUV2State \<Rightarrow> v2_result" where
  "CoralNPUV2Fsw inst s = call_if (AccessCheck True 8 kStoreAccessFault inst s) RiscVFSw"

definition CoralNPUV2Jal :: "v2_inst \<Rightarrow> CoralNPUV2State \<Rightarrow> v2_result" where
  "CoralNPUV2Jal inst s =
     (let address = ucast (inst_address inst + word_of_int (source_i32 inst 0)) :: u32
      in call_if (IsJumpAllowed (ucast address) kInstructionAccessFault s) RiscVIJal)"

text \<open>A refused \<open>jalr\<close> still writes the return address, the third component.\<close>

definition CoralNPUV2Jalr :: "v2_inst \<Rightarrow> CoralNPUV2State \<Rightarrow> v2_result \<times> u32 option" where
  "CoralNPUV2Jalr inst s =
     (let address = source_u32 inst 0 + word_of_int (source_i32 inst 1);
          (allowed, s) = IsJumpAllowed (ucast address) kInstructionAccessFault s
      in if allowed then ((s, Some RiscVIJalr), None)
         else ((s, None), Some (ucast (inst_address inst + ucast (inst_size inst)))))"

subsection \<open>Vector accesses\<close>

text \<open>\<open>b\<close> is the source index of the base address: 0 for loads, 1 for stores.\<close>

definition CoralNPUV2VlStrided :: "int \<Rightarrow> v2_inst \<Rightarrow> CoralNPUV2State \<Rightarrow> v2_result" where
  "CoralNPUV2VlStrided element_width inst s =
     (let base = source_u64 inst 0; stride = source_i64 inst 1;
          emul = element_width * vector_length_multiplier s div selected_element_width s
      in if emul > kMaxEmul \<or> emul = 0
         then (v2_Trap False 0 kIllegalInstruction (inst_address inst) s, None)
         else call_if (ValidateStridedVectorAccess inst 2 (vl s) False (ucast base) stride element_width kRead
             (\<lambda>s i. CheckVectorAccess inst (ucast (base + word_of_int (i * stride))) element_width kRead s) s)
           (VlStrided element_width))"

definition CoralNPUV2Vlm :: "v2_inst \<Rightarrow> CoralNPUV2State \<Rightarrow> v2_result" where
  "CoralNPUV2Vlm inst s =
     (let base = source_u64 inst 0; num_bytes = (vl s + 7) div 8
      in call_if (ValidateStridedVectorAccess inst (- 1) num_bytes True (ucast base) 1 1 kRead
           (\<lambda>s i. CheckVectorAccess inst (ucast (base + word_of_int i)) 1 kRead s) s) Vlm)"

definition CoralNPUV2VlRegister :: "int \<Rightarrow> int \<Rightarrow> v2_inst \<Rightarrow> CoralNPUV2State \<Rightarrow> v2_result" where
  "CoralNPUV2VlRegister num_regs element_width_bytes inst s =
     (let base = source_u64 inst 0;
          num_elements = vector_register_byte_length s * num_regs div element_width_bytes
      in call_if (ValidateStridedVectorAccess inst (- 1) num_elements True (ucast base) element_width_bytes element_width_bytes kRead
           (\<lambda>s i. CheckVectorAccess inst (ucast (base + word_of_int (i * element_width_bytes))) element_width_bytes kRead s) s)
         (VlRegister num_regs element_width_bytes))"

definition CoralNPUV2VlIndexed :: "int \<Rightarrow> v2_inst \<Rightarrow> CoralNPUV2State \<Rightarrow> v2_result" where
  "CoralNPUV2VlIndexed index_width inst s =
     (let base = source_u64 inst 0; sew_bytes = selected_element_width s;
          indices_per_reg = vector_register_byte_length s div index_width
      in call_if (ValidateIndexedVectorAccess inst 2 (vl s) False (source_register inst 1) index_width indices_per_reg
           (\<lambda>s i index_val. CheckVectorAccess inst (ucast (base + ucast index_val)) sew_bytes kRead s) s)
         (VlIndexed index_width))"

definition CoralNPUV2VlSegment :: "int \<Rightarrow> v2_inst \<Rightarrow> CoralNPUV2State \<Rightarrow> v2_result" where
  "CoralNPUV2VlSegment element_width inst s =
     (let base = source_u64 inst 0; num_fields = source_i32 inst 2 + 1;
          segment_byte_size = num_fields * element_width
      in call_if (ValidateStridedVectorAccess inst 1 (vl s) False (ucast base) segment_byte_size segment_byte_size kRead
           (\<lambda>s i. CheckVectorAccess inst (ucast (base + word_of_int (i * segment_byte_size))) segment_byte_size kRead s) s)
         (VlSegment element_width))"

definition CoralNPUV2VlSegmentStrided :: "int \<Rightarrow> v2_inst \<Rightarrow> CoralNPUV2State \<Rightarrow> v2_result" where
  "CoralNPUV2VlSegmentStrided element_width inst s =
     (let base = source_u64 inst 0; segment_stride = source_i64 inst 1;
          num_fields = source_i32 inst 3 + 1
      in call_if (ValidateStridedVectorAccess inst 2 (vl s) False (ucast base) segment_stride (num_fields * element_width) kRead
           (\<lambda>s i. check_fields inst (ucast (base + word_of_int (i * segment_stride))) element_width kRead [0..num_fields - 1] s) s)
         (VlSegmentStrided element_width))"

definition CoralNPUV2VlSegmentIndexed :: "int \<Rightarrow> v2_inst \<Rightarrow> CoralNPUV2State \<Rightarrow> v2_result" where
  "CoralNPUV2VlSegmentIndexed index_width inst s =
     (let base = source_u64 inst 0; num_fields = source_i32 inst 3 + 1;
          element_width = selected_element_width s;
          indices_per_reg = vector_register_byte_length s div index_width
      in call_if (ValidateIndexedVectorAccess inst 2 (vl s) False (source_register inst 1) index_width indices_per_reg
           (\<lambda>s i index_val. check_fields inst (ucast (base + ucast index_val)) element_width kRead [0..num_fields - 1] s) s)
         (VlSegmentIndexed index_width))"

definition CoralNPUV2VsStrided :: "int \<Rightarrow> v2_inst \<Rightarrow> CoralNPUV2State \<Rightarrow> v2_result" where
  "CoralNPUV2VsStrided element_width inst s =
     (let base = source_u64 inst 1; stride = source_i64 inst 2;
          emul = element_width * vector_length_multiplier s div selected_element_width s
      in if emul > kMaxEmul \<or> emul = 0
         then (v2_Trap False 0 kIllegalInstruction (inst_address inst) s, None)
         else call_if (ValidateStridedVectorAccess inst 3 (vl s) False (ucast base) stride element_width kWrite
             (\<lambda>s i. CheckVectorAccess inst (ucast (base + word_of_int (i * stride))) element_width kWrite s) s)
           (VsStrided element_width))"

definition CoralNPUV2Vsm :: "v2_inst \<Rightarrow> CoralNPUV2State \<Rightarrow> v2_result" where
  "CoralNPUV2Vsm inst s =
     (let base = source_u64 inst 1; num_bytes = (vl s + 7) div 8
      in call_if (ValidateStridedVectorAccess inst (- 1) num_bytes True (ucast base) 1 1 kWrite
           (\<lambda>s i. CheckVectorAccess inst (ucast (base + word_of_int i)) 1 kWrite s) s) Vsm)"

definition CoralNPUV2VsRegister :: "int \<Rightarrow> v2_inst \<Rightarrow> CoralNPUV2State \<Rightarrow> v2_result" where
  "CoralNPUV2VsRegister num_regs inst s =
     (let base = source_u64 inst 1;
          num_elements = vector_register_byte_length s * num_regs div 8
      in call_if (ValidateStridedVectorAccess inst (- 1) num_elements True (ucast base) 8 8 kWrite
           (\<lambda>s i. CheckVectorAccess inst (ucast (base + word_of_int (i * 8))) 8 kWrite s) s)
         (VsRegister num_regs))"

definition CoralNPUV2VsIndexed :: "int \<Rightarrow> v2_inst \<Rightarrow> CoralNPUV2State \<Rightarrow> v2_result" where
  "CoralNPUV2VsIndexed index_width inst s =
     (let base = source_u64 inst 1; sew_bytes = selected_element_width s;
          indices_per_reg = vector_register_byte_length s div index_width
      in call_if (ValidateIndexedVectorAccess inst 3 (vl s) False (source_register inst 2) index_width indices_per_reg
           (\<lambda>s i index_val. CheckVectorAccess inst (ucast (base + ucast index_val)) sew_bytes kWrite s) s)
         (VsIndexed index_width))"

definition CoralNPUV2VsSegment :: "int \<Rightarrow> v2_inst \<Rightarrow> CoralNPUV2State \<Rightarrow> v2_result" where
  "CoralNPUV2VsSegment element_width inst s =
     (let base = source_u64 inst 1; num_fields = source_i32 inst 3 + 1;
          segment_byte_size = num_fields * element_width
      in call_if (ValidateStridedVectorAccess inst 2 (vl s) False (ucast base) segment_byte_size segment_byte_size kWrite
           (\<lambda>s i. CheckVectorAccess inst (ucast (base + word_of_int (i * segment_byte_size))) segment_byte_size kWrite s) s)
         (VsSegment element_width))"

definition CoralNPUV2VsSegmentStrided :: "int \<Rightarrow> v2_inst \<Rightarrow> CoralNPUV2State \<Rightarrow> v2_result" where
  "CoralNPUV2VsSegmentStrided element_width inst s =
     (let base = source_u64 inst 1; segment_stride = source_i64 inst 2;
          num_fields = source_i32 inst 4 + 1
      in call_if (ValidateStridedVectorAccess inst 3 (vl s) False (ucast base) segment_stride (num_fields * element_width) kWrite
           (\<lambda>s i. check_fields inst (ucast (base + word_of_int (i * segment_stride))) element_width kWrite [0..num_fields - 1] s) s)
         (VsSegmentStrided element_width))"

text \<open>The segment store adds the full 64-bit index to the base.\<close>

definition CoralNPUV2VsSegmentIndexed :: "int \<Rightarrow> v2_inst \<Rightarrow> CoralNPUV2State \<Rightarrow> v2_result" where
  "CoralNPUV2VsSegmentIndexed index_width inst s =
     (let base = source_u64 inst 1; num_fields = source_i32 inst 4 + 1;
          element_width = selected_element_width s;
          indices_per_reg = vector_register_byte_length s div index_width
      in call_if (ValidateVectorAccess inst 3 (vl s) False
           (\<lambda>s i. check_fields inst (ucast (base + GetIndexValue (source_register inst 2) i index_width indices_per_reg))
              element_width kWrite [0..num_fields - 1] s) s)
         (VsSegmentIndexed index_width))"

end
