(* ===== verification/NPU_V2Props.thy ===== *)
theory NPU_V2Props
  imports NPU_V2Instructions
begin

text \<open>
  What the memory protection of the second core guarantees. Regions that do not overlap make the
  permission query a question about one region; the fast path of the strided accesses is shown to
  agree with the element loop, and every vector instruction to check exactly its own accesses.
\<close>

subsection \<open>Permissions\<close>

definition region_contains :: "CoralNPUV2MemoryRegion \<Rightarrow> int \<Rightarrow> int \<Rightarrow> bool" where
  "region_contains r a b \<longleftrightarrow> uint (start_address r) \<le> a \<and> b \<le> uint (start_address r) + uint (region_length r)"

definition regions_apart :: "CoralNPUV2MemoryRegion \<Rightarrow> CoralNPUV2MemoryRegion \<Rightarrow> bool" where
  "regions_apart r r' \<longleftrightarrow> uint (start_address r) + uint (region_length r) \<le> uint (start_address r')
     \<or> uint (start_address r') + uint (region_length r') \<le> uint (start_address r)"

fun regions_disjoint :: "CoralNPUV2MemoryRegion list \<Rightarrow> bool" where
  "regions_disjoint [] = True"
| "regions_disjoint (r # rs) = (list_all (regions_apart r) rs \<and> regions_disjoint rs)"

lemma uint_u64_sum: "uint (ucast (a :: u32) + ucast (b :: u32) :: u64) = uint a + uint b"
proof -
  have "uint a < 2 ^ 32" "uint b < 2 ^ 32" using unsigned_less [of a, where 'a = int] unsigned_less [of b, where 'a = int] by simp_all
  moreover have "uint (ucast a :: u64) = uint a" "uint (ucast b :: u64) = uint b"
    using calculation by (simp_all add: unsigned_ucast_eq take_bit_int_eq_self)
  ultimately show ?thesis by (simp add: uint_word_ariths(1))
qed

lemma uint_u64: "uint (ucast (a :: u32) :: u64) = uint a"
  using uint_u64_sum [of a 0] by simp

lemma region_permission_in:
  "regions_disjoint rs \<Longrightarrow> uint a < uint b \<Longrightarrow>
    region_permission rs a b p = (\<exists>r \<in> set rs. region_contains r (uint a) (uint b) \<and> permissions r AND p = p)"
proof (induction rs)
  case (Cons r rs)
  have c: "(a \<ge> ucast (start_address r) \<and> b \<le> ucast (start_address r) + ucast (region_length r)) = region_contains r (uint a) (uint b)"
    by (simp add: region_contains_def word_le_def uint_u64 uint_u64_sum)
  have "\<not> region_contains r' (uint a) (uint b)" if "region_contains r (uint a) (uint b)" "r' \<in> set rs" for r'
    using Cons.prems that by (auto simp: list_all_iff regions_apart_def region_contains_def)
  then show ?case using Cons by (auto simp: c Let_def)
qed simp

lemma HasPermission_in:
  assumes "regions_disjoint (memory_regions s)" "0 < uint sz"
  shows "HasPermission a sz p s = (\<exists>r \<in> set (memory_regions s). region_contains r (uint a) (uint a + uint sz) \<and> permissions r AND p = p)"
  unfolding HasPermission_def using assms by (subst region_permission_in) (simp_all add: uint_u64 uint_u64_sum)

lemma HasPermission_mono:
  assumes "regions_disjoint (memory_regions s)" "HasPermission a sz p s" "0 < uint sz'"
    and "uint a \<le> uint a'" "uint a' + uint sz' \<le> uint a + uint sz"
  shows "HasPermission a' sz' p s"
proof -
  have "0 < uint sz" using assms(3-5) by linarith
  then obtain r where "r \<in> set (memory_regions s)" "region_contains r (uint a) (uint a + uint sz)" "permissions r AND p = p"
    using assms(1,2) by (auto simp: HasPermission_in)
  then have "r \<in> set (memory_regions s)" "region_contains r (uint a') (uint a' + uint sz')" "permissions r AND p = p"
    using assms(4,5) by (auto simp: region_contains_def)
  then show ?thesis using assms(1,3) by (auto simp: HasPermission_in)
qed

lemma uint_of_int: "0 \<le> x \<Longrightarrow> x < 2 ^ 32 \<Longrightarrow> uint (word_of_int x :: u32) = x"
  by (simp add: uint_word_of_int)

lemma u32_range: "0 \<le> uint (a :: u32)" "uint (a :: u32) < 2 ^ 32"
  using unsigned_less [of a, where 'a = int] by simp_all

subsection \<open>The fast path\<close>

text \<open>The range a strided access spans is not the whole address space.\<close>

definition not_whole :: "int \<Rightarrow> int \<Rightarrow> int \<Rightarrow> bool" where
  "not_whole stride n sz \<longleftrightarrow> \<bar>(n - 1) * stride\<bar> + sz \<noteq> 2 ^ 32"

lemma offset_between:
  assumes "0 \<le> i" "i < (n :: int)"
  shows "0 \<le> (n - 1) * stride \<Longrightarrow> 0 \<le> i * stride \<and> i * stride \<le> (n - 1) * stride"
    and "(n - 1) * stride \<le> 0 \<Longrightarrow> (n - 1) * stride \<le> i * stride \<and> i * stride \<le> 0"
proof -
  have ge: "0 \<le> i * stride \<and> i * stride \<le> (n - 1) * stride" if "0 \<le> stride"
    using assms that by (auto intro: mult_right_mono)
  have le: "(n - 1) * stride \<le> i * stride \<and> i * stride \<le> 0" if "stride \<le> 0"
    using assms that by (auto intro: mult_right_mono_neg simp: mult_le_0_iff)
  consider "n = 1" "i = 0" | "0 < n - 1" using assms by linarith
  then have c: "(0 \<le> (n - 1) * stride \<longrightarrow> 0 \<le> stride \<or> i = 0 \<and> n = 1) \<and> ((n - 1) * stride \<le> 0 \<longrightarrow> stride \<le> 0 \<or> i = 0 \<and> n = 1)"
    by cases (auto simp: zero_le_mult_iff mult_le_0_iff)
  show "0 \<le> (n - 1) * stride \<Longrightarrow> 0 \<le> i * stride \<and> i * stride \<le> (n - 1) * stride" using c ge by auto
  show "(n - 1) * stride \<le> 0 \<Longrightarrow> (n - 1) * stride \<le> i * stride \<and> i * stride \<le> 0" using c le by auto
qed

lemma end_address:
  fixes base :: u32
  assumes "- (2 ^ 32) < span" "span < 2 ^ 32" "\<not> (0 < span \<and> word_of_int (uint base + span) < base)"
    "\<not> (span < 0 \<and> base < word_of_int (uint base + span))"
  shows "uint (word_of_int (uint base + span) :: u32) = uint base + span"
proof -
  let ?e = "uint (word_of_int (uint base + span) :: u32)"
  have m: "?e = (uint base + span) mod 2 ^ 32" by (rule trans [OF uint_word_of_int]) simp
  have b: "0 \<le> uint base" "uint base < 2 ^ 32" by (rule u32_range)+
  consider "0 \<le> uint base + span \<and> uint base + span < 2 ^ 32" | "2 ^ 32 \<le> uint base + span" | "uint base + span < 0" by linarith
  then show ?thesis
  proof cases
    case 1
    then show ?thesis unfolding m by (intro mod_pos_pos_trivial) auto
  next
    case 2
    then have "?e = uint base + span - 2 ^ 32" unfolding m using assms(2) b by (intro mod_int_over) linarith+
    moreover have "0 < span" using 2 b by linarith
    ultimately show ?thesis using assms(2,3) by (simp add: word_less_def)
  next
    case 3
    then have "?e = uint base + span + 2 ^ 32" unfolding m using assms(1) b by (intro mod_int_under) linarith+
    moreover have "span < 0" using 3 b by linarith
    ultimately show ?thesis using assms(1,4) by (simp add: word_less_def)
  qed
qed

lemma HasRangePermission_elements:
  assumes "regions_disjoint (memory_regions s)" "HasRangePermission base stride n sz p s" "not_whole stride n sz"
    and "0 < sz" "sz < 2 ^ 31" "0 \<le> i" "i < n"
  shows "HasPermission (word_of_int (uint base + i * stride)) (word_of_int sz) p s
    \<and> uint (word_of_int (uint base + i * stride) :: u32) + sz \<le> 2 ^ 32"
proof -
  define span where "span = (n - 1) * stride"
  define e where "e = (word_of_int (uint base + span) :: u32)"
  have r: "\<not> (span < - 4294967295 \<or> span > 4294967295)" "\<not> (0 < span \<and> e < base \<or> span < 0 \<and> base < e)"
    using assms(2,6,7) by (auto simp: HasRangePermission_def Let_def span_def e_def split: if_splits)
  have e: "uint e = uint base + span" unfolding e_def using r by (intro end_address) (auto simp: e_def)
  define lo hi where "lo = (if span \<ge> 0 then base else e)" and "hi = (if span \<ge> 0 then e else base)"
  have h: "\<not> uint hi + sz > 2 ^ 32" "HasPermission lo (word_of_int (uint hi + sz - uint lo)) p s"
    using assms(2,6,7) r unfolding HasRangePermission_def Let_def span_def [symmetric] e_def [symmetric] lo_def hi_def
    by (auto split: if_splits)
  have w: "uint hi - uint lo = \<bar>span\<bar>" using e by (auto simp: lo_def hi_def)
  then have "uint hi + sz - uint lo < 2 ^ 32"
    using h(1) assms(3) u32_range(1) [of lo] unfolding not_whole_def span_def [symmetric] by linarith
  then have len: "uint (word_of_int (uint hi + sz - uint lo) :: u32) = uint hi + sz - uint lo"
    using w assms(4) by (intro uint_of_int) auto
  have range: "uint lo \<le> uint base + i * stride" "uint base + i * stride \<le> uint hi"
    using offset_between [OF assms(6,7), of stride] e unfolding span_def [symmetric] lo_def hi_def
    by (cases "0 \<le> span"; simp)+
  have a: "uint (word_of_int (uint base + i * stride) :: u32) = uint base + i * stride"
    using range u32_range [of lo] u32_range [of hi] by (intro uint_of_int) linarith+
  have z: "uint (word_of_int sz :: u32) = sz" using assms(4,5) by (intro uint_of_int) auto
  show ?thesis
    using HasPermission_mono [OF assms(1) h(2), of "word_of_int sz" "word_of_int (uint base + i * stride)"] a z len range assms(4) h(1) by simp
qed

subsection \<open>Element loops as access lists\<close>

text \<open>The trap a refused access raises.\<close>

definition access_fault :: "v2_inst \<Rightarrow> u32 \<Rightarrow> u8 \<Rightarrow> CoralNPUV2State \<Rightarrow> CoralNPUV2State" where
  "access_fault inst a p s = v2_Trap False (ucast a) (if p = kRead then kLoadAccessFault else kStoreAccessFault) (inst_address inst) s"

text \<open>Checking a list of accesses: the first one without permission faults.\<close>

definition check_list :: "v2_inst \<Rightarrow> u8 \<Rightarrow> (u32 \<times> int) list \<Rightarrow> CoralNPUV2State \<Rightarrow> bool \<times> CoralNPUV2State" where
  "check_list inst p xs s = (case find (\<lambda>(a, n). \<not> HasPermission a (word_of_int n) p s) xs of
     None \<Rightarrow> (True, s) | Some (a, n) \<Rightarrow> (False, access_fault inst a p s))"

lemma check_list_Nil [simp]: "check_list inst p [] s = (True, s)"
  by (simp add: check_list_def)

lemma check_list_single: "CheckVectorAccess inst a n p s = check_list inst p [(a, n)] s"
  by (simp add: CheckVectorAccess_def check_list_def access_fault_def)

lemma find_append: "find P (xs @ ys) = (case find P xs of None \<Rightarrow> find P ys | Some x \<Rightarrow> Some x)"
  by (induction xs) auto

lemma check_list_append: "check_list inst p (xs @ ys) s = (let (ok, s') = check_list inst p xs s in if ok then check_list inst p ys s' else (False, s'))"
  by (auto simp: check_list_def find_append split: option.split prod.split)

lemma check_list_Cons: "check_list inst p ((a, n) # xs) s =
    (let (ok, s') = CheckVectorAccess inst a n p s in if ok then check_list inst p xs s' else (False, s'))"
  using check_list_append [of inst p "[(a, n)]" xs s] by (simp add: check_list_single)

definition segment_fields :: "u32 \<Rightarrow> int \<Rightarrow> int \<Rightarrow> (u32 \<times> int) list" where
  "segment_fields a w n = map (\<lambda>f. (a + word_of_int (f * w), w)) [0..n - 1]"

lemma check_fields_list: "check_fields inst a w p fs s = check_list inst p (map (\<lambda>f. (a + word_of_int (f * w), w)) fs) s"
  by (induction fs arbitrary: s) (simp_all add: check_list_Cons Let_def split: prod.split)

definition active :: "u8 list option \<Rightarrow> int \<Rightarrow> bool" where
  "active msk i = (case msk of None \<Rightarrow> True | Some m \<Rightarrow> CheckVectorMask m i)"

lemma validate_loop_list:
  assumes "\<And>s i. v s i = check_list inst p (acc i) s"
  shows "validate_loop msk v is s = check_list inst p (concat (map acc (filter (active msk) is))) s"
proof (induction "is" arbitrary: s)
  case (Cons i "is")
  then show ?case by (auto simp: assms check_list_append active_def Let_def split: option.split prod.split)
qed simp

lemma validate_loop_true: "(\<And>i. i \<in> set is \<Longrightarrow> v s i = (True, s)) \<Longrightarrow> validate_loop msk v is s = (True, s)"
  by (induction "is") auto

lemma word_of_int_uint_add: "word_of_int (uint (word_of_int x :: u32) + y) = (word_of_int (x + y) :: u32)"
  by (metis word_of_int_uint wi_hom_add)

text \<open>The fast path of a strided access changes nothing when permission for an element implies its
  validation.\<close>

lemma strided_slow:
  assumes "regions_disjoint (memory_regions s)" "0 < sz" "sz < 2 ^ 31"
    and "start = (if ign then 0 else vstart s)" "start < count \<Longrightarrow> not_whole stride (count - start) sz"
    and "\<And>i. start \<le> i \<Longrightarrow> i < count \<Longrightarrow> HasPermission (word_of_int (uint base + i * stride)) (word_of_int sz) p s
      \<Longrightarrow> uint (word_of_int (uint base + i * stride) :: u32) + sz \<le> 2 ^ 32 \<Longrightarrow> v s i = (True, s)"
  shows "ValidateStridedVectorAccess inst m count ign base stride sz p v s = ValidateVectorAccess inst m count ign v s"
proof (cases "start < count \<and> HasRangePermission (word_of_int (uint base + start * stride)) stride (count - start) sz p s")
  case True
  have "v s i = (True, s)" if "i \<in> set [start..count - 1]" for i
  proof (rule assms(6))
    show "start \<le> i" "i < count" using that by simp_all
    have "HasPermission (word_of_int (uint (word_of_int (uint base + start * stride) :: u32) + (i - start) * stride)) (word_of_int sz) p s
      \<and> uint (word_of_int (uint (word_of_int (uint base + start * stride) :: u32) + (i - start) * stride) :: u32) + sz \<le> 2 ^ 32"
      using True assms(5) that by (intro HasRangePermission_elements [OF assms(1) _ _ assms(2,3)]) auto
    moreover have "uint base + start * stride + (i - start) * stride = uint base + i * stride" by (simp add: algebra_simps)
    ultimately show "HasPermission (word_of_int (uint base + i * stride)) (word_of_int sz) p s"
      "uint (word_of_int (uint base + i * stride) :: u32) + sz \<le> 2 ^ 32"
      unfolding word_of_int_uint_add by simp_all
  qed
  then have "validate_loop (GetMaskData inst m) v [start..count - 1] s = (True, s)" by (rule validate_loop_true)
  then show ?thesis
    using True unfolding ValidateStridedVectorAccess_def ValidateVectorAccess_def assms(4) [symmetric] Let_def by simp
next
  case False
  then show ?thesis
    unfolding ValidateStridedVectorAccess_def assms(4) [symmetric] Let_def by (rule if_not_P)
qed

lemma fields_permitted:
  assumes "regions_disjoint (memory_regions s)" "HasPermission a (word_of_int (n * w)) p s" "0 < w" "n * w < 2 ^ 31" "0 < n"
    and "0 \<le> f" "f < n" "uint a + n * w \<le> 2 ^ 32"
  shows "HasPermission (a + word_of_int (f * w)) (word_of_int w) p s"
proof -
  have b: "0 \<le> f * w" "f * w + w \<le> n * w"
    using assms(3,6,7) mult_right_mono [of "f + 1" n w] by (simp_all add: algebra_simps)
  have l: "n * w < 2 ^ 32" by (rule less_trans [OF assms(4)]) simp
  have u: "uint (word_of_int (n * w) :: u32) = n * w" using assms(3) b l by (intro uint_of_int) linarith+
  have v: "uint (word_of_int w :: u32) = w" using assms(3) b l by (intro uint_of_int) linarith+
  have "a + word_of_int (f * w) = word_of_int (uint a + f * w)" by simp
  then have "uint (a + word_of_int (f * w)) = uint a + f * w"
    using assms(3,8) b u32_range(1) [of a] by (simp only:) (intro uint_of_int; linarith)
  then show ?thesis
    using HasPermission_mono [OF assms(1,2), of "word_of_int w" "a + word_of_int (f * w)"] u v b assms(3) by simp
qed

lemma fields_check_true:
  assumes "regions_disjoint (memory_regions s)" "HasPermission a (word_of_int (n * w)) p s" "0 < w" "n * w < 2 ^ 31" "0 < n"
    "uint a + n * w \<le> 2 ^ 32"
  shows "check_fields inst a w p [0..n - 1] s = (True, s)"
proof -
  have "find (\<lambda>(a, m). \<not> HasPermission a (word_of_int m) p s) (map (\<lambda>f. (a + word_of_int (f * w), w)) [0..n - 1]) = None"
    using fields_permitted [OF assms(1-5) _ _ assms(6)] by (auto simp: find_None_iff)
  then show ?thesis by (simp add: check_fields_list check_list_def)
qed

subsection \<open>What each instruction accesses\<close>

definition v2_address :: "v2_inst \<Rightarrow> nat \<Rightarrow> int \<Rightarrow> u32" where
  "v2_address inst src k = ucast (source_u64 inst src) + word_of_int k"

definition v2_indexed_address :: "v2_inst \<Rightarrow> nat \<Rightarrow> nat \<Rightarrow> int \<Rightarrow> CoralNPUV2State \<Rightarrow> int \<Rightarrow> u32" where
  "v2_indexed_address inst src idx w s i = ucast (source_u64 inst src)
     + ucast (GetIndexValue (source_register inst idx) i w (vector_register_byte_length s div w))"

definition elements :: "v2_inst \<Rightarrow> int \<Rightarrow> int \<Rightarrow> int \<Rightarrow> int list" where
  "elements inst m start count = filter (active (GetMaskData inst m)) [start..count - 1]"

text \<open>The accesses of an instruction in element order: masked elements from \<open>vstart\<close> on, fields in turn.\<close>

fun op_accesses :: "mpact_call \<Rightarrow> v2_inst \<Rightarrow> CoralNPUV2State \<Rightarrow> (u32 \<times> int) list" where
  "op_accesses (VlStrided w) inst s = map (\<lambda>i. (v2_address inst 0 (i * source_i64 inst 1), w)) (elements inst 2 (vstart s) (vl s))"
| "op_accesses (VsStrided w) inst s = map (\<lambda>i. (v2_address inst 1 (i * source_i64 inst 2), w)) (elements inst 3 (vstart s) (vl s))"
| "op_accesses Vlm inst s = map (\<lambda>i. (v2_address inst 0 i, 1)) [0..(vl s + 7) div 8 - 1]"
| "op_accesses Vsm inst s = map (\<lambda>i. (v2_address inst 1 i, 1)) [0..(vl s + 7) div 8 - 1]"
| "op_accesses (VlRegister r w) inst s = map (\<lambda>i. (v2_address inst 0 (i * w), w)) [0..vector_register_byte_length s * r div w - 1]"
| "op_accesses (VsRegister r) inst s = map (\<lambda>i. (v2_address inst 1 (i * 8), 8)) [0..vector_register_byte_length s * r div 8 - 1]"
| "op_accesses (VlIndexed w) inst s = map (\<lambda>i. (v2_indexed_address inst 0 1 w s i, selected_element_width s)) (elements inst 2 (vstart s) (vl s))"
| "op_accesses (VsIndexed w) inst s = map (\<lambda>i. (v2_indexed_address inst 1 2 w s i, selected_element_width s)) (elements inst 3 (vstart s) (vl s))"
| "op_accesses (VlSegment w) inst s = (let n = (source_i32 inst 2 + 1) * w in
     map (\<lambda>i. (v2_address inst 0 (i * n), n)) (elements inst 1 (vstart s) (vl s)))"
| "op_accesses (VsSegment w) inst s = (let n = (source_i32 inst 3 + 1) * w in
     map (\<lambda>i. (v2_address inst 1 (i * n), n)) (elements inst 2 (vstart s) (vl s)))"
| "op_accesses (VlSegmentStrided w) inst s = concat (map (\<lambda>i. segment_fields (v2_address inst 0 (i * source_i64 inst 1)) w (source_i32 inst 3 + 1))
     (elements inst 2 (vstart s) (vl s)))"
| "op_accesses (VsSegmentStrided w) inst s = concat (map (\<lambda>i. segment_fields (v2_address inst 1 (i * source_i64 inst 2)) w (source_i32 inst 4 + 1))
     (elements inst 3 (vstart s) (vl s)))"
| "op_accesses (VlSegmentIndexed w) inst s = concat (map (\<lambda>i. segment_fields (v2_indexed_address inst 0 1 w s i) (selected_element_width s) (source_i32 inst 3 + 1))
     (elements inst 2 (vstart s) (vl s)))"
| "op_accesses (VsSegmentIndexed w) inst s = concat (map (\<lambda>i. segment_fields (v2_indexed_address inst 1 2 w s i) (selected_element_width s) (source_i32 inst 4 + 1))
     (elements inst 3 (vstart s) (vl s)))"
| "op_accesses _ inst s = []"

text \<open>The handler the instruction decoder binds to each operation.\<close>

fun run_op :: "mpact_call \<Rightarrow> v2_inst \<Rightarrow> CoralNPUV2State \<Rightarrow> v2_result" where
  "run_op (VlStrided w) = CoralNPUV2VlStrided w"
| "run_op (VsStrided w) = CoralNPUV2VsStrided w"
| "run_op Vlm = CoralNPUV2Vlm"
| "run_op Vsm = CoralNPUV2Vsm"
| "run_op (VlRegister r w) = CoralNPUV2VlRegister r w"
| "run_op (VsRegister r) = CoralNPUV2VsRegister r"
| "run_op (VlIndexed w) = CoralNPUV2VlIndexed w"
| "run_op (VsIndexed w) = CoralNPUV2VsIndexed w"
| "run_op (VlSegment w) = CoralNPUV2VlSegment w"
| "run_op (VsSegment w) = CoralNPUV2VsSegment w"
| "run_op (VlSegmentStrided w) = CoralNPUV2VlSegmentStrided w"
| "run_op (VsSegmentStrided w) = CoralNPUV2VsSegmentStrided w"
| "run_op (VlSegmentIndexed w) = CoralNPUV2VlSegmentIndexed w"
| "run_op (VsSegmentIndexed w) = CoralNPUV2VsSegmentIndexed w"
| "run_op call = (\<lambda>inst s. (s, None))"

text \<open>Loads read, stores write.\<close>

fun is_store :: "mpact_call \<Rightarrow> bool" where
  "is_store (VsStrided w) = True" | "is_store Vsm = True" | "is_store (VsRegister r) = True" | "is_store (VsIndexed w) = True"
| "is_store (VsSegment w) = True" | "is_store (VsSegmentStrided w) = True" | "is_store (VsSegmentIndexed w) = True"
| "is_store _ = False"

text \<open>The vector operations with operands the decoder can produce: the range a strided access spans is not
  the whole address space, element sizes are positive and small, and the register grouping is legal.\<close>

definition span_ok :: "int \<Rightarrow> int \<Rightarrow> int \<Rightarrow> int \<Rightarrow> bool" where
  "span_ok start count stride sz \<longleftrightarrow> 0 < sz \<and> sz < 2 ^ 31 \<and> (start < count \<longrightarrow> not_whole stride (count - start) sz)"

definition emul_ok :: "int \<Rightarrow> CoralNPUV2State \<Rightarrow> bool" where
  "emul_ok w s \<longleftrightarrow> w * vector_length_multiplier s div selected_element_width s \<noteq> 0
     \<and> w * vector_length_multiplier s div selected_element_width s \<le> kMaxEmul"

fun op_ok :: "mpact_call \<Rightarrow> v2_inst \<Rightarrow> CoralNPUV2State \<Rightarrow> bool" where
  "op_ok (VlStrided w) inst s = (emul_ok w s \<and> span_ok (vstart s) (vl s) (source_i64 inst 1) w)"
| "op_ok (VsStrided w) inst s = (emul_ok w s \<and> span_ok (vstart s) (vl s) (source_i64 inst 2) w)"
| "op_ok Vlm inst s = span_ok 0 ((vl s + 7) div 8) 1 1"
| "op_ok Vsm inst s = span_ok 0 ((vl s + 7) div 8) 1 1"
| "op_ok (VlRegister r w) inst s = span_ok 0 (vector_register_byte_length s * r div w) w w"
| "op_ok (VsRegister r) inst s = span_ok 0 (vector_register_byte_length s * r div 8) 8 8"
| "op_ok (VlIndexed w) inst s = True"
| "op_ok (VsIndexed w) inst s = True"
| "op_ok (VlSegment w) inst s = span_ok (vstart s) (vl s) ((source_i32 inst 2 + 1) * w) ((source_i32 inst 2 + 1) * w)"
| "op_ok (VsSegment w) inst s = span_ok (vstart s) (vl s) ((source_i32 inst 3 + 1) * w) ((source_i32 inst 3 + 1) * w)"
| "op_ok (VlSegmentStrided w) inst s = (0 < w \<and> span_ok (vstart s) (vl s) (source_i64 inst 1) ((source_i32 inst 3 + 1) * w))"
| "op_ok (VsSegmentStrided w) inst s = (0 < w \<and> span_ok (vstart s) (vl s) (source_i64 inst 2) ((source_i32 inst 4 + 1) * w))"
| "op_ok (VlSegmentIndexed w) inst s = True"
| "op_ok (VsSegmentIndexed w) inst s = True"
| "op_ok _ inst s = False"

lemma ucast_word_of_int_u64: "ucast (word_of_int x :: u64) = (word_of_int x :: u32)"
  by (rule ucast_down_wi) (simp add: is_down_def target_size source_size word_size)

lemma ucast_u32_add: "ucast (x + y :: u64) = (ucast x + ucast y :: u32)"
  using ucast_word_of_int_u64 [of "uint x + uint y"] ucast_word_of_int_u64 [of "uint x"] ucast_word_of_int_u64 [of "uint y"]
  by (simp add: wi_hom_add [symmetric])

lemma ucast_u64_round: "ucast (ucast (v :: u32) :: u64) = v"
  by (rule bit_word_eqI) (simp add: bit_simps)

lemma v2_address_eq:
  "ucast (source_u64 inst k + word_of_int x) = v2_address inst k x"
  "word_of_int (uint (ucast (source_u64 inst k) :: u32) + x) = v2_address inst k x"
  "ucast (source_u64 inst k + ucast (v :: u32)) = (ucast (source_u64 inst k) + v :: u32)"
  "ucast (source_u64 inst k + u) = (ucast (source_u64 inst k) + ucast u :: u32)"
  for v :: u32 and u :: u64
  unfolding v2_address_def ucast_u32_add ucast_u64_round ucast_word_of_int_u64
  by (simp_all add: wi_hom_add [symmetric])

subsection \<open>One verdict for every access pattern\<close>

text \<open>The result of an instruction that makes the accesses \<open>xs\<close>.\<close>

definition guarded :: "mpact_call \<Rightarrow> v2_inst \<Rightarrow> u8 \<Rightarrow> (u32 \<times> int) list \<Rightarrow> CoralNPUV2State \<Rightarrow> v2_result" where
  "guarded call inst p xs s = (case find (\<lambda>(a, n). \<not> HasPermission a (word_of_int n) p s) xs of
     None \<Rightarrow> (s, Some call) | Some (a, n) \<Rightarrow> (access_fault inst a p s, None))"

lemma call_if_check: "call_if (check_list inst p xs s) call = guarded call inst p xs s"
  by (simp add: call_if_def check_list_def guarded_def split: option.split prod.split)

lemma concat_map_single: "concat (map (\<lambda>i. [f i]) xs) = map f xs"
  by (induction xs) simp_all

lemma loop_guarded:
  assumes "\<And>s i. v s i = check_list inst p (acc i) s" "start = (if ign then 0 else vstart s)"
  shows "call_if (ValidateVectorAccess inst m count ign v s) call = guarded call inst p (concat (map acc (elements inst m start count))) s"
  unfolding ValidateVectorAccess_def assms(2) [symmetric] Let_def elements_def
  by (simp only: validate_loop_list [OF assms(1)] call_if_check)

lemma strided_guarded:
  assumes "regions_disjoint (memory_regions s)" "span_ok start count stride sz" "start = (if ign then 0 else vstart s)"
    and v: "\<And>s i. v s i = check_list inst p (acc (v2_address inst k (i * stride))) s"
    and "\<And>a. HasPermission a (word_of_int sz) p s \<Longrightarrow> uint a + sz \<le> 2 ^ 32 \<Longrightarrow> check_list inst p (acc a) s = (True, s)"
  shows "call_if (ValidateStridedVectorAccess inst m count ign (ucast (source_u64 inst k)) stride sz p v s) call
     = guarded call inst p (concat (map (\<lambda>i. acc (v2_address inst k (i * stride))) (elements inst m start count))) s"
proof -
  have "ValidateStridedVectorAccess inst m count ign (ucast (source_u64 inst k)) stride sz p v s = ValidateVectorAccess inst m count ign v s"
  proof (rule strided_slow [OF assms(1) _ _ assms(3)])
    show "v s i = (True, s)" if "HasPermission (word_of_int (uint (ucast (source_u64 inst k) :: u32) + i * stride)) (word_of_int sz) p s"
      "uint (word_of_int (uint (ucast (source_u64 inst k) :: u32) + i * stride) :: u32) + sz \<le> 2 ^ 32" for i
      using that unfolding v v2_address_eq(2) by (rule assms(5))
  qed (use assms(2) in \<open>simp_all add: span_ok_def\<close>)
  then show ?thesis using loop_guarded [OF v assms(3)] by simp
qed

lemma access_permitted: "HasPermission a (word_of_int n) p s \<Longrightarrow> check_list inst p [(a, n)] s = (True, s)"
  by (simp add: check_list_def)

text \<open>The two patterns of the strided instructions: one access per element, or one per field.\<close>

lemma strided_single:
  assumes "regions_disjoint (memory_regions s)" "span_ok start count stride sz" "start = (if ign then 0 else vstart s)"
  shows "call_if (ValidateStridedVectorAccess inst m count ign (ucast (source_u64 inst k)) stride sz p
      (\<lambda>s i. CheckVectorAccess inst (v2_address inst k (i * stride)) sz p s) s) call
     = guarded call inst p (map (\<lambda>i. (v2_address inst k (i * stride), sz)) (elements inst m start count)) s"
  using strided_guarded [OF assms, of "\<lambda>s i. CheckVectorAccess inst (v2_address inst k (i * stride)) sz p s" inst p "\<lambda>a. [(a, sz)]" k]
  by (simp add: check_list_single access_permitted concat_map_single)

lemma strided_fields:
  assumes "regions_disjoint (memory_regions s)" "span_ok start count stride (n * w)" "start = (if ign then 0 else vstart s)" "0 < w"
  shows "call_if (ValidateStridedVectorAccess inst m count ign (ucast (source_u64 inst k)) stride (n * w) p
      (\<lambda>s i. check_fields inst (v2_address inst k (i * stride)) w p [0..n - 1] s) s) call
     = guarded call inst p (concat (map (\<lambda>i. segment_fields (v2_address inst k (i * stride)) w n) (elements inst m start count))) s"
proof (rule strided_guarded [OF assms(1-3)])
  have "0 < n * w" "n * w < 2 ^ 31" using assms(2) by (simp_all add: span_ok_def)
  then show "check_list inst p (segment_fields a w n) s = (True, s)"
    if "HasPermission a (word_of_int (n * w)) p s" "uint a + n * w \<le> 2 ^ 32" for a
    using fields_check_true [OF assms(1) that(1) assms(4) _ _ that(2)] assms(4)
    by (simp add: check_fields_list segment_fields_def zero_less_mult_iff)
qed (simp add: check_fields_list segment_fields_def)

lemma loop_single:
  "start = (if ign then 0 else vstart s) \<Longrightarrow>
   call_if (ValidateVectorAccess inst m count ign (\<lambda>s i. CheckVectorAccess inst (f i) n p s) s) call
     = guarded call inst p (map (\<lambda>i. (f i, n)) (elements inst m start count)) s"
  using loop_guarded [of "\<lambda>s i. CheckVectorAccess inst (f i) n p s" inst p "\<lambda>i. [(f i, n)]"]
  by (simp add: check_list_single concat_map_single)

lemma loop_fields:
  "start = (if ign then 0 else vstart s) \<Longrightarrow>
   call_if (ValidateVectorAccess inst m count ign (\<lambda>s i. check_fields inst (f i) w p [0..n - 1] s) s) call
     = guarded call inst p (concat (map (\<lambda>i. segment_fields (f i) w n) (elements inst m start count))) s"
  using loop_guarded [of "\<lambda>s i. check_fields inst (f i) w p [0..n - 1] s" inst p "\<lambda>i. segment_fields (f i) w n"]
  by (simp add: check_fields_list segment_fields_def)

lemma no_mask: "elements inst (- 1) start count = [start..count - 1]"
  by (simp add: elements_def GetMaskData_def active_def)

lemmas v2_handler_defs =
  CoralNPUV2VlStrided_def CoralNPUV2Vlm_def CoralNPUV2VlRegister_def CoralNPUV2VlIndexed_def CoralNPUV2VlSegment_def
  CoralNPUV2VlSegmentStrided_def CoralNPUV2VlSegmentIndexed_def CoralNPUV2VsStrided_def CoralNPUV2Vsm_def CoralNPUV2VsRegister_def
  CoralNPUV2VsIndexed_def CoralNPUV2VsSegment_def CoralNPUV2VsSegmentStrided_def CoralNPUV2VsSegmentIndexed_def

lemma handler_guarded:
  assumes "regions_disjoint (memory_regions s)" "op_ok call inst s"
  shows "run_op call inst s = guarded call inst (if is_store call then kWrite else kRead) (op_accesses call inst s) s"
proof -
  note d = assms(1)
  note simps = v2_handler_defs Let_def ValidateIndexedVectorAccess_def ucast_u32_add ucast_u64_round ucast_word_of_int_u64
    v2_address_def [symmetric] v2_indexed_address_def no_mask op_accesses.simps run_op.simps is_store.simps op_ok.simps if_True if_False
  note start = if_False [where x = 0 and y = "vstart s"] if_True [where x = 0 and y = "vstart s"]
  have byte: "call_if (ValidateStridedVectorAccess inst m count True (ucast (source_u64 inst k)) 1 1 p
      (\<lambda>s i. CheckVectorAccess inst (v2_address inst k i) 1 p s) s) c
    = guarded c inst p (map (\<lambda>i. (v2_address inst k i, 1)) (elements inst m 0 count)) s" if "span_ok 0 count 1 1" for m count k p c
    using strided_single [OF d that, where ign = True and m = m and k = k and p = p] by simp
  note fields = strided_fields [where n = "n + 1" for n, unfolded add_diff_cancel_right']
  show ?thesis
  proof (cases call)
    case (VlStrided w)
    then show ?thesis using assms(2) by (simp only: simps emul_ok_def) (simp add: strided_single [OF d])
  next
    case (VsStrided w)
    then show ?thesis using assms(2) by (simp only: simps emul_ok_def) (simp add: strided_single [OF d])
  next
    case Vlm
    then show ?thesis using assms(2) by (simp only: simps) (simp add: byte no_mask)
  next
    case Vsm
    then show ?thesis using assms(2) by (simp only: simps) (simp add: byte no_mask)
  next
    case (VlRegister r w)
    then show ?thesis using assms(2) by (simp only: simps) (simp add: strided_single [OF d] no_mask)
  next
    case (VsRegister r)
    then show ?thesis using assms(2) by (simp only: simps) (simp add: strided_single [OF d] no_mask)
  next
    case (VlIndexed w)
    then show ?thesis using assms(2) by (simp only: simps) (simp add: loop_single)
  next
    case (VsIndexed w)
    then show ?thesis using assms(2) by (simp only: simps) (simp add: loop_single)
  next
    case (VlSegment w)
    then show ?thesis using assms(2) by (simp only: simps) (simp add: strided_single [OF d])
  next
    case (VsSegment w)
    then show ?thesis using assms(2) by (simp only: simps) (simp add: strided_single [OF d])
  next
    case (VlSegmentStrided w)
    then show ?thesis using assms(2) by (simp only: simps) (simp add: fields [OF d])
  next
    case (VsSegmentStrided w)
    then show ?thesis using assms(2) by (simp only: simps) (simp add: fields [OF d])
  next
    case (VlSegmentIndexed w)
    then show ?thesis using assms(2) by (simp only: simps) (simp add: loop_fields [where n = "n + 1" for n, unfolded add_diff_cancel_right'])
  next
    case (VsSegmentIndexed w)
    then show ?thesis using assms(2) by (simp only: simps) (simp add: loop_fields [where n = "n + 1" for n, unfolded add_diff_cancel_right'])
  qed (use assms(2) in simp_all)
qed

end
