(* ===== verification/NPU_V2Claims.thy ===== *)
theory NPU_V2Claims
  imports NPU_V2Props
begin

text \<open>
  The properties of the second core's memory protection, and the two places where its checks are
  wrong: \<open>fsw\<close> checks eight bytes for a store of four, and a range of exactly \<open>2 ^ 32\<close> bytes is checked as
  an empty one.
\<close>

text \<open>With disjoint regions, an access is permitted exactly when one region contains all
  its bytes and has every requested permission; the order of the regions does not matter, and an
  access that crosses a border, or the end of the address space, is refused.\<close>

theorem HasPermission_decides:
  assumes "regions_disjoint (memory_regions s)" "sz \<noteq> 0"
  shows "HasPermission a sz p s = (\<exists>r \<in> set (memory_regions s). uint (start_address r) \<le> uint a
    \<and> uint a + uint sz \<le> uint (start_address r) + uint (region_length r) \<and> permissions r AND p = p)"
proof -
  have "0 < uint sz" using assms(2) by (metis uint_0_iff order_le_less u32_range(1))
  then show ?thesis using HasPermission_in [OF assms(1)] by (simp add: region_contains_def)
qed



subsection \<open>Instances\<close>

definition sample_state :: "CoralNPUV2MemoryRegion list \<Rightarrow> CoralNPUV2State" where
  "sample_state rs = \<lparr>memory_regions = rs, v2_misa = 0, v2_traps = [], vstart = 0, vl = 4,
     vector_length_multiplier = 8, selected_element_width = 4, vector_register_byte_length = 16\<rparr>"

definition sample_inst :: "u64 \<Rightarrow> int \<Rightarrow> v2_inst" where
  "sample_inst base stride = \<lparr>inst_address = 0x100, inst_size = 4, source_u32 = (\<lambda>k. if k = 0 then ucast base else 0),
     source_i32 = (\<lambda>k. 0), source_u64 = (\<lambda>k. if k = 0 then base else 0), source_i64 = (\<lambda>k. stride),
     source_register = (\<lambda>k r. replicate 16 0xff)\<rparr>"

lemma HasPermission_decides_witness:
  "HasPermission 0x17ffc 4 kRead (sample_state default_memory_regions) = (\<exists>r \<in> set default_memory_regions.
     uint (start_address r) \<le> 0x17ffc \<and> 0x18000 \<le> uint (start_address r) + uint (region_length r) \<and> permissions r AND kRead = kRead)"
  using HasPermission_decides [where s = "sample_state default_memory_regions" and a = "0x17ffc" and sz = 4 and p = kRead]
  by (simp add: sample_state_def default_memory_regions_def regions_apart_def)



subsection \<open>Where the checks are wrong\<close>

text \<open>\<open>fsw\<close> asks for permission to write eight bytes although it stores four: a store to the last word of
  the data memory, which is writable, is refused.\<close>

lemma fsw_last_word_refused:
  "HasPermission 0x17ffc 4 kWrite (sample_state default_memory_regions)
   \<and> snd (CoralNPUV2Fsw (sample_inst 0x17ffc 0) (sample_state default_memory_regions)) = None
   \<and> snd (CoralNPUV2Sw (sample_inst 0x17ffc 0) (sample_state default_memory_regions)) = Some (RVStore 4)"
  by (simp add: HasPermission_def sample_state_def default_memory_regions_def kRead_def kReadWrite_def kReadExecute_def kWrite_def
      kExecute_def CoralNPUV2Fsw_def CoralNPUV2Sw_def AccessCheck_def call_if_def sample_inst_def kStoreAccessFault_def kLoadAccessFault_def)

text \<open>A range of exactly \<open>2 ^ 32\<close> bytes has size 0 as a 32-bit number, and its permission is the permission
  of its first address only: this load is executed although its second element lies in no region.\<close>

lemma whole_range_admitted:
  "snd (CoralNPUV2VlStrided 4 (sample_inst 0 0x55555554) (sample_state default_memory_regions)) = Some (VlStrided 4)
   \<and> \<not> HasPermission 0x55555554 4 kRead (sample_state default_memory_regions)"
  by (simp add: HasPermission_def sample_state_def default_memory_regions_def kRead_def kReadWrite_def kReadExecute_def kWrite_def
      kExecute_def CoralNPUV2VlStrided_def ValidateStridedVectorAccess_def HasRangePermission_def call_if_def sample_inst_def kMaxEmul_def Let_def)

end
