(* ===== verification/NPU_IsgEngine.thy ===== *)
theory NPU_IsgEngine
  imports NPU_V2State "HOL-Library.Stream"
begin

text \<open>
  The instruction stream generator of \<open>sim/isg/isg_engine.{h,cc}\<close> with its watchdog. The engine appends
  assembly text to a buffer; \<open>None\<close> is a failed \<open>CHECK\<close>, which aborts the program, and also stands for
  a write of the unchecked \<open>SNPrintF\<close> calls that does not fit the buffer and is cut off. The
  pseudo-random numbers are a stream, one element per call of \<open>prng_()\<close>.
\<close>

subsection \<open>Strings\<close>

text \<open>The string functions of Abseil that the engine calls.\<close>

definition AsciiStrToLower :: "string \<Rightarrow> string" where
  "AsciiStrToLower t = map (\<lambda>c. let n = of_char c :: nat in if 65 \<le> n \<and> n \<le> 90 then char_of (n + 32) else c) t"

definition StartsWith :: "string \<Rightarrow> string \<Rightarrow> bool" where
  "StartsWith t p = (take (length p) t = p)"

definition EndsWith :: "string \<Rightarrow> string \<Rightarrow> bool" where
  "EndsWith t p = (length p \<le> length t \<and> drop (length t - length p) t = p)"

fun StrContains :: "string \<Rightarrow> string \<Rightarrow> bool" where
  "StrContains [] p = (p = [])"
| "StrContains (c # t) p = (StartsWith (c # t) p \<or> StrContains t p)"

definition is_space :: "char \<Rightarrow> bool" where
  "is_space c = (c = CHR '' '' \<or> c = CHR 0x09 \<or> c = CHR 0x0A \<or> c = CHR 0x0B \<or> c = CHR 0x0C \<or> c = CHR 0x0D)"

definition StripAsciiWhitespace :: "string \<Rightarrow> string" where
  "StripAsciiWhitespace t = rev (dropWhile is_space (rev (dropWhile is_space t)))"

fun split_on :: "(char \<Rightarrow> bool) \<Rightarrow> string \<Rightarrow> string list" where
  "split_on sep [] = [[]]"
| "split_on sep (c # t) =
     (if sep c then [] # split_on sep t
      else (case split_on sep t of [] \<Rightarrow> [[c]] | x # xs \<Rightarrow> (c # x) # xs))"

definition newline :: string where
  "newline = [CHR 0x0A]"

text \<open>\<open>absl::StrSplit(text, '\n', absl::SkipEmpty())\<close>.\<close>

definition split_lines :: "string \<Rightarrow> string list" where
  "split_lines t = filter (\<lambda>l. l \<noteq> []) (split_on (\<lambda>c. c = CHR 0x0A) t)"

text \<open>\<open>absl::SimpleAtoi\<close> for \<open>uint32_t\<close>.\<close>

definition is_digit :: "char \<Rightarrow> bool" where
  "is_digit c = (let n = of_char c :: nat in 48 \<le> n \<and> n \<le> 57)"

definition SimpleAtoi :: "string \<Rightarrow> u32 option" where
  "SimpleAtoi t =
     (let t = StripAsciiWhitespace t;
          t = (if t \<noteq> [] \<and> hd t = CHR ''+'' then tl t else t);
          n = foldl (\<lambda>n c. n * 10 + (of_char c - 48)) (0 :: nat) t
      in if t = [] \<or> \<not> list_all is_digit t \<or> n \<ge> 2 ^ 32 then None else Some (of_nat n))"

text \<open>\<open>%#x\<close>.\<close>

definition StrFormat_alt_x :: "u32 \<Rightarrow> string" where
  "StrFormat_alt_x w = (if w = 0 then ''0'' else ''0x'' @ StrFormat_x w)"

definition find_char :: "char \<Rightarrow> string \<Rightarrow> nat option" where
  "find_char c t = (if c \<in> set t then Some (length (takeWhile (\<lambda>d. d \<noteq> c) t)) else None)"

text \<open>\<open>lower.insert(lower.length() - k, ".")\<close>.\<close>

definition insert_dot :: "nat \<Rightarrow> string \<Rightarrow> string" where
  "insert_dot k t = take (length t - k) t @ ''.'' @ drop (length t - k) t"

definition CanonicalizeMnemonic :: "string \<Rightarrow> string" where
  "CanonicalizeMnemonic name =
     (let lower = AsciiStrToLower name;
          is_nr = StrContains lower ''_nr'' \<or> EndsWith lower ''nr'';
          lower = (case find_char (CHR ''_'') lower of None \<Rightarrow> lower | Some p \<Rightarrow> take p lower);
          lower = (if EndsWith lower ''nr'' then take (length lower - 2) lower else lower)
      in if is_nr \<and> lower = ''csrrw'' then ''csrw''
         else if is_nr \<and> lower = ''csrrs'' then ''csrs''
         else if is_nr \<and> lower = ''csrrc'' then ''csrc''
         else if is_nr \<and> lower = ''csrrwi'' then ''csrwi''
         else if is_nr \<and> lower = ''csrrsi'' then ''csrsi''
         else if is_nr \<and> lower = ''csrrci'' then ''csrci''
         else if EndsWith lower ''vv'' \<or> EndsWith lower ''vx'' \<or> EndsWith lower ''vi'' \<or> EndsWith lower ''vf'' \<or> EndsWith lower ''wx''
         then (if \<not> StrContains lower ''.'' then insert_dot 2 lower else lower)
         else if EndsWith lower ''vvm'' \<or> EndsWith lower ''vxm'' \<or> EndsWith lower ''vim''
         then (if \<not> StrContains lower ''.'' then insert_dot 3 lower else lower)
         else if StartsWith lower ''vls'' \<or> StartsWith lower ''vlox'' \<or> StartsWith lower ''vlux'' \<or> StartsWith lower ''vss''
           \<or> StartsWith lower ''vsox'' \<or> StartsWith lower ''vsux'' \<or> StartsWith lower ''vle''
           \<or> StartsWith lower ''vse'' \<and> lower \<noteq> ''vsetvli'' \<and> lower \<noteq> ''vsetivli'' \<and> lower \<noteq> ''vsetvl''
         then (if \<not> StrContains lower ''.'' then lower @ ''.v'' else lower)
         else lower)"

subsection \<open>Engine state\<close>

datatype VectorSew = e8 | e16 | e32 | e64
datatype VectorLmul = mf8 | mf4 | mf2 | m1 | m2 | m4 | m8

record VectorStateTracker =
  vst_vl :: u32
  vst_sew :: VectorSew
  vst_lmul :: VectorLmul
  configured :: bool
  vst_tail_agnostic :: bool
  vst_mask_agnostic :: bool

definition VectorStateTracker_init :: VectorStateTracker where
  "VectorStateTracker_init = \<lparr>vst_vl = 0, vst_sew = e8, vst_lmul = m1, configured = False,
     vst_tail_agnostic = True, vst_mask_agnostic = True\<rparr>"

record IsgWatchdog =
  max_iterations :: u64
  current_iterations :: u64

definition Tick :: "IsgWatchdog \<Rightarrow> bool \<times> IsgWatchdog" where
  "Tick w = (let w = w\<lparr>current_iterations := current_iterations w + 1\<rparr>
     in (\<not> (current_iterations w > max_iterations w), w))"

definition IsgWatchdog_Reset :: "IsgWatchdog \<Rightarrow> IsgWatchdog" where
  "IsgWatchdog_Reset w = w\<lparr>current_iterations := 0\<rparr>"

record IsgEngine =
  prng_seed :: u64
  prng :: "u64 stream"
  assembly_buffer :: string
  vector_state :: VectorStateTracker
  strict_sandboxing :: bool
  watchdog :: IsgWatchdog
  assertion_count :: u32
  hazard_tags :: "string list"
  expected_trap :: "(u64 \<times> u64 \<times> u64) option"
  shared_state :: CoralNPUV2State

type_synonym emitter = "IsgEngine \<Rightarrow> IsgEngine option"

definition kReservedDtcmBytes :: u32 where "kReservedDtcmBytes = 512"
definition kAssemblyBufferSize :: nat where "kAssemblyBufferSize = 131072"

definition kDefaultRxRegionStart :: u32 where "kDefaultRxRegionStart = 0x0"
definition kDefaultRxRegionLength :: u32 where "kDefaultRxRegionLength = 0x2000"
definition kDefaultRwRegionStart :: u32 where "kDefaultRwRegionStart = 0x10000"
definition kDefaultRwRegionLength :: u32 where "kDefaultRwRegionLength = 0x8000"
definition kDefaultRwRegion2Start :: u32 where "kDefaultRwRegion2Start = 0x20000000"
definition kDefaultRwRegion2Length :: u32 where "kDefaultRwRegion2Length = 0x400000"

text \<open>\<open>mt19937_64\<close> gives the random numbers of a seed, \<open>s0\<close> is the fresh state the constructor creates.\<close>

definition IsgEngine_init :: "(u64 \<Rightarrow> u64 stream) \<Rightarrow> CoralNPUV2State \<Rightarrow> u64 \<Rightarrow> IsgEngine" where
  "IsgEngine_init mt19937_64 s0 seed =
     \<lparr>prng_seed = seed, prng = mt19937_64 seed, assembly_buffer = [], vector_state = VectorStateTracker_init,
      strict_sandboxing = True, watchdog = \<lparr>max_iterations = 8000, current_iterations = 0\<rparr>, assertion_count = 0,
      hazard_tags = [], expected_trap = None,
      shared_state = AddMemoryRegion kDefaultRxRegionStart kDefaultRxRegionLength kReadExecute s0\<rparr>"

definition SetSeed :: "(u64 \<Rightarrow> u64 stream) \<Rightarrow> u64 \<Rightarrow> IsgEngine \<Rightarrow> IsgEngine" where
  "SetSeed mt19937_64 seed e = e\<lparr>prng_seed := seed, prng := mt19937_64 seed\<rparr>"

text \<open>\<open>Reset\<close> keeps the expected trap and the sandboxing mode.\<close>

definition IsgEngine_Reset :: "(u64 \<Rightarrow> u64 stream) \<Rightarrow> IsgEngine \<Rightarrow> IsgEngine" where
  "IsgEngine_Reset mt19937_64 e =
     e\<lparr>assembly_buffer := [], vector_state := VectorStateTracker_init, hazard_tags := [], assertion_count := 0,
       prng := mt19937_64 (prng_seed e), watchdog := IsgWatchdog_Reset (watchdog e)\<rparr>"

definition set_strict_sandboxing :: "bool \<Rightarrow> IsgEngine \<Rightarrow> IsgEngine" where
  "set_strict_sandboxing strict e = e\<lparr>strict_sandboxing := strict\<rparr>"

definition AddHazardTag :: "string \<Rightarrow> IsgEngine \<Rightarrow> IsgEngine" where
  "AddHazardTag tag e = e\<lparr>hazard_tags := hazard_tags e @ [tag]\<rparr>"

definition SetExpectedTrap :: "u64 \<Rightarrow> u64 \<Rightarrow> u64 \<Rightarrow> IsgEngine \<Rightarrow> IsgEngine" where
  "SetExpectedTrap mcause mepc mtval e = e\<lparr>expected_trap := Some (mcause, mepc, mtval)\<rparr>"

text \<open>\<open>prng_()\<close>.\<close>

definition draw :: "IsgEngine \<Rightarrow> u64 \<times> IsgEngine" where
  "draw e = (shd (prng e), e\<lparr>prng := stl (prng e)\<rparr>)"

subsection \<open>Emitting text\<close>

text \<open>Emitters in sequence.\<close>

fun emits :: "emitter list \<Rightarrow> emitter" where
  "emits [] e = Some e"
| "emits (f # fs) e = (case f e of None \<Rightarrow> None | Some e \<Rightarrow> emits fs e)"

text \<open>An \<open>SNPrintF\<close> to the end of the buffer, the terminating zero included.\<close>

definition fits_buffer :: "string \<Rightarrow> IsgEngine \<Rightarrow> bool" where
  "fits_buffer text e = (length (assembly_buffer e) + length text < kAssemblyBufferSize)"

definition append_text :: "string \<Rightarrow> emitter" where
  "append_text text e = (if fits_buffer text e then Some (e\<lparr>assembly_buffer := assembly_buffer e @ text\<rparr>) else None)"

text \<open>\<open>CHECK_OK(watchdog_.Tick())\<close>.\<close>

definition check_tick :: emitter where
  "check_tick e = (let (ok, w) = Tick (watchdog e) in if ok then Some (e\<lparr>watchdog := w\<rparr>) else None)"

fun VectorSew_ToString :: "VectorSew \<Rightarrow> string" where
  "VectorSew_ToString e8 = ''e8''" | "VectorSew_ToString e16 = ''e16''"
| "VectorSew_ToString e32 = ''e32''" | "VectorSew_ToString e64 = ''e64''"

fun VectorLmul_ToString :: "VectorLmul \<Rightarrow> string" where
  "VectorLmul_ToString mf8 = ''mf8''" | "VectorLmul_ToString mf4 = ''mf4''" | "VectorLmul_ToString mf2 = ''mf2''"
| "VectorLmul_ToString m1 = ''m1''" | "VectorLmul_ToString m2 = ''m2''" | "VectorLmul_ToString m4 = ''m4''"
| "VectorLmul_ToString m8 = ''m8''"

definition set_vector_state :: "u32 \<Rightarrow> VectorSew \<Rightarrow> VectorLmul \<Rightarrow> bool \<Rightarrow> bool \<Rightarrow> IsgEngine \<Rightarrow> IsgEngine" where
  "set_vector_state new_vl sew lmul tail_agnostic mask_agnostic e =
     e\<lparr>vector_state := \<lparr>vst_vl = new_vl, vst_sew = sew, vst_lmul = lmul, configured = True,
        vst_tail_agnostic = tail_agnostic, vst_mask_agnostic = mask_agnostic\<rparr>\<rparr>"

definition EmitVsetvli :: "string \<Rightarrow> string \<Rightarrow> VectorSew \<Rightarrow> VectorLmul \<Rightarrow> bool \<Rightarrow> bool \<Rightarrow> emitter" where
  "EmitVsetvli rd rs1 sew lmul tail_agnostic mask_agnostic e =
     append_text (''vsetvli '' @ rd @ '', '' @ rs1 @ '', '' @ VectorSew_ToString sew @ '', '' @ VectorLmul_ToString lmul
        @ '', '' @ (if tail_agnostic then ''ta'' else ''tu'') @ '', '' @ (if mask_agnostic then ''ma'' else ''mu'') @ newline)
       (set_vector_state 0xffffffff sew lmul tail_agnostic mask_agnostic e)"

definition EmitVsetivli :: "string \<Rightarrow> u32 \<Rightarrow> VectorSew \<Rightarrow> VectorLmul \<Rightarrow> bool \<Rightarrow> bool \<Rightarrow> emitter" where
  "EmitVsetivli rd uimm sew lmul tail_agnostic mask_agnostic e =
     append_text (''vsetivli '' @ rd @ '', '' @ StrFormat_u uimm @ '', '' @ VectorSew_ToString sew @ '', '' @ VectorLmul_ToString lmul
        @ '', '' @ (if tail_agnostic then ''ta'' else ''tu'') @ '', '' @ (if mask_agnostic then ''ma'' else ''mu'') @ newline)
       (set_vector_state uimm sew lmul tail_agnostic mask_agnostic e)"

text \<open>The update of the tracker for an instruction that starts with \<open>vsetvli zero, zero\<close>.\<close>

definition note_vsetvli :: "IsgEngine \<Rightarrow> IsgEngine" where
  "note_vsetvli e = e\<lparr>vector_state := (vector_state e)\<lparr>configured := True, vst_vl := 0xffffffff\<rparr>\<rparr>"

definition is_vset :: "string \<Rightarrow> bool" where
  "is_vset trimmed = (length trimmed \<ge> 4 \<and> take 4 trimmed = ''vset'')"

definition is_vset_zero :: "string \<Rightarrow> bool" where
  "is_vset_zero trimmed = (StartsWith trimmed ''vsetvli zero, zero'' \<or> StartsWith trimmed ''vsetvli zero,zero'')"

definition is_vector :: "string \<Rightarrow> bool" where
  "is_vector trimmed = (trimmed \<noteq> [] \<and> hd trimmed = CHR ''v'')"

text \<open>
  The configuration that precedes a vector instruction when none is in force. \<open>safe_pointers\<close> is
  \<open>EmitSafePointerInit({"t2", "t3"})\<close>.
\<close>

definition configure_vector :: "emitter \<Rightarrow> emitter" where
  "configure_vector safe_pointers e =
     (let (r, e) = draw e; vl_val = ucast (r mod 32) + 1 :: u32
      in emits [append_text (''addi t3, zero, '' @ StrFormat_u vl_val @ newline),
                (\<lambda>e. EmitVsetvli ''t2'' ''t3'' (vst_sew (vector_state e)) (vst_lmul (vector_state e)) True True e),
                (\<lambda>e. Some (e\<lparr>vector_state := (vector_state e)\<lparr>vst_vl := vl_val\<rparr>\<rparr>)),
                safe_pointers] e)"

definition unconfigured :: "IsgEngine \<Rightarrow> bool" where
  "unconfigured e = (\<not> configured (vector_state e) \<or> vst_vl (vector_state e) = 0)"

definition emit_format :: "emitter \<Rightarrow> string \<Rightarrow> emitter" where
  "emit_format safe_pointers text e =
     (case check_tick e of None \<Rightarrow> None | Some e \<Rightarrow>
        if \<not> fits_buffer text e then None
        else
          let trimmed = StripAsciiWhitespace text in
          if is_vset trimmed then
            (if is_vset_zero trimmed then emits [append_text text, append_text newline] (note_vsetvli e) else None)
          else if is_vector trimmed \<and> unconfigured e then
            emits [configure_vector safe_pointers, append_text text, append_text newline] e
          else emits [append_text text, append_text newline] e)"

definition emit_instruction :: "emitter \<Rightarrow> string \<Rightarrow> emitter" where
  "emit_instruction safe_pointers inst e =
     (case check_tick e of None \<Rightarrow> None | Some e \<Rightarrow>
        let trimmed = StripAsciiWhitespace inst in
        if is_vset trimmed then
          (if is_vset_zero trimmed then append_text (inst @ newline) (note_vsetvli e) else Some e)
        else if is_vector trimmed \<and> unconfigured e then
          emits [configure_vector safe_pointers, append_text (inst @ newline)] e
        else append_text (inst @ newline) e)"

subsection \<open>Loading constants\<close>

definition li_upper :: "u32 \<Rightarrow> u32" where
  "li_upper val = drop_bit 12 (val + 0x800)"

definition li_lower :: "u32 \<Rightarrow> u32" where
  "li_lower val = val - push_bit 12 (li_upper val)"

definition emit_li :: "(string \<Rightarrow> emitter) \<Rightarrow> string \<Rightarrow> u32 \<Rightarrow> emitter" where
  "emit_li emit reg val =
     emits (emit (''lui '' @ reg @ '', 0x'' @ StrFormat_x (li_upper val))
       # (if li_lower val \<noteq> 0 \<or> li_upper val = 0
          then [emit (''addi '' @ reg @ '', '' @ reg @ '', '' @ StrFormat_d (li_lower val))] else []))"

fun emit_safe_pointers :: "(string \<Rightarrow> emitter) \<Rightarrow> string list \<Rightarrow> emitter" where
  "emit_safe_pointers emit [] e = Some e"
| "emit_safe_pointers emit (reg # regs) e =
     (let (r, e) = draw e;
          val = kReservedDtcmBytes + ucast (r mod ucast (0x1000 - kReservedDtcmBytes))
      in case emit_li emit reg (kDefaultRwRegionStart + val) e of None \<Rightarrow> None
         | Some e \<Rightarrow> emit_safe_pointers emit regs e)"

text \<open>
  \<open>EmitInstruction\<close> and \<open>EmitInstructionFormat\<close> call \<open>EmitSafePointerInit\<close>, which calls
  \<open>EmitInstructionFormat\<close> again for the lines \<open>lui\<close> and \<open>addi\<close>. These are no vector instructions, so
  the inner call never reaches that branch: it may be anything, here \<open>None\<close>.
\<close>

definition safe_pointers :: emitter where
  "safe_pointers = emit_safe_pointers (emit_format (\<lambda>e. None)) [''t2'', ''t3'']"

definition EmitInstructionFormat :: "string \<Rightarrow> emitter" where
  "EmitInstructionFormat = emit_format safe_pointers"

definition EmitInstruction :: "string \<Rightarrow> emitter" where
  "EmitInstruction = emit_instruction safe_pointers"

definition EmitLi :: "string \<Rightarrow> u32 \<Rightarrow> emitter" where
  "EmitLi = emit_li EmitInstructionFormat"

definition EmitSafePointerInit :: "string list \<Rightarrow> emitter" where
  "EmitSafePointerInit = emit_safe_pointers EmitInstructionFormat"

end
