(* ===== verification/NPU_IsgEmit.thy ===== *)
theory NPU_IsgEmit
  imports Complex_Main NPU_IsgEngine
begin

text \<open>
  The high-level emitters of \<open>sim/isg/isg_engine.cc\<close>: preamble, traps, coverpoints, the builders of
  vector and memory blocks with their address masking, the program counter of the text, and the
  finished test sequence.
\<close>

subsection \<open>Simple emitters\<close>

definition EmitMpause :: emitter where
  "EmitMpause = append_text (''.word 0x08000073'' @ newline)"

definition EmitIllegalInstruction :: emitter where
  "EmitIllegalInstruction = append_text (''.word 0x00000000'' @ newline)"

definition EmitEbreak :: emitter where
  "EmitEbreak = EmitInstruction ''ebreak''"

definition EmitCoverpoint :: "string \<Rightarrow> emitter" where
  "EmitCoverpoint name = append_text (''# COVERPOINT: '' @ name @ newline)"

definition SetupTrapHandler :: "u32 \<Rightarrow> emitter" where
  "SetupTrapHandler trap_addr =
     emits [EmitInstructionFormat (''addi t0, zero, '' @ StrFormat_u trap_addr), EmitInstruction ''csrw mtvec, t0'']"

definition EmitFpPoisonPills :: emitter where
  "EmitFpPoisonPills = emits [
     append_text (''; COVERPOINT: FP Poison Pills'' @ newline),
     EmitLi ''t0'' 0xFFFFFFFF, EmitInstruction ''mv.w.x f1, t0'',
     EmitLi ''t0'' 0x7F800001, EmitInstruction ''mv.w.x f2, t0'',
     EmitLi ''t0'' 0x00000001, EmitInstruction ''mv.w.x f3, t0'',
     EmitInstruction ''mv.x.w t1, f1'', EmitInstruction ''mv.w.x f4, t1'',
     EmitInstruction ''mv.x.w t2, f2'', EmitInstruction ''mv.w.x f5, t2'',
     EmitInstruction ''mv.x.w t3, f3'', EmitInstruction ''mv.w.x f6, t3'',
     EmitInstruction ''fadd.s f7, f1, f2'', EmitInstruction ''fsub.s f8, f2, f3'',
     EmitInstruction ''fmul.s f9, f1, f3'', EmitInstruction ''fdiv.s f10, f1, f1'']"

text \<open>\<open>name1\<close> and \<open>name2\<close> are the generated names of the opcodes; the mnemonics are cut at 31 characters.\<close>

definition EmitDataHazard :: "string \<Rightarrow> string \<Rightarrow> emitter" where
  "EmitDataHazard name1 name2 = emits [
     EmitInstructionFormat (take 31 (CanonicalizeMnemonic name1) @ '' t0, t1, t2''),
     EmitInstructionFormat (take 31 (CanonicalizeMnemonic name2) @ '' t3, t0, t4'')]"

definition sew_of :: "int \<Rightarrow> VectorSew option" where
  "sew_of sew = (if sew = 8 then Some e8 else if sew = 16 then Some e16 else if sew = 32 then Some e32
     else if sew = 64 then Some e64 else None)"

definition lmul_of :: "int \<Rightarrow> VectorLmul option" where
  "lmul_of lmul = (if lmul = 1 then Some m1 else if lmul = 2 then Some m2 else if lmul = 4 then Some m4
     else if lmul = 8 then Some m8 else None)"

definition EmitVtype :: "int \<Rightarrow> int \<Rightarrow> int \<Rightarrow> emitter" where
  "EmitVtype sew lmul new_vl e =
     (case (sew_of sew, lmul_of lmul) of
        (Some v_sew, Some v_lmul) \<Rightarrow>
          if new_vl \<noteq> - 1 then
            emits [EmitLi ''t3'' (word_of_int new_vl), EmitVsetvli ''zero'' ''t3'' v_sew v_lmul True True,
              (\<lambda>e. Some (e\<lparr>vector_state := (vector_state e)\<lparr>vst_vl := word_of_int new_vl\<rparr>\<rparr>))] e
          else EmitVsetvli ''zero'' ''zero'' v_sew v_lmul True True e
      | _ \<Rightarrow> None)"

subsection \<open>Program counter and result\<close>

definition is_label :: "string \<Rightarrow> bool" where
  "is_label trimmed = (last trimmed = CHR '':'')"

text \<open>The bytes one line of text occupies.\<close>

definition line_bytes :: "string \<Rightarrow> u32" where
  "line_bytes subline =
     (let trimmed = StripAsciiWhitespace subline in
      if trimmed = [] \<or> hd trimmed = CHR ''#'' \<or> hd trimmed = CHR '';'' then 0
      else if is_label trimmed then 0
      else if hd trimmed = CHR ''.'' then (if StartsWith trimmed ''.word'' then 4 else 0)
      else 4)"

definition text_pc :: "string \<Rightarrow> u32" where
  "text_pc t = foldl (\<lambda>pc l. pc + line_bytes l) 0 (split_lines t)"

definition CurrentPc :: "IsgEngine \<Rightarrow> u32" where
  "CurrentPc e = text_pc (assembly_buffer e)"

record TestSequence =
  ts_prng_seed :: u64
  assembly_text :: string
  trap_event :: "(u64 \<times> u64 \<times> u64) option"
  ts_hazard_tags :: "string list"
  expected_terminal_state :: string
  ts_assertion_count :: u32

text \<open>\<open>while (pc < 8188)\<close>.\<close>

function pad_nops :: "u32 \<Rightarrow> string \<Rightarrow> string" where
  "pad_nops pc final_text =
     (if pc < 8188 then pad_nops (pc + 4) (final_text @ ''addi x0, x0, 0'' @ newline) else final_text)"
  by pat_completeness auto
termination
  by (relation "measure (\<lambda>(pc, _). 8188 - unat pc)") (auto simp: word_less_nat_alt unat_word_ariths)

definition Build :: "IsgEngine \<Rightarrow> TestSequence option" where
  "Build e =
     (let final_text = assembly_buffer e @ ''_mutable_end:'' @ newline @ ''; END MUTABLE'' @ newline
            @ ''; BEGIN PROTECTED'' @ newline;
          pc = CurrentPc e
      in if pc > 8188 then None
         else Some \<lparr>ts_prng_seed = prng_seed e,
                assembly_text = pad_nops pc final_text @ ''.word 0x08000073'' @ newline @ ''; END PROTECTED'' @ newline,
                trap_event = expected_trap e, ts_hazard_tags = hazard_tags e,
                expected_terminal_state = ''mpause'', ts_assertion_count = assertion_count e\<rparr>)"

text \<open>\<open>Finalize\<close> without the optional serialisation.\<close>

definition Finalize :: "TestSequence list \<Rightarrow> IsgEngine \<Rightarrow> TestSequence list option" where
  "Finalize db e = map_option (\<lambda>seq. db @ [seq]) (Build e)"

subsection \<open>Vector groups\<close>

fun GetLmulRatio :: "VectorLmul \<Rightarrow> rat" where
  "GetLmulRatio mf8 = 1 / 8" | "GetLmulRatio mf4 = 1 / 4" | "GetLmulRatio mf2 = 1 / 2" | "GetLmulRatio m1 = 1"
| "GetLmulRatio m2 = 2" | "GetLmulRatio m4 = 4" | "GetLmulRatio m8 = 8"

fun GetSewBits :: "VectorSew \<Rightarrow> rat" where
  "GetSewBits e8 = 8" | "GetSewBits e16 = 16" | "GetSewBits e32 = 32" | "GetSewBits e64 = 64"

text \<open>The quotient and product are exact as \<open>float\<close>. One call in sixteen returns \<open>m1\<close>.\<close>

definition CalculateEmul :: "VectorSew \<Rightarrow> VectorLmul \<Rightarrow> u32 \<Rightarrow> IsgEngine \<Rightarrow> (VectorLmul \<times> IsgEngine) option" where
  "CalculateEmul sew lmul eew e =
     (let emul_ratio = of_nat (unat eew) / GetSewBits sew * GetLmulRatio lmul; (r, e) = draw e
      in if r mod 16 = 0 then Some (m1, e)
         else if emul_ratio > 8 then map_option (\<lambda>e. (m8, e)) (EmitVsetvli ''zero'' ''zero'' e32 m8 True True e)
         else Some (if emul_ratio \<ge> 8 then m8 else if emul_ratio \<ge> 4 then m4 else if emul_ratio \<ge> 2 then m2
           else if emul_ratio \<ge> 1 then m1 else if emul_ratio \<ge> 1 / 2 then mf2 else if emul_ratio \<ge> 1 / 4 then mf4 else mf8, e))"

definition kVectorRegNames :: "u32 \<Rightarrow> string" where
  "kVectorRegNames n = CHR ''v'' # StrFormat_u n"

definition lmul_align :: "VectorLmul \<Rightarrow> u32" where
  "lmul_align lmul = (if lmul = m2 then 2 else if lmul = m4 then 4 else if lmul = m8 then 8 else 1)"

definition AlignVectorReg :: "string \<Rightarrow> VectorLmul \<Rightarrow> IsgEngine \<Rightarrow> string \<times> IsgEngine" where
  "AlignVectorReg reg_str lmul e =
     (if reg_str = [] \<or> hd reg_str \<noteq> CHR ''v'' then (reg_str, e)
      else case SimpleAtoi (tl reg_str) of None \<Rightarrow> (reg_str, e)
      | Some reg_num \<Rightarrow>
          let (r, e) = draw e;
              (reg_num, e) = (if r mod 16 = 0 then let (r, e) = draw e in (if r mod 2 = 0 then 0 else reg_num, e)
                              else (reg_num, e));
              align = lmul_align lmul;
              reg_num = (reg_num AND NOT (align - 1)) mod 32
          in (kVectorRegNames reg_num, e))"

definition emit_vector :: "string \<Rightarrow> string \<Rightarrow> string \<Rightarrow> string \<Rightarrow> bool \<Rightarrow> emitter" where
  "emit_vector mnemonic vd vs2 vs1 masked e =
     (let lmul = vst_lmul (vector_state e);
          (aligned_vd, e) = AlignVectorReg vd lmul e;
          (aligned_vs2, e) = AlignVectorReg vs2 lmul e;
          (aligned_vs1, e) = AlignVectorReg vs1 lmul e
      in EmitInstructionFormat (mnemonic @ '' '' @ aligned_vd @ '', '' @ aligned_vs2 @ '', '' @ aligned_vs1
           @ (if masked then '', v0.t'' else [])) e)"

definition EmitVadd :: "string \<Rightarrow> string \<Rightarrow> string \<Rightarrow> bool \<Rightarrow> emitter" where
  "EmitVadd = emit_vector ''vadd.vv''"

definition EmitVmul :: "string \<Rightarrow> string \<Rightarrow> string \<Rightarrow> bool \<Rightarrow> emitter" where
  "EmitVmul = emit_vector ''vmul.vv''"

definition EmitVsub :: "string \<Rightarrow> string \<Rightarrow> string \<Rightarrow> bool \<Rightarrow> emitter" where
  "EmitVsub = emit_vector ''vsub.vv''"

definition EmitVdiv :: "string \<Rightarrow> string \<Rightarrow> string \<Rightarrow> bool \<Rightarrow> emitter" where
  "EmitVdiv = emit_vector ''vdiv.vv''"

subsection \<open>Memory blocks\<close>

text \<open>The range of offsets of an access of \<open>offset_size\<close> bytes to a region.\<close>

definition region_mask :: "u32 \<Rightarrow> u32 \<Rightarrow> u32" where
  "region_mask len offset_size = (if len > offset_size then len - offset_size + 1 else 1)"

text \<open>\<open>lui\<close> and, when needed, \<open>addi\<close>.\<close>

definition load_constant :: "string \<Rightarrow> u32 \<Rightarrow> emitter list" where
  "load_constant reg val =
     EmitInstructionFormat (''lui '' @ reg @ '', 0x'' @ StrFormat_x (li_upper val))
     # (if li_lower val \<noteq> 0
        then [EmitInstructionFormat (''addi '' @ reg @ '', '' @ reg @ '', '' @ StrFormat_d (li_lower val))] else [])"

definition mask_emitters :: "u32 \<Rightarrow> emitter list" where
  "mask_emitters offset_size =
     (let r1_mask = region_mask kDefaultRwRegionLength offset_size;
            r2_mask = region_mask kDefaultRwRegion2Length offset_size;
            diff = r2_mask - r1_mask
        in map EmitInstruction [''addi sp, sp, -16'', ''sw t1, 0(sp)'', ''sw t2, 4(sp)'', ''sw t3, 8(sp)'', ''sw t5, 12(sp)'',
               ''srli t5, t6, 0x1d'', ''slli t5, t5, 0x1d'', ''lui t1, 0x20000'', ''and t5, t5, t1'', ''sltiu t1, t5, 1'', ''sub t3, zero, t1'']
             @ load_constant ''t2'' diff
             @ [EmitInstruction ''and t2, t2, t3'']
             @ load_constant ''t1'' r2_mask
             @ map EmitInstruction [''sub t2, t1, t2'', ''lui t1, 0x10'', ''and t1, t1, t3'', ''or t5, t5, t1'', ''sub t6, t6, t5'',
               ''sltiu t1, t2, 1'', ''add t2, t2, t1'', ''remu t6, t6, t2'']
             @ (if r1_mask > kReservedDtcmBytes
                then [EmitInstructionFormat (''sltiu t1, t6, '' @ StrFormat_u kReservedDtcmBytes),
                      EmitInstruction ''sub t1, zero, t1'', EmitInstruction ''and t1, t1, t3'',
                      EmitInstructionFormat (''addi t2, zero, '' @ StrFormat_u kReservedDtcmBytes),
                      EmitInstruction ''sub t2, t2, t6'', EmitInstruction ''and t2, t2, t1'', EmitInstruction ''add t6, t6, t2'']
                else [])
             @ map EmitInstruction [''add t6, t6, t5'', ''lw t1, 0(sp)'', ''lw t2, 4(sp)'', ''lw t3, 8(sp)'', ''lw t5, 12(sp)'',
               ''addi sp, sp, 16''])"

definition EmitDynamicMask :: "u32 \<Rightarrow> emitter" where
  "EmitDynamicMask offset_size e =
     (if \<not> strict_sandboxing e then Some e else emits (mask_emitters offset_size) e)"

definition EmitLoad :: "string \<Rightarrow> string \<Rightarrow> u32 \<Rightarrow> emitter" where
  "EmitLoad rd rs1 imm =
     (let scratch = (if rs1 = ''t6'' then ''t1'' else ''t6'')
      in emits (load_constant scratch imm
           @ [EmitInstructionFormat (''add t6, '' @ rs1 @ '', '' @ scratch), EmitDynamicMask 4,
              EmitInstructionFormat (''lw '' @ rd @ '', 0(t6)'')]))"

definition EmitStore :: "string \<Rightarrow> string \<Rightarrow> u32 \<Rightarrow> emitter" where
  "EmitStore rs2 rs1 imm =
     (let scratch = (if rs1 = ''t1'' \<or> rs2 = ''t1'' then (if rs1 = ''t2'' \<or> rs2 = ''t2'' then ''t3'' else ''t2'') else ''t1'')
      in emits [EmitInstructionFormat (''lui '' @ scratch @ '', 0x'' @ StrFormat_x (li_upper imm)),
           EmitInstructionFormat (''addi '' @ scratch @ '', '' @ scratch @ '', '' @ StrFormat_d (li_lower imm)),
           EmitInstructionFormat (''add t6, '' @ rs1 @ '', '' @ scratch),
           EmitInstructionFormat (''addi t4, '' @ rs2 @ '', 0''), EmitDynamicMask 4, EmitInstructionFormat ''sw t4, 0(t6)''])"

definition EmitVectorLoadStrided :: "string \<Rightarrow> string \<Rightarrow> string \<Rightarrow> emitter" where
  "EmitVectorLoadStrided vd rs1 rs2 = emits [
     EmitInstructionFormat (''andi t4, '' @ rs2 @ '', 0x7''), EmitInstructionFormat (''addi t6, '' @ rs1 @ '', 0''),
     EmitDynamicMask 2048,
     (\<lambda>e. case CalculateEmul (vst_sew (vector_state e)) (vst_lmul (vector_state e)) 32 e of None \<Rightarrow> None
       | Some (emul, e) \<Rightarrow> let (aligned_vd, e) = AlignVectorReg vd emul e
           in EmitInstructionFormat (''vlse32.v '' @ aligned_vd @ '', (t6), t4'') e)]"

definition EmitVectorLoadIndexed :: "string \<Rightarrow> string \<Rightarrow> string \<Rightarrow> emitter" where
  "EmitVectorLoadIndexed vd rs1 vs2 e =
     (case CalculateEmul (vst_sew (vector_state e)) (vst_lmul (vector_state e)) 32 e of None \<Rightarrow> None
      | Some (emul, e) \<Rightarrow>
          let (aligned_vd, e) = AlignVectorReg vd (vst_lmul (vector_state e)) e;
              (aligned_vs2, e) = AlignVectorReg vs2 emul e;
              (temp_vs2, e) = AlignVectorReg ''v31'' emul e;
              (temp_vs2, e) =
                (if temp_vs2 = aligned_vd \<or> temp_vs2 = aligned_vs2
                 then let (temp_vs2, e) = AlignVectorReg ''v15'' emul e
                      in if temp_vs2 = aligned_vd \<or> temp_vs2 = aligned_vs2 then AlignVectorReg ''v23'' emul e else (temp_vs2, e)
                 else (temp_vs2, e));
              scratch = (if rs1 = ''t1'' then ''t4'' else ''t1'')
          in emits [EmitInstructionFormat (''addi '' @ scratch @ '', zero, 0xFF''),
               EmitInstructionFormat (''vand.vx '' @ temp_vs2 @ '', '' @ aligned_vs2 @ '', '' @ scratch),
               EmitInstructionFormat (''addi t6, '' @ rs1 @ '', 0''), EmitDynamicMask 0x400,
               EmitInstructionFormat (''vloxei32.v '' @ aligned_vd @ '', (t6), '' @ temp_vs2)] e)"

end
