(* ===== verification/NPU_IsgPreamble.thy ===== *)
theory NPU_IsgPreamble
  imports NPU_IsgEmit
begin

text \<open>
  The preamble of every generated sequence (\<open>EmitPreamble\<close> of \<open>sim/isg/isg_engine.cc\<close>) and the hazard
  sequences of \<open>sim/isg/hazard_generator.cc\<close>.
\<close>

definition with_draw :: "(u64 \<Rightarrow> emitter) \<Rightarrow> emitter" where
  "with_draw f e = (let (r, e) = draw e in f r e)"

text \<open>An offset behind the reserved bytes of the data memory.\<close>

definition random_pointer :: "u64 \<Rightarrow> u32" where
  "random_pointer r = kDefaultRwRegionStart + kReservedDtcmBytes + ucast (r mod ucast (0x1000 - kReservedDtcmBytes))"

definition trap_handler :: emitter where
  "trap_handler = emits (map EmitInstruction [''jal zero, 0x70'',
      ''csrrw t0, mscratch, t0'', ''csrrw t0, mtval, t0'', ''lui t0, 0x10'', ''sw t1, 4(t0)'', ''sw t2, 8(t0)'',
      ''csrrs t1, mscratch, zero'', ''sw t1, 0(t0)'', ''csrrs t1, mtval, zero'', ''sw t1, 20(t0)'',
      ''csrrs t1, mcause, zero'', ''sw t1, 12(t0)'', ''csrrs t1, mepc, zero'', ''sw t1, 16(t0)'', ''lw t1, 12(t0)'', ''addi t2, zero, 3'']
    @ [\<lambda>e. EmitInstructionFormat (''beq t1, t2, '' @ StrFormat_alt_x (CurrentPc e + 20)) e]
    @ map EmitInstruction [''lui t1, 0x2'', ''addi t1, t1, -4'', ''csrw mepc, t1'']
    @ [\<lambda>e. EmitInstructionFormat (''jal zero, '' @ StrFormat_alt_x (CurrentPc e + 8)) e]
    @ map EmitInstruction [''ebreak'', ''lw t1, 20(t0)'', ''csrw mscratch, t1'', ''lw t1, 4(t0)'', ''lw t2, 8(t0)'', ''lw t0, 0(t0)'', ''mret''])"

text \<open>The loop that fills the data memory with the words of a xorshift generator.\<close>

definition fill_memory :: emitter where
  "fill_memory = emits [EmitLi ''t0'' kDefaultRwRegionStart,
     with_draw (\<lambda>r. let sv = ucast r :: u32; sv = (if sv = 0 then 1 else sv) in EmitLi ''t1'' sv),
     EmitLi ''t2'' 8192,
     (\<lambda>e. let loop_start_pc = CurrentPc e in emits (append_text (''1:'' @ newline)
        # map EmitInstruction [''sw t1, 0(t0)'', ''slli t3, t1, 0xd'', ''xor t1, t1, t3'', ''srli t3, t1, 0x11'', ''xor t1, t1, t3'',
            ''slli t3, t1, 0x5'', ''xor t1, t1, t3'', ''addi t0, t0, 4'', ''addi t2, t2, -1'']
        @ [EmitInstructionFormat (''bne t2, zero, 0x'' @ StrFormat_x loop_start_pc)]) e)]"

definition random_registers :: emitter where
  "random_registers = emits (map (\<lambda>i. with_draw (\<lambda>r. EmitLi (''x'' @ StrFormat_u (word_of_int i)) (ucast r))) [1..31])"

text \<open>The two calls of \<open>prng_()\<close> in one expression are taken from left to right.\<close>

definition random_csrs :: emitter where
  "random_csrs = emits [
     with_draw (\<lambda>a. with_draw (\<lambda>b. EmitInstructionFormat (''addi t0, zero, '' @ StrFormat_u (push_bit 5 (ucast (a mod 5)) OR ucast (b mod 32))))),
     EmitInstruction ''csrw fcsr, t0'',
     with_draw (\<lambda>r. EmitLi ''t0'' (ucast r)), EmitInstruction ''csrw mscratch, t0'',
     with_draw (\<lambda>r. EmitLi ''t0'' (ucast r)), EmitInstruction ''csrw mepc, t0'',
     with_draw (\<lambda>r. EmitLi ''t0'' (ucast r)), EmitInstruction ''csrw mcause, t0'',
     with_draw (\<lambda>r. EmitInstructionFormat (''addi t0, zero, '' @ StrFormat_u (ucast (r mod 4)))), EmitInstruction ''csrw vxrm, t0'',
     with_draw (\<lambda>r. EmitInstructionFormat (''addi t0, zero, '' @ StrFormat_u (ucast (r mod 2)))), EmitInstruction ''csrw vxsat, t0'',
     EmitInstruction ''csrw vstart, zero'']"

definition random_fp_registers :: emitter where
  "random_fp_registers = emits (concat (map (\<lambda>i. [with_draw (\<lambda>r. EmitLi ''t0'' (ucast r)),
     EmitInstructionFormat (''mv.w.x f'' @ StrFormat_u (word_of_int i) @ '', t0'')]) [0..31]))"

definition load_vector_registers :: emitter where
  "load_vector_registers = emits ([
     (\<lambda>e. Some (e\<lparr>vector_state := (vector_state e)\<lparr>vst_sew := e8, vst_lmul := m8, configured := False, vst_vl := 0\<rparr>\<rparr>)),
     EmitLi ''t0'' (kDefaultRwRegionStart + kReservedDtcmBytes)]
     @ concat (map (\<lambda>i. [EmitInstructionFormat (''vle8.v v'' @ StrFormat_u (word_of_int i) @ '',(t0)''), EmitInstruction ''addi t0, t0, 1024''])
         [0, 8, 16, 24]))"

definition EmitPreamble :: emitter where
  "EmitPreamble = emits ([
     append_text (''; BEGIN PROTECTED'' @ newline @ ''.text'' @ newline @ ''.global _start'' @ newline @ ''_start:'' @ newline),
     trap_handler, SetupTrapHandler 0x4, fill_memory,
     EmitLi ''t0'' 0x6600, EmitInstruction ''csrw mstatus, t0'',
     random_registers, random_csrs, random_fp_registers, load_vector_registers]
     @ map (\<lambda>reg. with_draw (\<lambda>r. EmitLi reg (random_pointer r))) [''t0'', ''t1'', ''t2'', ''t3'']
     @ [EmitLi ''sp'' (kDefaultRwRegionStart + kDefaultRwRegionLength),
        append_text (''; END PROTECTED'' @ newline @ ''; BEGIN MUTABLE'' @ newline @ ''_mutable_start:'' @ newline)])"

subsection \<open>Hazards\<close>

text \<open>\<open>(prng() % n) + 1\<close>, and a register name.\<close>

definition one_of :: "u64 \<Rightarrow> u64 \<Rightarrow> u32" where
  "one_of n r = ucast (r mod n) + 1"

definition nops :: "u32 \<Rightarrow> emitter" where
  "nops n = emits (replicate (unat n) (EmitInstruction ''addi x0, x0, 0''))"

definition GenerateDataHazard :: emitter where
  "GenerateDataHazard =
     with_draw (\<lambda>w. with_draw (\<lambda>r1. with_draw (\<lambda>r2. with_draw (\<lambda>d. with_draw (\<lambda>k. with_draw (\<lambda>t. with_draw (\<lambda>a. with_draw (\<lambda>k'.
       let reg_write = kVectorRegNames (one_of 31 w); reg_read1 = kVectorRegNames (one_of 31 r1);
           reg_read2 = kVectorRegNames (one_of 31 r2); dest = kVectorRegNames (one_of 31 d);
           dist = ucast (k mod 5); ta = (t mod 2 = 0); ma = (a mod 2 = 0); masked = (k' mod 2 = 0)
       in emits [EmitVsetvli ''t2'' ''zero'' e8 m1 ta ma, EmitVadd reg_write reg_read1 reg_read2 masked,
            nops dist, EmitVsub dest reg_write reg_read1 masked]))))))))"

definition GenerateControlHazard :: emitter where
  "GenerateControlHazard = with_draw (\<lambda>r. let dist = one_of 4 r in emits [
     EmitInstruction ''addi t0, zero, 2'', EmitInstruction ''addi t1, zero, 0'',
     (\<lambda>e. let beq_pc = CurrentPc e in emits [
        EmitInstructionFormat (''beq t0, t1, 0x'' @ StrFormat_x (beq_pc + dist * 4 + 12)),
        nops dist, EmitInstruction ''addi t0, t0, -1'',
        EmitInstructionFormat (''bne t0, t1, 0x'' @ StrFormat_x beq_pc)] e)])"

definition GenerateStructuralHazard :: emitter where
  "GenerateStructuralHazard = with_draw (\<lambda>n. emits [EmitVsetvli ''t2'' ''zero'' e32 m8 True True,
     with_draw (\<lambda>b. let iters = ucast (n mod 3) + 2 :: u32; base_reg = ucast (b mod 4) * 8 :: u32;
          vd = kVectorRegNames base_reg; vs2 = kVectorRegNames ((base_reg + 8) mod 32);
          vs1 = kVectorRegNames ((base_reg + 16) mod 32); vs2_div = kVectorRegNames ((base_reg + 24) mod 32)
        in emits (replicate (unat iters) (EmitVmul vd vs2 vs1 False) @ [EmitVdiv vs2 vs2_div vd False]))])"

definition GenerateEdgeCaseOperands :: emitter where
  "GenerateEdgeCaseOperands = emits [
     EmitInstruction ''addi t0, zero, -1'', EmitInstruction ''lui t2, 0x80000'', EmitInstruction ''div t4, t2, t0'',
     EmitInstructionFormat (''lui t5, 0x'' @ StrFormat_x (drop_bit 12 kDefaultRwRegionStart)),
     EmitLoad ''t6'' ''t5'' 25,
     EmitInstruction ''addi t1, zero, 0'', EmitInstruction ''div t4, t2, t1'']"

text \<open>
  \<open>decode\<close> is the decoder on the word stored at address 0: the disassembly of the instruction, or
  \<open>None\<close> for \<open>OpcodeEnum::kNone\<close>. Both loop bounds are in the fuel \<open>attempts\<close>, counted down, and
  \<open>generated\<close>.
\<close>

definition trim_disasm :: "string \<Rightarrow> string" where
  "trim_disasm t = rev (dropWhile (\<lambda>c. c = CHR '' '' \<or> c = CHR '','') (rev t))"

fun random_instructions :: "(u32 \<Rightarrow> string option) \<Rightarrow> nat \<Rightarrow> nat \<Rightarrow> emitter" where
  "random_instructions decode generated 0 e = Some e"
| "random_instructions decode generated (Suc attempts) e =
     (if generated < 1000 then
        let (r, e) = draw e in
        case decode (ucast r) of
          None \<Rightarrow> random_instructions decode generated attempts e
        | Some disasm \<Rightarrow>
            (case EmitInstruction (trim_disasm disasm) e of None \<Rightarrow> None
             | Some e \<Rightarrow> random_instructions decode (generated + 1) attempts e)
      else Some e)"

definition GenerateRandomInstructions :: "(u32 \<Rightarrow> string option) \<Rightarrow> emitter" where
  "GenerateRandomInstructions decode = random_instructions decode 0 1000000"

end
