(* ===== verification/NPU_Rv32.thy ===== *)
theory NPU_Rv32
  imports NPU_IsgPreamble NPU_V2Props NPU_StateProps
begin

text \<open>
  The meaning of generated assembly text: a reader for the lines the engine writes and a machine that
  executes the integer instructions of RV32IM as the RISC-V manual defines them, with the memory
  protection of the second core for loads and stores.
\<close>

declare digits.simps [simp del]

subsection \<open>Instructions\<close>

datatype rv_inst =
    LUI nat u32 | ADDI nat nat u32 | ANDI nat nat u32 | SLTIU nat nat u32 | SLLI nat nat nat | SRLI nat nat nat
  | ADD nat nat nat | SUB nat nat nat | AND' nat nat nat | OR' nat nat nat | XOR' nat nat nat | REMU nat nat nat
  | LW nat u32 nat | SW nat u32 nat | BEQ nat nat u32 | BNE nat nat u32

definition abi_names :: "string list" where
  "abi_names = [''zero'', ''ra'', ''sp'', ''gp'', ''tp'', ''t0'', ''t1'', ''t2'', ''s0'', ''s1'', ''a0'', ''a1'', ''a2'', ''a3'', ''a4'', ''a5'',
     ''a6'', ''a7'', ''s2'', ''s3'', ''s4'', ''s5'', ''s6'', ''s7'', ''s8'', ''s9'', ''s10'', ''s11'', ''t3'', ''t4'', ''t5'', ''t6'']"

fun index_in :: "'a \<Rightarrow> 'a list \<Rightarrow> nat option" where
  "index_in x [] = None"
| "index_in x (y # ys) = (if x = y then Some 0 else map_option Suc (index_in x ys))"

definition x_names :: "string list" where
  "x_names = [''x0'', ''x1'', ''x2'', ''x3'', ''x4'', ''x5'', ''x6'', ''x7'', ''x8'', ''x9'', ''x10'', ''x11'', ''x12'', ''x13'', ''x14'', ''x15'', ''x16'', ''x17'', ''x18'', ''x19'', ''x20'', ''x21'', ''x22'', ''x23'', ''x24'', ''x25'', ''x26'', ''x27'', ''x28'', ''x29'', ''x30'', ''x31'']"

definition abi_number :: "string \<Rightarrow> nat option" where
  "abi_number t = index_in t abi_names"

definition reg_number :: "string \<Rightarrow> nat option" where
  "reg_number t = (case abi_number t of None \<Rightarrow> index_in t x_names | Some r \<Rightarrow> Some r)"

definition is_separator :: "char \<Rightarrow> bool" where
  "is_separator c = (c = CHR '' '' \<or> c = CHR '','' \<or> c = CHR ''('' \<or> c = CHR '')'')"

definition tokens :: "string \<Rightarrow> string list" where
  "tokens t = filter (\<lambda>x. x \<noteq> []) (split_on is_separator t)"

definition number :: "string \<Rightarrow> u32" where
  "number t = (if take 2 t = ''0x'' then of_nat (parse_digits 16 (drop 2 t)) else word_of_int (parse_int t))"

text \<open>Immediates must be encodable: 20 bits for \<open>lui\<close>, 12 signed bits otherwise, 5 bits for shifts.\<close>

definition imm12 :: "u32 \<Rightarrow> bool" where
  "imm12 i \<longleftrightarrow> - 2048 \<le> sint i \<and> sint i < 2048"

definition encodable :: "rv_inst \<Rightarrow> bool" where
  "encodable inst = (case inst of
     LUI rd i \<Rightarrow> i < 2 ^ 20 | ADDI rd r i \<Rightarrow> imm12 i | ANDI rd r i \<Rightarrow> imm12 i | SLTIU rd r i \<Rightarrow> imm12 i
   | SLLI rd r i \<Rightarrow> i < 32 | SRLI rd r i \<Rightarrow> i < 32 | LW rd i r \<Rightarrow> imm12 i | SW rs i r \<Rightarrow> imm12 i | _ \<Rightarrow> True)"

definition read_reg3 :: "string \<Rightarrow> nat \<Rightarrow> nat \<Rightarrow> nat \<Rightarrow> rv_inst option" where
  "read_reg3 m rd r1 r2 =
     (if m = ''add'' then Some (ADD rd r1 r2) else if m = ''sub'' then Some (SUB rd r1 r2)
      else if m = ''and'' then Some (AND' rd r1 r2) else if m = ''or'' then Some (OR' rd r1 r2)
      else if m = ''xor'' then Some (XOR' rd r1 r2) else if m = ''remu'' then Some (REMU rd r1 r2) else None)"

definition read_inst :: "string list \<Rightarrow> rv_inst option" where
  "read_inst ts = (case ts of
     [m, a, b] \<Rightarrow> (case reg_number a of None \<Rightarrow> None | Some rd \<Rightarrow>
        if m = ''lui'' then Some (LUI rd (number b)) else None)
   | [m, a, b, c] \<Rightarrow> (case reg_number a of None \<Rightarrow> None | Some rd \<Rightarrow>
        if m = ''lw'' then map_option (\<lambda>r. LW rd (number b) r) (reg_number c)
        else if m = ''sw'' then map_option (\<lambda>r. SW rd (number b) r) (reg_number c)
        else (case reg_number b of None \<Rightarrow> None | Some r1 \<Rightarrow>
          if m = ''addi'' then Some (ADDI rd r1 (number c)) else if m = ''andi'' then Some (ANDI rd r1 (number c))
          else if m = ''sltiu'' then Some (SLTIU rd r1 (number c))
          else if m = ''slli'' then Some (SLLI rd r1 (unat (number c))) else if m = ''srli'' then Some (SRLI rd r1 (unat (number c)))
          else if m = ''beq'' then Some (BEQ rd r1 (number c)) else if m = ''bne'' then Some (BNE rd r1 (number c))
          else Option.bind (reg_number c) (read_reg3 m rd r1)))
   | _ \<Rightarrow> None)"

definition read_line :: "string \<Rightarrow> rv_inst option" where
  "read_line l = (case read_inst (tokens l) of None \<Rightarrow> None | Some i \<Rightarrow> if encodable i then Some i else None)"

subsection \<open>The machine\<close>

record rv =
  rv_reg :: "nat \<Rightarrow> u32"
  rv_mem :: "u32 \<Rightarrow> u8"

definition rget :: "rv \<Rightarrow> nat \<Rightarrow> u32" where
  "rget s r = (if r = 0 then 0 else rv_reg s r)"

definition set_reg :: "nat \<Rightarrow> u32 \<Rightarrow> rv \<Rightarrow> rv" where
  "set_reg r v s = (if r = 0 then s else s\<lparr>rv_reg := (rv_reg s)(r := v)\<rparr>)"

definition load32 :: "(u32 \<Rightarrow> u8) \<Rightarrow> u32 \<Rightarrow> u32" where
  "load32 m a = from_bytes (map (\<lambda>k. m (a + of_nat k)) [0..<4])"

definition store32 :: "u32 \<Rightarrow> u32 \<Rightarrow> (u32 \<Rightarrow> u8) \<Rightarrow> u32 \<Rightarrow> u8" where
  "store32 a v m = (\<lambda>x. if x - a < 4 then to_bytes v ! unat (x - a) else m x)"

fun exec_inst :: "CoralNPUV2State \<Rightarrow> rv_inst \<Rightarrow> rv \<Rightarrow> rv option" where
  "exec_inst S (LUI rd i) s = Some (set_reg rd (push_bit 12 i) s)"
| "exec_inst S (ADDI rd r i) s = Some (set_reg rd (rget s r + i) s)"
| "exec_inst S (ANDI rd r i) s = Some (set_reg rd (rget s r AND i) s)"
| "exec_inst S (SLTIU rd r i) s = Some (set_reg rd (if rget s r < i then 1 else 0) s)"
| "exec_inst S (SLLI rd r i) s = Some (set_reg rd (push_bit i (rget s r)) s)"
| "exec_inst S (SRLI rd r i) s = Some (set_reg rd (drop_bit i (rget s r)) s)"
| "exec_inst S (ADD rd r1 r2) s = Some (set_reg rd (rget s r1 + rget s r2) s)"
| "exec_inst S (SUB rd r1 r2) s = Some (set_reg rd (rget s r1 - rget s r2) s)"
| "exec_inst S (AND' rd r1 r2) s = Some (set_reg rd (rget s r1 AND rget s r2) s)"
| "exec_inst S (OR' rd r1 r2) s = Some (set_reg rd (rget s r1 OR rget s r2) s)"
| "exec_inst S (XOR' rd r1 r2) s = Some (set_reg rd (rget s r1 XOR rget s r2) s)"
| "exec_inst S (REMU rd r1 r2) s = Some (set_reg rd (rget s r1 mod rget s r2) s)"
| "exec_inst S (LW rd i r) s =
     (if HasPermission (rget s r + i) 4 kRead S then Some (set_reg rd (load32 (rv_mem s) (rget s r + i)) s) else None)"
| "exec_inst S (SW rs i r) s =
     (if HasPermission (rget s r + i) 4 kWrite S then Some (s\<lparr>rv_mem := store32 (rget s r + i) (rget s rs) (rv_mem s)\<rparr>) else None)"
| "exec_inst S _ s = None"

fun exec_insts :: "CoralNPUV2State \<Rightarrow> rv_inst list \<Rightarrow> rv \<Rightarrow> rv option" where
  "exec_insts S [] s = Some s"
| "exec_insts S (i # is) s = (case exec_inst S i s of None \<Rightarrow> None | Some s \<Rightarrow> exec_insts S is s)"

fun read_lines :: "string list \<Rightarrow> rv_inst list option" where
  "read_lines [] = Some []"
| "read_lines (l # ls) = (case read_line l of None \<Rightarrow> None | Some i \<Rightarrow> map_option (Cons i) (read_lines ls))"

text \<open>A program at an address. Branch targets are absolute addresses, as the assembler reads them.\<close>

definition step_at :: "CoralNPUV2State \<Rightarrow> u32 \<Rightarrow> rv_inst list \<Rightarrow> u32 \<times> rv \<Rightarrow> (u32 \<times> rv) option" where
  "step_at S base is = (\<lambda>(pc, s). let k = unat (pc - base) div 4 in
     if k < length is then
       (case is ! k of
          BEQ a b target \<Rightarrow> Some (if rget s a = rget s b then target else pc + 4, s)
        | BNE a b target \<Rightarrow> Some (if rget s a \<noteq> rget s b then target else pc + 4, s)
        | i \<Rightarrow> map_option (Pair (pc + 4)) (exec_inst S i s))
     else None)"

fun steps :: "CoralNPUV2State \<Rightarrow> u32 \<Rightarrow> rv_inst list \<Rightarrow> nat \<Rightarrow> u32 \<times> rv \<Rightarrow> (u32 \<times> rv) option" where
  "steps S base is 0 c = Some c"
| "steps S base is (Suc n) c = (case step_at S base is c of None \<Rightarrow> None | Some c \<Rightarrow> steps S base is n c)"

text \<open>Running a piece of text from its first to its last line.\<close>

definition run_lines :: "CoralNPUV2State \<Rightarrow> string list \<Rightarrow> rv \<Rightarrow> rv option" where
  "run_lines S ls s = (case read_lines ls of None \<Rightarrow> None | Some is \<Rightarrow> exec_insts S is s)"

lemma exec_insts_append: "exec_insts S (is @ js) s = (case exec_insts S is s of None \<Rightarrow> None | Some s \<Rightarrow> exec_insts S js s)"
  by (induction "is" arbitrary: s) (auto split: option.split)

lemma read_lines_append: "read_lines (ls @ ms) = (case read_lines ls of None \<Rightarrow> None
    | Some is \<Rightarrow> (case read_lines ms of None \<Rightarrow> None | Some js \<Rightarrow> Some (is @ js)))"
  by (induction ls) (auto split: option.split)

lemma run_lines_append: "read_lines ms \<noteq> None \<Longrightarrow> run_lines S (ls @ ms) s = (case run_lines S ls s of None \<Rightarrow> None | Some s \<Rightarrow> run_lines S ms s)"
  by (auto simp: run_lines_def read_lines_append exec_insts_append split: option.split)

subsection \<open>Reading lines\<close>

lemma split_on_plain: "list_all (\<lambda>c. \<not> sep c) t \<Longrightarrow> split_on sep t = [t]"
  by (induction t) auto

lemma split_on_append: "list_all (\<lambda>c. \<not> sep c) t \<Longrightarrow> sep c \<Longrightarrow> split_on sep (t @ c # u) = t # split_on sep u"
  by (induction t) auto

definition word_token :: "string \<Rightarrow> bool" where
  "word_token t \<longleftrightarrow> t \<noteq> [] \<and> list_all (\<lambda>c. \<not> is_separator c) t"

lemma tokens_word: "word_token t \<Longrightarrow> tokens t = [t]"
  by (simp add: tokens_def word_token_def split_on_plain)

lemma tokens_append: "word_token t \<Longrightarrow> is_separator c \<Longrightarrow> tokens (t @ c # u) = t # tokens u"
  by (simp add: tokens_def word_token_def split_on_append)

lemma tokens_separator: "is_separator c \<Longrightarrow> tokens (c # u) = tokens u"
  by (simp add: tokens_def)

lemma is_separator_simps [simp]:
  "is_separator CHR '' ''" "is_separator CHR '',''" "is_separator CHR ''(''" "is_separator CHR '')''"
  by (simp_all add: is_separator_def)

lemma digit_char_plain: "d < 16 \<Longrightarrow> \<not> is_separator (digit_char d) \<and> digit_char d \<noteq> CHR ''x''"
  unfolding is_separator_def digit_char_def
  by (cases "d < 10") (simp_all add: of_char_eq_iff [symmetric, where 'a = nat] del: of_char_eq_iff)

lemma digits_plain: "2 \<le> base \<Longrightarrow> base \<le> 16 \<Longrightarrow> list_all (\<lambda>c. \<not> is_separator c \<and> c \<noteq> CHR ''x'') (digits base n)"
proof (induction n rule: less_induct)
  case (less n)
  have "n mod base < 16" using less.prems by (meson le_trans less_le_trans mod_less_divisor pos2)
  moreover have "list_all (\<lambda>c. \<not> is_separator c \<and> c \<noteq> CHR ''x'') (digits base (n div base))" if "\<not> n < base"
    using that less.prems by (intro less.IH div_less_dividend) auto
  ultimately show ?case using less.prems by (subst digits.simps) (simp add: digit_char_plain)
qed

lemma digits_separator: "2 \<le> base \<Longrightarrow> base \<le> 16 \<Longrightarrow> list_all (\<lambda>c. \<not> is_separator c) (digits base n)"
  using digits_plain [of base n] by (simp add: list_all_iff)

lemma word_token_numbers: "word_token (StrFormat_x w)" "word_token (StrFormat_d w)" "word_token (StrFormat_u w)"
proof -
  have d: "word_token (digits base n)" if "2 \<le> base" "base \<le> 16" for base n
    using that by (simp add: word_token_def digits_nonempty digits_separator)
  show "word_token (StrFormat_x w)" "word_token (StrFormat_u w)" unfolding StrFormat_x_def StrFormat_u_def by (rule d; simp)+
  have "word_token (CHR ''-'' # digits 10 n)" for n
    using d [of 10 n] by (simp add: word_token_def is_separator_def)
  then show "word_token (StrFormat_d w)" using d [of 10] by (simp add: StrFormat_d_def)
qed

lemma number_x: "number (''0x'' @ StrFormat_x w) = w"
  using formats_round_trip [of w] by (simp add: number_def)

lemma no_hex_prefix: "CHR ''x'' \<notin> set t \<Longrightarrow> take 2 t \<noteq> ''0x''"
  by (metis in_set_takeD list.set_intros)

lemma number_d: "number (StrFormat_d w) = w"
proof -
  have "CHR ''x'' \<notin> set (digits 10 n)" for n using digits_plain [of 10 n] by (auto simp: list_all_iff)
  then have "take 2 (StrFormat_d w) \<noteq> ''0x''" by (intro no_hex_prefix) (simp add: StrFormat_d_def)
  then show ?thesis using formats_round_trip [of w] by (simp add: number_def)
qed

end
