(* ===== verification/NPU_IsgProps.thy ===== *)
theory NPU_IsgProps
  imports NPU_Rv32
begin

text \<open>
  What the emitters write, as lists of lines, and what those lines do when they run: constants are
  loaded exactly and the address masking keeps every access inside its region.
\<close>

subsection \<open>Lines written\<close>

definition unlines :: "string list \<Rightarrow> string" where
  "unlines ls = concat (map (\<lambda>l. l @ newline) ls)"

lemma unlines_append: "unlines (ls @ ms) = unlines ls @ unlines ms"
  by (simp add: unlines_def)

text \<open>
  An emitter writes given lines in the sandboxed mode: whenever it succeeds these lines are appended and
  the watchdog counts them, and it succeeds as long as the lines fit the buffer and the watchdog.
\<close>

definition ready :: "IsgEngine \<Rightarrow> bool" where
  "ready e \<longleftrightarrow> strict_sandboxing e \<and> max_iterations (watchdog e) = 8000 \<and> unat (current_iterations (watchdog e)) \<le> 8000"

definition has_room :: "string list \<Rightarrow> IsgEngine \<Rightarrow> bool" where
  "has_room ls e \<longleftrightarrow> unat (current_iterations (watchdog e)) + length ls \<le> 8000
     \<and> length (assembly_buffer e) + length (unlines ls) < kAssemblyBufferSize"

definition after :: "string list \<Rightarrow> IsgEngine \<Rightarrow> IsgEngine \<Rightarrow> bool" where
  "after ls e e' \<longleftrightarrow> assembly_buffer e' = assembly_buffer e @ unlines ls \<and> ready e'
     \<and> unat (current_iterations (watchdog e')) = unat (current_iterations (watchdog e)) + length ls"

definition writes :: "emitter \<Rightarrow> string list \<Rightarrow> bool" where
  "writes f ls \<longleftrightarrow> (\<forall>e. ready e \<longrightarrow> (\<forall>e'. f e = Some e' \<longrightarrow> after ls e e') \<and> (has_room ls e \<longrightarrow> f e \<noteq> None))"

lemma writesI:
  assumes "\<And>e e'. ready e \<Longrightarrow> f e = Some e' \<Longrightarrow> after ls e e'" "\<And>e. ready e \<Longrightarrow> has_room ls e \<Longrightarrow> f e \<noteq> None"
  shows "writes f ls"
  unfolding writes_def using assms by blast

lemma writesD:
  assumes "writes f ls" "ready e" "f e = Some e'"
  shows "after ls e e'"
  using assms unfolding writes_def by blast

lemma writes_succeeds: "writes f ls \<Longrightarrow> ready e \<Longrightarrow> has_room ls e \<Longrightarrow> \<exists>e'. f e = Some e'"
  unfolding writes_def by (cases "f e") blast+

lemma after_trans: "after ls e e1 \<Longrightarrow> after ms e1 e' \<Longrightarrow> after (ls @ ms) e e'"
  by (simp add: after_def unlines_append)

lemma room_append: "has_room (ls @ ms) e \<Longrightarrow> has_room ls e"
  by (simp add: has_room_def unlines_append)

lemma room_after: "has_room (ls @ ms) e \<Longrightarrow> after ls e e1 \<Longrightarrow> has_room ms e1"
  by (simp add: has_room_def after_def unlines_append)

lemma after_ready: "after ls e e' \<Longrightarrow> ready e'"
  by (simp add: after_def)

lemma writes_Nil: "writes (emits []) []"
  by (rule writesI) (simp_all add: unlines_def after_def)

lemma writes_sequence:
  assumes w: "writes f ls" "writes g ms" and h: "\<And>e. h e = (case f e of None \<Rightarrow> None | Some e \<Rightarrow> g e)"
  shows "writes h (ls @ ms)"
proof (rule writesI)
  fix e e' assume e: "ready e" "h e = Some e'"
  then obtain e1 where e1: "f e = Some e1" "g e1 = Some e'" by (auto simp: h split: option.splits)
  note a = writesD [OF w(1) e(1) e1(1)]
  show "after (ls @ ms) e e'" by (rule after_trans [OF a writesD [OF w(2) after_ready [OF a] e1(2)]])
next
  fix e assume e: "ready e" "has_room (ls @ ms) e"
  from writes_succeeds [OF w(1) e(1) room_append [OF e(2)]] obtain e1 where e1: "f e = Some e1" by blast
  note a = writesD [OF w(1) e(1) e1]
  show "h e \<noteq> None" using writes_succeeds [OF w(2) after_ready [OF a] room_after [OF e(2) a]] e1 by (auto simp: h)
qed

lemma writes_Cons: "writes f ls \<Longrightarrow> writes (emits fs) ms \<Longrightarrow> writes (emits (f # fs)) (ls @ ms)"
  by (erule writes_sequence) simp_all

lemma emits_append: "emits (fs @ gs) e = (case emits fs e of None \<Rightarrow> None | Some e \<Rightarrow> emits gs e)"
  by (induction fs arbitrary: e) (auto split: option.split)

lemma writes_append: "writes (emits fs) ls \<Longrightarrow> writes (emits gs) ms \<Longrightarrow> writes (emits (fs @ gs)) (ls @ ms)"
  by (erule writes_sequence) (simp_all add: emits_append)

text \<open>Lines that are no vector instructions.\<close>

definition scalar_line :: "string \<Rightarrow> bool" where
  "scalar_line l \<longleftrightarrow> l \<noteq> [] \<and> \<not> is_space (hd l) \<and> hd l \<noteq> CHR ''v''"

lemma hd_strip: "l \<noteq> [] \<Longrightarrow> \<not> is_space (hd l) \<Longrightarrow> \<exists>t. StripAsciiWhitespace l = hd l # t"
proof (cases l)
  case (Cons c t)
  assume "\<not> is_space (hd l)"
  then have "dropWhile is_space l = l" using Cons by simp
  moreover have "dropWhile is_space (rev t @ [c]) \<noteq> []" "last (dropWhile is_space (rev t @ [c])) = c"
    using \<open>\<not> is_space (hd l)\<close> Cons by (auto simp: dropWhile_append)
  ultimately show ?thesis using Cons unfolding StripAsciiWhitespace_def
    by (metis hd_rev list.exhaust_sel list.sel(1) rev.simps(2) rev_is_Nil_conv)
qed simp

lemma scalar_strip:
  assumes "scalar_line l"
  shows "\<not> is_vset (StripAsciiWhitespace l)" "\<not> is_vector (StripAsciiWhitespace l)"
proof -
  obtain t where t: "StripAsciiWhitespace l = hd l # t" "hd l \<noteq> CHR ''v''" using hd_strip assms by (auto simp: scalar_line_def)
  show "\<not> is_vset (StripAsciiWhitespace l)" "\<not> is_vector (StripAsciiWhitespace l)"
    using t by (simp_all add: is_vset_def is_vector_def)
qed

lemma emit_format_scalar:
  assumes "scalar_line l"
  shows "emit_format sp l e = (case check_tick e of None \<Rightarrow> None | Some e \<Rightarrow>
    if fits_buffer l e then emits [append_text l, append_text newline] e else None)"
  using scalar_strip [OF assms] by (simp add: emit_format_def Let_def split: option.split)

lemma check_tick_ready:
  assumes "ready e"
  shows "check_tick e = (if unat (current_iterations (watchdog e)) < 8000
    then Some (e\<lparr>watchdog := (watchdog e)\<lparr>current_iterations := current_iterations (watchdog e) + 1\<rparr>\<rparr>) else None)"
    and "unat (current_iterations (watchdog e) + 1) = unat (current_iterations (watchdog e)) + 1"
proof -
  have u: "unat (current_iterations (watchdog e)) \<le> 8000" "max_iterations (watchdog e) = 8000" using assms by (simp_all add: ready_def)
  then show c: "unat (current_iterations (watchdog e) + 1) = unat (current_iterations (watchdog e)) + 1" by (simp add: unat_word_ariths)
  show "check_tick e = (if unat (current_iterations (watchdog e)) < 8000
    then Some (e\<lparr>watchdog := (watchdog e)\<lparr>current_iterations := current_iterations (watchdog e) + 1\<rparr>\<rparr>) else None)"
    using u c by (simp add: check_tick_def Tick_def Let_def word_less_nat_alt not_less)
qed

lemma writes_ticked:
  assumes "\<And>e. f e = (case check_tick e of None \<Rightarrow> None | Some e \<Rightarrow> append_text (l @ newline) e)"
  shows "writes f [l]"
proof (rule writesI)
  fix e e' assume e: "ready e" "f e = Some e'"
  then show "after [l] e e'" using check_tick_ready [OF e(1)]
    by (auto simp: assms append_text_def after_def unlines_def ready_def split: if_splits)
next
  fix e assume e: "ready e" "has_room [l] e"
  then show "f e \<noteq> None" using check_tick_ready [OF e(1)]
    by (auto simp: assms append_text_def has_room_def unlines_def fits_buffer_def)
qed

lemma two_appends: "(if fits_buffer t e then emits [append_text t, append_text newline] e else None) = append_text (t @ newline) e"
  by (auto simp: append_text_def fits_buffer_def)

lemma writes_format:
  assumes "scalar_line l"
  shows "writes (EmitInstructionFormat l) [l]" and "writes (EmitInstruction l) [l]"
proof -
  show "writes (EmitInstructionFormat l) [l]"
    unfolding EmitInstructionFormat_def
    by (rule writes_ticked) (simp only: emit_format_scalar [OF assms] two_appends)
  show "writes (EmitInstruction l) [l]"
    unfolding EmitInstruction_def
    by (rule writes_ticked) (use scalar_strip [OF assms] in \<open>simp add: emit_instruction_def Let_def cong: option.case_cong\<close>)
qed

lemma writes_instructions: "list_all scalar_line ls \<Longrightarrow> writes (emits (map EmitInstruction ls)) ls"
proof (induction ls)
  case (Cons l ls)
  then show ?case using writes_Cons [OF writes_format(2) [of l], of "map EmitInstruction ls" ls] by (simp del: emits.simps)
qed (simp only: list.map writes_Nil)

text \<open>The recursion of the emitters is cut off after one level without changing anything.\<close>

lemma safe_pointers_recursion: "safe_pointers = EmitSafePointerInit [''t2'', ''t3'']"
proof -
  have s: "scalar_line (''lui '' @ x)" "scalar_line (''addi '' @ x)" for x by (simp_all add: scalar_line_def is_space_def)
  have f: "emit_format (\<lambda>e. None) l = emit_format safe_pointers l" if "scalar_line l" for l
    by (rule ext) (simp only: emit_format_scalar [OF that])
  have "emit_li (emit_format (\<lambda>e. None)) = emit_li (emit_format safe_pointers)"
    unfolding emit_li_def f [OF s(1)] f [OF s(2)] by (rule refl)
  then have "emit_safe_pointers (emit_format (\<lambda>e. None)) regs e = emit_safe_pointers (emit_format safe_pointers) regs e" for regs e
    by (induction regs arbitrary: e) (simp_all add: Let_def split: prod.split option.split)
  then have "emit_safe_pointers (emit_format (\<lambda>e. None)) [''t2'', ''t3''] = EmitSafePointerInit [''t2'', ''t3'']"
    unfolding EmitSafePointerInit_def EmitInstructionFormat_def by (intro ext)
  then show ?thesis by (simp only: safe_pointers_def)
qed

subsection \<open>Constants\<close>

lemma li_sum: "push_bit 12 (li_upper val) + li_lower val = val"
  by (simp add: li_lower_def)

lemma li_upper_less: "li_upper val < 2 ^ 20"
proof -
  have "unat (val + 0x800) < 2 ^ 20 * 2 ^ 12" using unsigned_less [of "val + 0x800", where 'a = nat] by simp
  then have "unat (val + 0x800) div 2 ^ 12 < 2 ^ 20" by (rule less_mult_imp_div_less)
  then show ?thesis by (simp add: li_upper_def word_less_nat_alt drop_bit_eq_div unat_div)
qed

lemma li_lower_imm12: "imm12 (li_lower val)"
proof -
  define t where "t = take_bit 12 (val + 0x800)"
  have "li_lower val = t - 0x800"
    unfolding li_lower_def li_upper_def t_def using bits_ident [of 12 "val + 0x800"] by (simp add: algebra_simps)
  also have "t - 0x800 = word_of_int (uint t - 2048)" by simp
  finally have l: "sint (li_lower val) = sint (word_of_int (uint t - 2048) :: u32)" by (rule arg_cong)
  have "uint t = uint (val + 0x800) mod 2 ^ 12" by (simp add: t_def take_bit_eq_mod uint_mod)
  then have "0 \<le> uint t" "uint t < 2 ^ 12" by simp_all
  then have "sint (word_of_int (uint t - 2048) :: u32) = uint t - 2048"
    by (subst sint_sbintrunc') (rule signed_take_bit_int_eq_self; simp)
  then show ?thesis using \<open>0 \<le> uint t\<close> \<open>uint t < 2 ^ 12\<close> unfolding imm12_def l by simp
qed

lemma index_in_set: "index_in x ys = Some i \<Longrightarrow> x \<in> set ys"
  by (induction ys arbitrary: i) (auto split: if_splits)

lemma names_words: "list_all word_token abi_names" "list_all word_token x_names"
  by code_simp+

lemma abi_reg_number: "abi_number reg = Some r \<Longrightarrow> reg_number reg = Some r"
  by (simp add: reg_number_def)

lemma reg_number_word: "reg_number reg = Some r \<Longrightarrow> word_token reg"
  using names_words by (auto simp: reg_number_def abi_number_def list_all_iff dest!: index_in_set split: option.splits)

lemma tokens_space: "word_token m \<Longrightarrow> tokens (m @ '' '' @ u) = m # tokens u"
  using tokens_append [of m "CHR '' ''" u] by simp

lemma tokens_comma: "word_token m \<Longrightarrow> tokens (m @ '', '' @ u) = m # tokens u"
  using tokens_append [of m "CHR '',''" "CHR '' '' # u"] by (simp add: tokens_separator)

lemma read_lui:
  assumes "reg_number reg = Some r" "i < 2 ^ 20"
  shows "read_line (''lui '' @ reg @ '', 0x'' @ StrFormat_x i) = Some (LUI r i)"
proof -
  have h: "word_token (''0x'' @ StrFormat_x i)"
    using word_token_numbers(1) [of i] by (simp add: word_token_def is_separator_def)
  have "tokens (''lui'' @ '' '' @ reg @ '', '' @ (''0x'' @ StrFormat_x i)) = [''lui'', reg, ''0x'' @ StrFormat_x i]"
    by (subst tokens_space) (simp add: word_token_def is_separator_def, simp only: tokens_comma [OF reg_number_word [OF assms(1)]] tokens_word [OF h])
  then show ?thesis using assms number_x [of i] by (simp add: read_line_def read_inst_def encodable_def)
qed

lemma read_addi:
  assumes "reg_number reg = Some r" "reg_number reg' = Some r'" "imm12 i"
  shows "read_line (''addi '' @ reg @ '', '' @ reg' @ '', '' @ StrFormat_d i) = Some (ADDI r r' i)"
proof -
  have "tokens (''addi'' @ '' '' @ reg @ '', '' @ reg' @ '', '' @ StrFormat_d i) = [''addi'', reg, reg', StrFormat_d i]"
    by (subst tokens_space) (simp add: word_token_def is_separator_def,
      simp only: tokens_comma [OF reg_number_word [OF assms(1)]] tokens_comma [OF reg_number_word [OF assms(2)]] tokens_word [OF word_token_numbers(2)])
  then show ?thesis using assms number_d [of i] by (simp add: read_line_def read_inst_def encodable_def)
qed

definition li_lines :: "string \<Rightarrow> u32 \<Rightarrow> string list" where
  "li_lines reg val = (''lui '' @ reg @ '', 0x'' @ StrFormat_x (li_upper val))
     # (if li_lower val \<noteq> 0 \<or> li_upper val = 0 then [''addi '' @ reg @ '', '' @ reg @ '', '' @ StrFormat_d (li_lower val)] else [])"

definition constant_lines :: "string \<Rightarrow> u32 \<Rightarrow> string list" where
  "constant_lines reg val = (''lui '' @ reg @ '', 0x'' @ StrFormat_x (li_upper val))
     # (if li_lower val \<noteq> 0 then [''addi '' @ reg @ '', '' @ reg @ '', '' @ StrFormat_d (li_lower val)] else [])"

lemma scalar_li: "scalar_line (''lui '' @ x)" "scalar_line (''addi '' @ x)"
  by (simp_all add: scalar_line_def is_space_def)

lemma writes_single: "writes f ls \<Longrightarrow> writes (emits [f]) ls"
  using writes_Cons [OF _ writes_Nil] by simp

lemma writes_line: "writes f [l] \<Longrightarrow> writes (emits fs) ls \<Longrightarrow> writes (emits (f # fs)) (l # ls)"
  using writes_Cons [of f "[l]"] by (simp del: emits.simps)

lemma writes_pair: "writes f ls \<Longrightarrow> writes g ms \<Longrightarrow> writes (emits [f, g]) (ls @ ms)"
  using writes_Cons [OF _ writes_single] by blast

lemma writes_two_lines:
  "scalar_line l \<Longrightarrow> scalar_line m \<Longrightarrow> writes (emits (EmitInstructionFormat l # (if b then [EmitInstructionFormat m] else []))) (l # (if b then [m] else []))"
  using writes_pair [OF writes_format(1) writes_format(1), of l m] writes_single [OF writes_format(1), of l] by (cases b) auto

lemma writes_li: "writes (EmitLi reg val) (li_lines reg val)"
  unfolding EmitLi_def emit_li_def li_lines_def by (rule writes_two_lines) (rule scalar_li)+

lemma writes_constant: "writes (emits (load_constant reg val)) (constant_lines reg val)"
  unfolding load_constant_def constant_lines_def by (rule writes_two_lines) (rule scalar_li)+

definition constant_insts :: "nat \<Rightarrow> u32 \<Rightarrow> rv_inst list" where
  "constant_insts r val = LUI r (li_upper val) # (if li_lower val \<noteq> 0 then [ADDI r r (li_lower val)] else [])"

lemma read_li:
  assumes "reg_number reg = Some r"
  shows "read_lines (li_lines reg val) = Some (LUI r (li_upper val) # (if li_lower val \<noteq> 0 \<or> li_upper val = 0 then [ADDI r r (li_lower val)] else []))"
    and "read_lines (constant_lines reg val) = Some (constant_insts r val)"
  using read_lui [OF assms li_upper_less] read_addi [OF assms assms li_lower_imm12]
  by (simp_all add: li_lines_def constant_lines_def constant_insts_def)

lemma set_reg_twice: "set_reg r v (set_reg r w s) = set_reg r v s"
  by (simp add: set_reg_def)

lemma rget_set_reg: "rget (set_reg r v s) r' = (if r' = r \<and> r \<noteq> 0 then v else rget s r')"
  by (simp add: rget_def set_reg_def)

lemma exec_constant: "r \<noteq> 0 \<Longrightarrow> exec_insts S (constant_insts r val @ is) s = exec_insts S is (set_reg r val s)"
  using li_sum [of val] by (auto simp: constant_insts_def set_reg_twice rget_set_reg)

lemma exec_li:
  "r \<noteq> 0 \<Longrightarrow> exec_insts S (LUI r (li_upper val) # (if li_lower val \<noteq> 0 \<or> li_upper val = 0 then [ADDI r r (li_lower val)] else [])) s
     = Some (set_reg r val s)"
  using li_sum [of val] by (auto simp: set_reg_twice rget_set_reg)

subsection \<open>The address mask\<close>

text \<open>The three parts of the masking code: saving registers, computing the address, restoring them.\<close>

definition push_lines :: "string list" where
  "push_lines = [''addi sp, sp, -16'', ''sw t1, 0(sp)'', ''sw t2, 4(sp)'', ''sw t3, 8(sp)'', ''sw t5, 12(sp)'']"

definition region_lines :: "string list" where
  "region_lines = [''srli t5, t6, 0x1d'', ''slli t5, t5, 0x1d'', ''lui t1, 0x20000'', ''and t5, t5, t1'', ''sltiu t1, t5, 1'', ''sub t3, zero, t1'']"

definition offset_lines :: "string list" where
  "offset_lines = [''sub t2, t1, t2'', ''lui t1, 0x10'', ''and t1, t1, t3'', ''or t5, t5, t1'', ''sub t6, t6, t5'',
     ''sltiu t1, t2, 1'', ''add t2, t2, t1'', ''remu t6, t6, t2'']"

definition reserved_lines :: "string list" where
  "reserved_lines = [''sltiu t1, t6, 512'', ''sub t1, zero, t1'', ''and t1, t1, t3'', ''addi t2, zero, 512'',
     ''sub t2, t2, t6'', ''and t2, t2, t1'', ''add t6, t6, t2'']"

definition pop_lines :: "string list" where
  "pop_lines = [''add t6, t6, t5'', ''lw t1, 0(sp)'', ''lw t2, 4(sp)'', ''lw t3, 8(sp)'', ''lw t5, 12(sp)'', ''addi sp, sp, 16'']"

definition mask_lines :: "u32 \<Rightarrow> string list" where
  "mask_lines n = (push_lines @ region_lines)
     @ constant_lines ''t2'' (region_mask kDefaultRwRegion2Length n - region_mask kDefaultRwRegionLength n)
     @ [''and t2, t2, t3''] @ constant_lines ''t1'' (region_mask kDefaultRwRegion2Length n)
     @ offset_lines @ (if region_mask kDefaultRwRegionLength n > kReservedDtcmBytes then reserved_lines else []) @ pop_lines"

lemma scalar_fixed_lines:
  "list_all scalar_line (push_lines @ region_lines)" "list_all scalar_line offset_lines" "list_all scalar_line reserved_lines"
  "list_all scalar_line pop_lines" "scalar_line ''and t2, t2, t3''"
  by code_simp+

lemma reserved_emitters:
  "writes (emits [EmitInstructionFormat (''sltiu t1, t6, '' @ StrFormat_u kReservedDtcmBytes),
      EmitInstruction ''sub t1, zero, t1'', EmitInstruction ''and t1, t1, t3'',
      EmitInstructionFormat (''addi t2, zero, '' @ StrFormat_u kReservedDtcmBytes),
      EmitInstruction ''sub t2, t2, t6'', EmitInstruction ''and t2, t2, t1'', EmitInstruction ''add t6, t6, t2'']) reserved_lines"
proof -
  have k: "''sltiu t1, t6, '' @ StrFormat_u kReservedDtcmBytes = ''sltiu t1, t6, 512''" "''addi t2, zero, '' @ StrFormat_u kReservedDtcmBytes = ''addi t2, zero, 512''"
    by code_simp+
  show ?thesis
    unfolding k reserved_lines_def by (intro writes_line writes_format writes_Nil; simp add: scalar_line_def is_space_def)
qed

lemma mask_lines_written:
  "writes (emits (mask_emitters n)) (mask_lines n)"
proof -
  have "writes (emits (map EmitInstruction (push_lines @ region_lines)
      @ load_constant ''t2'' (region_mask kDefaultRwRegion2Length n - region_mask kDefaultRwRegionLength n)
      @ [EmitInstruction ''and t2, t2, t3''] @ load_constant ''t1'' (region_mask kDefaultRwRegion2Length n)
      @ map EmitInstruction offset_lines
      @ (if region_mask kDefaultRwRegionLength n > kReservedDtcmBytes then
          [EmitInstructionFormat (''sltiu t1, t6, '' @ StrFormat_u kReservedDtcmBytes),
           EmitInstruction ''sub t1, zero, t1'', EmitInstruction ''and t1, t1, t3'',
           EmitInstructionFormat (''addi t2, zero, '' @ StrFormat_u kReservedDtcmBytes),
           EmitInstruction ''sub t2, t2, t6'', EmitInstruction ''and t2, t2, t1'', EmitInstruction ''add t6, t6, t2''] else [])
      @ map EmitInstruction pop_lines)) (mask_lines n)"
    unfolding mask_lines_def
    by (intro writes_append writes_constant writes_instructions writes_single writes_format(2) scalar_fixed_lines)
      (use reserved_emitters writes_Nil in \<open>simp del: emits.simps\<close>)
  then show ?thesis
    by (simp add: mask_emitters_def Let_def push_lines_def region_lines_def offset_lines_def pop_lines_def del: emits.simps)
qed

lemma writes_mask: "writes (EmitDynamicMask n) (mask_lines n)"
proof (rule writesI)
  fix e assume e: "ready e"
  then have f: "EmitDynamicMask n e = emits (mask_emitters n) e" by (simp add: EmitDynamicMask_def ready_def)
  show "after (mask_lines n) e e'" if "EmitDynamicMask n e = Some e'" for e'
    using writesD [OF mask_lines_written e] that f by simp
  show "EmitDynamicMask n e \<noteq> None" if "has_room (mask_lines n) e"
    using writes_succeeds [OF mask_lines_written e that] f by auto
qed

end
