(* ===== verification/NPU_IsgMask.thy ===== *)
theory NPU_IsgMask
  imports NPU_IsgProps
begin

text \<open>Running the address mask: the masked address lies in its region and everything else is restored.\<close>

subsection \<open>The instructions\<close>

lemma read_lines_map:
  "list_all2 (\<lambda>l i. read_inst (tokens l) = Some i \<and> encodable i) ls is \<Longrightarrow> read_lines ls = Some is"
  by (induction rule: list_all2_induct) (simp_all add: read_line_def)

lemmas reading = tokens_def read_inst_def read_reg3_def reg_number_def abi_number_def abi_names_def x_names_def is_separator_def number_def
  parse_digits_def digit_value_def parse_int_def encodable_def imm12_def

lemma read_push: "read_lines push_lines = Some [ADDI 2 2 (- 16), SW 6 0 2, SW 7 4 2, SW 28 8 2, SW 30 12 2]"
  unfolding push_lines_def by (rule read_lines_map) (simp add: reading)

lemma read_region: "read_lines region_lines = Some [SRLI 30 31 29, SLLI 30 30 29, LUI 6 0x20000, AND' 30 30 6, SLTIU 6 30 1, SUB 28 0 6]"
  unfolding region_lines_def by (rule read_lines_map) (simp add: reading)

lemma read_offset: "read_lines offset_lines = Some [SUB 7 6 7, LUI 6 0x10, AND' 6 6 28, OR' 30 30 6, SUB 31 31 30, SLTIU 6 7 1, ADD 7 7 6, REMU 31 31 7]"
  unfolding offset_lines_def by (rule read_lines_map) (simp add: reading)

lemma read_reserved: "read_lines reserved_lines = Some [SLTIU 6 31 512, SUB 6 0 6, AND' 6 6 28, ADDI 7 0 512, SUB 7 7 31, AND' 7 7 6, ADD 31 31 7]"
  unfolding reserved_lines_def by (rule read_lines_map) (simp add: reading)

lemma read_pop: "read_lines pop_lines = Some [ADD 31 31 30, LW 6 0 2, LW 7 4 2, LW 28 8 2, LW 30 12 2, ADDI 2 2 16]"
  unfolding pop_lines_def by (rule read_lines_map) (simp add: reading)

lemma read_and: "read_line ''and t2, t2, t3'' = Some (AND' 7 7 28)" "reg_number ''t1'' = Some 6" "reg_number ''t2'' = Some 7"
  by (simp_all add: read_line_def reading)

text \<open>The instructions that compute the address, without the ones that save and restore registers.\<close>

definition region_insts :: "rv_inst list" where
  "region_insts = [SRLI 30 31 29, SLLI 30 30 29, LUI 6 0x20000, AND' 30 30 6, SLTIU 6 30 1, SUB 28 0 6]"

definition offset_insts :: "u32 \<Rightarrow> u32 \<Rightarrow> rv_inst list" where
  "offset_insts r1 r2 = constant_insts 7 (r2 - r1) @ AND' 7 7 28 # constant_insts 6 r2
     @ [SUB 7 6 7, LUI 6 0x10, AND' 6 6 28, OR' 30 30 6, SUB 31 31 30, SLTIU 6 7 1, ADD 7 7 6, REMU 31 31 7]"

definition reserved_insts :: "rv_inst list" where
  "reserved_insts = [SLTIU 6 31 512, SUB 6 0 6, AND' 6 6 28, ADDI 7 0 512, SUB 7 7 31, AND' 7 7 6, ADD 31 31 7]"

definition push_insts :: "rv_inst list" where
  "push_insts = [ADDI 2 2 (- 16), SW 6 0 2, SW 7 4 2, SW 28 8 2, SW 30 12 2]"

definition pop_insts :: "rv_inst list" where
  "pop_insts = [ADD 31 31 30, LW 6 0 2, LW 7 4 2, LW 28 8 2, LW 30 12 2, ADDI 2 2 16]"

definition mask_insts :: "u32 \<Rightarrow> rv_inst list" where
  "mask_insts n = push_insts @ region_insts
     @ offset_insts (region_mask kDefaultRwRegionLength n) (region_mask kDefaultRwRegion2Length n) @ reserved_insts @ pop_insts"

lemma read_mask:
  assumes "region_mask kDefaultRwRegionLength n > kReservedDtcmBytes"
  shows "read_lines (mask_lines n) = Some (mask_insts n)"
  using assms by (simp add: mask_lines_def mask_insts_def offset_insts_def push_insts_def region_insts_def reserved_insts_def pop_insts_def
      read_lines_append read_push read_region read_offset read_reserved read_pop read_and read_li(2) [OF read_and(2)] read_li(2) [OF read_and(3)])

subsection \<open>The masked address\<close>

definition sandbox :: "u32 \<Rightarrow> u32 \<Rightarrow> u32" where
  "sandbox n t =
     (if bit t 29 then 0x20000000 + (t - 0x20000000) mod region_mask kDefaultRwRegion2Length n
      else let off = (t - 0x10000) mod region_mask kDefaultRwRegionLength n in 0x10000 + (if off < 512 then 512 else off))"

lemma region_bit: "push_bit 29 (drop_bit 29 t) AND 0x20000000 = (if bit t 29 then 0x20000000 else (0 :: u32))"
proof -
  have p: "(0x20000000 :: u32) = push_bit 29 1" by (simp add: push_bit_eq_mult)
  have "push_bit 29 (drop_bit 29 t) AND push_bit 29 1 = push_bit 29 (of_bool (bit t 29) :: u32)"
    unfolding push_bit_and [symmetric] and_one_eq by (simp only: mod_2_eq_odd bit_iff_odd_drop_bit)
  then show ?thesis unfolding p by simp
qed

lemma rget_0 [simp]: "rget s 0 = 0"
  by (simp add: rget_def)

text \<open>Registers other than the ones a piece of code writes, and memory, are as before.\<close>

definition keeps :: "nat set \<Rightarrow> rv \<Rightarrow> rv \<Rightarrow> bool" where
  "keeps W s s' \<longleftrightarrow> rv_mem s' = rv_mem s \<and> (\<forall>r. r \<notin> W \<longrightarrow> rget s' r = rget s r)"

lemma exec_region:
  "\<exists>s'. exec_insts S region_insts s = Some s' \<and> keeps {6, 28, 30} s s'
     \<and> rget s' 30 = (if bit (rget s 31) 29 then 0x20000000 else 0) \<and> rget s' 28 = (if bit (rget s 31) 29 then 0 else - 1)"
  using region_bit [of "rget s 31"] by (simp add: region_insts_def keeps_def rget_set_reg) (simp add: set_reg_def)

lemma keepsI: "rv_mem s' = rv_mem s \<Longrightarrow> (\<And>r. r \<notin> W \<Longrightarrow> rget s' r = rget s r) \<Longrightarrow> keeps W s s'"
  by (simp add: keeps_def)

lemma set_reg_mem [simp]: "rv_mem (set_reg r v s) = rv_mem s"
  by (simp add: set_reg_def)

lemma exec_offset:
  assumes "rget s 30 = (if hi then 0x20000000 else 0)" "rget s 28 = (if hi then 0 else - 1)" "r2 \<noteq> 0" "r1 \<noteq> 0"
  defines "base \<equiv> if hi then 0x20000000 else 0x10000" and "m \<equiv> if hi then r2 else r1"
  shows "\<exists>s'. exec_insts S (offset_insts r1 r2) s = Some s' \<and> keeps {6, 7, 30, 31} s s'
     \<and> rget s' 30 = base \<and> rget s' 31 = (rget s 31 - base) mod m"
proof (cases hi)
  case True
  have "\<not> r2 < 1" using assms(3) by (simp add: word_less_1)
  then show ?thesis
    using True assms(1,2) by (simp add: offset_insts_def exec_constant rget_set_reg keeps_def base_def m_def)
next
  case False
  have "\<not> r1 < 1" using assms(4) by (simp add: word_less_1)
  then show ?thesis
    using False assms(1,2) by (simp add: offset_insts_def exec_constant rget_set_reg keeps_def base_def m_def)
qed

lemma exec_reserved:
  assumes "rget s 28 = (if hi then 0 else - 1)"
  shows "\<exists>s'. exec_insts S reserved_insts s = Some s' \<and> keeps {6, 7, 31} s s'
     \<and> rget s' 31 = (if \<not> hi \<and> rget s 31 < 512 then 512 else rget s 31)"
  using assms by (cases hi; cases "rget s 31 < 512") (simp_all add: reserved_insts_def rget_set_reg keeps_def)

lemma keeps_trans: "keeps W s s' \<Longrightarrow> keeps W' s' s'' \<Longrightarrow> keeps (W \<union> W') s s''"
  by (simp add: keeps_def)

lemma exec_compute:
  assumes "region_mask kDefaultRwRegionLength n \<noteq> 0" "region_mask kDefaultRwRegion2Length n \<noteq> 0"
  shows "\<exists>s'. exec_insts S (region_insts @ offset_insts (region_mask kDefaultRwRegionLength n) (region_mask kDefaultRwRegion2Length n)
         @ reserved_insts @ [ADD 31 31 30]) s = Some s'
     \<and> keeps {6, 7, 28, 30, 31} s s' \<and> rget s' 31 = sandbox n (rget s 31)"
proof -
  let ?hi = "bit (rget s 31) 29"
  obtain s1 where s1: "exec_insts S region_insts s = Some s1" "keeps {6, 28, 30} s s1"
    "rget s1 30 = (if ?hi then 0x20000000 else 0)" "rget s1 28 = (if ?hi then 0 else - 1)"
    using exec_region by blast
  obtain s2 where s2: "exec_insts S (offset_insts (region_mask kDefaultRwRegionLength n) (region_mask kDefaultRwRegion2Length n)) s1 = Some s2"
    "keeps {6, 7, 30, 31} s1 s2" "rget s2 30 = (if ?hi then 0x20000000 else 0x10000)"
    "rget s2 31 = (rget s1 31 - (if ?hi then 0x20000000 else 0x10000)) mod (if ?hi then region_mask kDefaultRwRegion2Length n else region_mask kDefaultRwRegionLength n)"
    using exec_offset [OF s1(3,4) assms(2,1)] by blast
  have "rget s2 28 = (if ?hi then 0 else - 1)" using s1(4) s2(2) by (simp add: keeps_def)
  then obtain s3 where s3: "exec_insts S reserved_insts s2 = Some s3" "keeps {6, 7, 31} s2 s3"
    "rget s3 31 = (if \<not> ?hi \<and> rget s2 31 < 512 then 512 else rget s2 31)"
    using exec_reserved by blast
  have r: "rget s1 31 = rget s 31" "rget s3 30 = rget s2 30" using s1(2) s3(2) by (simp_all add: keeps_def)
  show ?thesis
    using s1 s2 s3 r by (auto simp: exec_insts_append rget_set_reg keeps_def sandbox_def Let_def)
qed

end
