(* ===== verification/NPU_IsgSandbox.thy ===== *)
theory NPU_IsgSandbox
  imports NPU_IsgMask
begin

text \<open>
  The address mask with its register saving, and the generated loads and stores: from any address they
  access only the data memories, past the bytes the trap handler uses.
\<close>

subsection \<open>Memory\<close>

lemma load32_store32: "load32 (store32 a v m) a = v"
proof -
  have "map (\<lambda>k. store32 a v m (a + of_nat k)) [0..<4] = map (\<lambda>k. to_bytes v ! k) [0..<4]"
    by (rule map_cong [OF refl]) (auto simp: store32_def word_less_nat_alt unat_of_nat)
  also have "\<dots> = to_bytes v" by (rule nth_equalityI) (simp_all add: sizeof_def)
  finally show ?thesis by (simp add: load32_def)
qed

lemma load32_store32_other:
  assumes "4 \<le> b - a" "b - a \<le> - 4"
  shows "load32 (store32 a v m) b = load32 m b"
proof -
  have "\<not> b + of_nat k - a < 4" if "k < 4" for k
  proof -
    have "unat (b - a) + k < 2 ^ 32" using assms(2) that by (simp add: word_le_nat_alt)
    then have "unat ((b - a) + of_nat k) = unat (b - a) + k" using that by (subst unat_add_lem [THEN iffD1]) (simp_all add: unat_of_nat)
    then have "\<not> (b - a) + of_nat k < 4" using assms(1) by (simp add: word_less_nat_alt word_le_nat_alt)
    then show ?thesis by (simp add: algebra_simps)
  qed
  then show ?thesis unfolding load32_def store32_def by (intro arg_cong [where f = from_bytes] map_cong) simp_all
qed

lemma store32_outside: "4 \<le> x - a \<Longrightarrow> store32 a v m x = m x"
  by (simp add: store32_def leD)

lemma outside_block:
  fixes p x k :: u32
  assumes "16 \<le> x - p" "unat k + 4 \<le> 16"
  shows "4 \<le> x - (p + k)"
proof -
  have "k \<le> x - p" using assms by (simp add: word_le_nat_alt)
  then have "unat (x - p - k) = unat (x - p) - unat k" by (rule unat_sub)
  then have "4 \<le> x - p - k" using assms by (simp add: word_le_nat_alt)
  then show ?thesis by (simp add: algebra_simps)
qed

lemma rget_mem [simp]: "rget (s\<lparr>rv_mem := m\<rparr>) r = rget s r"
  by (simp add: rget_def)

subsection \<open>Saving and restoring\<close>

text \<open>The memories and permissions the generated programs run with.\<close>

definition default_memory :: "CoralNPUV2State \<Rightarrow> bool" where
  "default_memory S \<longleftrightarrow> memory_regions S = default_memory_regions"

lemma data_permission:
  assumes "default_memory S" "0 < uint n" "p \<in> {kRead, kWrite}"
    and "0x10000 \<le> uint a \<and> uint a + uint n \<le> 0x18000 \<or> 0x20000000 \<le> uint a \<and> uint a + uint n \<le> 0x20400000"
  shows "HasPermission a n p S"
proof -
  have d: "regions_disjoint (memory_regions S)"
    using assms(1) by (simp add: default_memory_def default_memory_regions_def regions_apart_def)
  show ?thesis
    unfolding HasPermission_in [OF d assms(2)] using assms(1,3,4)
    by (auto simp: default_memory_def default_memory_regions_def region_contains_def kRead_def kWrite_def kReadWrite_def)
qed

text \<open>Room for the four saved registers below the stack pointer.\<close>

definition stack_ok :: "u32 \<Rightarrow> bool" where
  "stack_ok sp \<longleftrightarrow> 0x10010 \<le> uint sp \<and> uint sp \<le> 0x18000"

lemma stack_permission:
  assumes "default_memory S" "stack_ok sp" "k \<in> {4, 8, 12, 16}" "p \<in> {kRead, kWrite}"
  shows "HasPermission (sp - k) 4 p S"
proof -
  have "uint (sp - k) = uint sp - uint k"
    using assms(2,3) by (intro uint_sub_lem [THEN iffD1]) (auto simp: stack_ok_def)
  then show ?thesis using assms by (intro data_permission) (auto simp: stack_ok_def)
qed

lemma exec_push:
  assumes "default_memory S" "stack_ok (rget s 2)"
  shows "\<exists>s'. exec_insts S push_insts s = Some s' \<and> rget s' 2 = rget s 2 - 16 \<and> (\<forall>r. r \<noteq> 2 \<longrightarrow> rget s' r = rget s r)
     \<and> load32 (rv_mem s') (rget s 2 - 16) = rget s 6 \<and> load32 (rv_mem s') (rget s 2 - 12) = rget s 7
     \<and> load32 (rv_mem s') (rget s 2 - 8) = rget s 28 \<and> load32 (rv_mem s') (rget s 2 - 4) = rget s 30
     \<and> (\<forall>x. 16 \<le> x - (rget s 2 - 16) \<longrightarrow> rv_mem s' x = rv_mem s x)"
proof -
  note p = stack_permission [OF assms, of 4 kWrite] stack_permission [OF assms, of 8 kWrite]
    stack_permission [OF assms, of 12 kWrite] stack_permission [OF assms, of 16 kWrite]
  have a: "rget s 2 - 16 + 4 = rget s 2 - 12" "rget s 2 - 16 + 8 = rget s 2 - 8" "rget s 2 - 16 + 12 = rget s 2 - 4" by simp_all
  have o: "4 \<le> x - (rget s 2 - 16)" "4 \<le> x - (rget s 2 - 12)" "4 \<le> x - (rget s 2 - 8)" "4 \<le> x - (rget s 2 - 4)"
    if "16 \<le> x - (rget s 2 - 16)" for x
    using outside_block [OF that, of 0] outside_block [OF that, of 4] outside_block [OF that, of 8] outside_block [OF that, of 12]
    by simp_all
  show ?thesis
    using p by (simp add: push_insts_def rget_set_reg a load32_store32 load32_store32_other store32_outside o)
qed

text \<open>The end of the mask: the restoring loads without the addition before them.\<close>

lemma exec_pop:
  assumes "default_memory S" "stack_ok sp" "rget s 2 = sp - 16"
  shows "\<exists>s'. exec_insts S (tl pop_insts) s = Some s' \<and> rv_mem s' = rv_mem s \<and> rget s' 2 = sp
     \<and> rget s' 6 = load32 (rv_mem s) (sp - 16) \<and> rget s' 7 = load32 (rv_mem s) (sp - 12)
     \<and> rget s' 28 = load32 (rv_mem s) (sp - 8) \<and> rget s' 30 = load32 (rv_mem s) (sp - 4)
     \<and> (\<forall>r. r \<notin> {2, 6, 7, 28, 30} \<longrightarrow> rget s' r = rget s r)"
proof -
  note p = stack_permission [OF assms(1,2), of 4 kRead] stack_permission [OF assms(1,2), of 8 kRead]
    stack_permission [OF assms(1,2), of 12 kRead] stack_permission [OF assms(1,2), of 16 kRead]
  have a: "sp - 16 + 4 = sp - 12" "sp - 16 + 8 = sp - 8" "sp - 16 + 12 = sp - 4" by simp_all
  show ?thesis using p assms(3) by (simp add: pop_insts_def rget_set_reg a)
qed

subsection \<open>The mask as a whole\<close>

definition reserves :: "u32 \<Rightarrow> bool" where
  "reserves n \<longleftrightarrow> n \<noteq> 0 \<and> n \<le> 0x7e00"

lemma region_mask_value:
  assumes "reserves n" "uint len \<in> {0x8000, 0x400000}"
  shows "uint (region_mask len n) = uint len - uint n + 1" "region_mask len n \<noteq> 0"
proof -
  have n: "uint n \<le> 0x7e00" using assms(1) by (simp add: reserves_def word_le_def)
  then have l: "n < len" using assms(2) by (auto simp: word_less_def)
  have "uint (len - n) = uint len - uint n" using l by (intro uint_sub_lem [THEN iffD1]) (simp add: word_less_def)
  moreover have "uint len \<le> 0x400000" using assms(2) by auto
  ultimately have "uint (len - n) + 1 < 4294967296" using u32_range(1) [of n] by linarith
  then have "uint (len - n + 1) = uint len - uint n + 1"
    using \<open>uint (len - n) = uint len - uint n\<close> by (subst uint_add_lem [THEN iffD1]) simp_all
  then show v: "uint (region_mask len n) = uint len - uint n + 1" using l by (simp add: region_mask_def)
  show "region_mask len n \<noteq> 0" using v n assms(2) by auto
qed

lemma sandbox_bounds:
  assumes "reserves n"
  shows "0x10200 \<le> uint (sandbox n t) \<and> uint (sandbox n t) + uint n \<le> 0x18000
    \<or> 0x20000000 \<le> uint (sandbox n t) \<and> uint (sandbox n t) + uint n \<le> 0x20400000"
proof -
  have n: "uint n \<le> 0x7e00" using assms by (simp add: reserves_def word_le_def)
  note m1 = region_mask_value [OF assms, of kDefaultRwRegionLength] and m2 = region_mask_value [OF assms, of kDefaultRwRegion2Length]
  have b: "0 \<le> uint (x mod m) \<and> uint (x mod m) < uint m" if "m \<noteq> 0" for x m :: u32
  proof -
    have "0 < uint m" using that u32_range(1) [of m] by (metis uint_0_iff order_le_less)
    then show ?thesis by (simp add: uint_mod)
  qed
  have add: "uint (c + y) = uint c + uint y" if "uint c + uint y < 2 ^ 32" for c y :: u32
    using that by (intro uint_add_lem [THEN iffD1]) simp
  show ?thesis
  proof (cases "bit t 29")
    case True
    define y where "y = (t - 0x20000000) mod region_mask kDefaultRwRegion2Length n"
    have y: "0 \<le> uint y" "uint y < 0x400000 - uint n + 1"
      using b [OF m2(2), of "t - 0x20000000"] m2(1) by (simp_all add: y_def kDefaultRwRegion2Length_def)
    have "0x20000000 + uint y < 4294967296" using y u32_range(1) [of n] by linarith
    then have "uint (0x20000000 + y) = 0x20000000 + uint y" by (subst add) simp_all
    then show ?thesis using True y by (simp add: sandbox_def y_def)
  next
    case False
    define y where "y = (t - 0x10000) mod region_mask kDefaultRwRegionLength n"
    have y: "0 \<le> uint y" "uint y < 0x8000 - uint n + 1"
      using b [OF m1(2), of "t - 0x10000"] m1(1) by (simp_all add: y_def kDefaultRwRegionLength_def)
    define z where "z = (if y < 512 then 512 else y)"
    have z: "512 \<le> uint z" "uint z \<le> 0x8000 - uint n" using y n by (auto simp: z_def word_less_def)
    have "0x10000 + uint z < 4294967296" using z u32_range(1) [of n] by linarith
    then have "uint (0x10000 + z) = 0x10000 + uint z" by (subst add) simp_all
    moreover have "sandbox n t = 0x10000 + z" using False by (simp add: sandbox_def y_def z_def Let_def)
    ultimately show ?thesis using z by simp
  qed
qed

lemma exec_mask:
  assumes "default_memory S" "stack_ok (rget s 2)" "reserves n"
  shows "\<exists>s'. exec_insts S (mask_insts n) s = Some s' \<and> rget s' 31 = sandbox n (rget s 31)
     \<and> (\<forall>r. r \<noteq> 31 \<longrightarrow> rget s' r = rget s r) \<and> (\<forall>x. 16 \<le> x - (rget s 2 - 16) \<longrightarrow> rv_mem s' x = rv_mem s x)"
proof -
  obtain s1 where s1: "exec_insts S push_insts s = Some s1" "rget s1 2 = rget s 2 - 16" "\<And>r. r \<noteq> 2 \<Longrightarrow> rget s1 r = rget s r"
    "load32 (rv_mem s1) (rget s 2 - 16) = rget s 6" "load32 (rv_mem s1) (rget s 2 - 12) = rget s 7"
    "load32 (rv_mem s1) (rget s 2 - 8) = rget s 28" "load32 (rv_mem s1) (rget s 2 - 4) = rget s 30"
    "\<And>x. 16 \<le> x - (rget s 2 - 16) \<Longrightarrow> rv_mem s1 x = rv_mem s x"
    using exec_push [OF assms(1,2)] by blast
  have m: "region_mask kDefaultRwRegionLength n \<noteq> 0" "region_mask kDefaultRwRegion2Length n \<noteq> 0"
    using region_mask_value(2) [OF assms(3)] by (simp_all add: kDefaultRwRegionLength_def kDefaultRwRegion2Length_def)
  let ?is = "region_insts @ offset_insts (region_mask kDefaultRwRegionLength n) (region_mask kDefaultRwRegion2Length n)
      @ reserved_insts @ [ADD 31 31 30]"
  obtain s2 where s2: "exec_insts S ?is s1 = Some s2" "keeps {6, 7, 28, 30, 31} s1 s2" "rget s2 31 = sandbox n (rget s1 31)"
    using exec_compute [OF m] by blast
  have k: "rv_mem s2 = rv_mem s1" "\<And>r. r \<notin> {6, 7, 28, 30, 31} \<Longrightarrow> rget s2 r = rget s1 r" using s2(2) by (simp_all add: keeps_def)
  have "rget s2 2 = rget s 2 - 16" using k(2) s1(2) by simp
  from exec_pop [OF assms(1,2) this]
  obtain s3 where s3: "exec_insts S (tl pop_insts) s2 = Some s3" "rv_mem s3 = rv_mem s2" "rget s3 2 = rget s 2"
    "rget s3 6 = load32 (rv_mem s2) (rget s 2 - 16)" "rget s3 7 = load32 (rv_mem s2) (rget s 2 - 12)"
    "rget s3 28 = load32 (rv_mem s2) (rget s 2 - 8)" "rget s3 30 = load32 (rv_mem s2) (rget s 2 - 4)"
    "\<And>r. r \<notin> {2, 6, 7, 28, 30} \<Longrightarrow> rget s3 r = rget s2 r"
    by blast
  have "mask_insts n = push_insts @ ?is @ tl pop_insts" by (simp add: mask_insts_def pop_insts_def)
  then have e: "exec_insts S (mask_insts n) s = Some s3"
    using s1(1) s2(1) s3(1) by (simp only: exec_insts_append option.case)
  have "rget s3 31 = sandbox n (rget s 31)" using s3(8) s2(3) s1(3) by simp
  moreover have "rget s3 r = rget s r" if "r \<noteq> 31" for r
  proof (cases "r \<in> {2, 6, 7, 28, 30}")
    case True
    then show ?thesis using s3(3-7) s1(4-7) k(1) by auto
  next
    case False
    then show ?thesis using that s3(8) [of r] k(2) [of r] s1(3) [of r] by simp
  qed
  ultimately show ?thesis using e s3(2) k(1) s1(8) by (intro exI [of _ s3]) simp
qed

end
