(* ===== verification/NPU_IsgBlocks.thy ===== *)
theory NPU_IsgBlocks
  imports NPU_IsgSandbox
begin

text \<open>The generated loads and stores: the lines they consist of and what those lines do.\<close>

subsection \<open>Lines with registers\<close>

lemma read_add:
  assumes "reg_number a = Some i" "reg_number b = Some j"
  shows "read_line (''add t6, '' @ a @ '', '' @ b) = Some (ADD 31 i j)"
proof -
  have "tokens (''add'' @ '' '' @ ''t6'' @ '', '' @ a @ '', '' @ b) = [''add'', ''t6'', a, b]"
    by (subst tokens_space, simp add: word_token_def is_separator_def, subst tokens_comma, simp add: word_token_def is_separator_def)
      (simp only: tokens_comma [OF reg_number_word [OF assms(1)]] tokens_word [OF reg_number_word [OF assms(2)]])
  moreover have "reg_number ''t6'' = Some 31" by (simp add: reg_number_def abi_number_def abi_names_def)
  ultimately show ?thesis using assms by (simp add: read_line_def read_inst_def read_reg3_def encodable_def)
qed

lemma read_lw:
  assumes "reg_number a = Some i"
  shows "read_line (''lw '' @ a @ '', 0(t6)'') = Some (LW i 0 31)"
proof -
  have "tokens (''lw'' @ '' '' @ a @ '', '' @ ''0(t6)'') = [''lw'', a, ''0'', ''t6'']"
    by (subst tokens_space, simp add: word_token_def is_separator_def) (simp only: tokens_comma [OF reg_number_word [OF assms]], simp add: tokens_def is_separator_def)
  moreover have "reg_number ''t6'' = Some 31" by (simp add: reg_number_def abi_number_def abi_names_def)
  ultimately show ?thesis
    using assms by (simp add: read_line_def read_inst_def encodable_def imm12_def number_def parse_int_def parse_digits_def digit_value_def)
qed

lemma read_mv:
  assumes "reg_number a = Some i"
  shows "read_line (''addi t4, '' @ a @ '', 0'') = Some (ADDI 29 i 0)"
proof -
  have "tokens (''addi'' @ '' '' @ ''t4'' @ '', '' @ a @ '', '' @ ''0'') = [''addi'', ''t4'', a, ''0'']"
    by (subst tokens_space, simp add: word_token_def is_separator_def, subst tokens_comma, simp add: word_token_def is_separator_def)
      (simp only: tokens_comma [OF reg_number_word [OF assms]], simp add: tokens_def is_separator_def)
  moreover have "reg_number ''t4'' = Some 29" by (simp add: reg_number_def abi_number_def abi_names_def)
  ultimately show ?thesis
    using assms by (simp add: read_line_def read_inst_def encodable_def imm12_def number_def parse_int_def parse_digits_def digit_value_def)
qed

lemma scalar_lines: "scalar_line (''add '' @ x)" "scalar_line (''lw '' @ x)" "scalar_line (''sw '' @ x)"
  by (simp_all add: scalar_line_def is_space_def)

lemma reserves_4: "reserves 4"
  by (simp add: reserves_def)

lemma reserves_mask: "reserves n \<Longrightarrow> region_mask kDefaultRwRegionLength n > kReservedDtcmBytes"
  using region_mask_value(1) [of n kDefaultRwRegionLength]
  by (simp add: reserves_def kDefaultRwRegionLength_def kReservedDtcmBytes_def word_less_def word_le_def)

subsection \<open>Loads\<close>

definition load_scratch :: "string \<Rightarrow> string" where
  "load_scratch rs1 = (if rs1 = ''t6'' then ''t1'' else ''t6'')"

definition load_lines :: "string \<Rightarrow> string \<Rightarrow> u32 \<Rightarrow> string list" where
  "load_lines rd rs1 imm = constant_lines (load_scratch rs1) imm @ [''add t6, '' @ rs1 @ '', '' @ load_scratch rs1]
     @ mask_lines 4 @ [''lw '' @ rd @ '', 0(t6)'']"

lemma writes_load: "writes (EmitLoad rd rs1 imm) (load_lines rd rs1 imm)"
proof -
  have "writes (emits (load_constant (load_scratch rs1) imm @ [EmitInstructionFormat (''add t6, '' @ rs1 @ '', '' @ load_scratch rs1)]
      @ [EmitDynamicMask 4] @ [EmitInstructionFormat (''lw '' @ rd @ '', 0(t6)'')])) (load_lines rd rs1 imm)"
    unfolding load_lines_def
    by (intro writes_append writes_constant writes_single writes_format(1) writes_mask scalar_lines)
      (simp_all add: scalar_line_def is_space_def)
  then show ?thesis by (simp add: EmitLoad_def load_scratch_def Let_def del: emits.simps)
qed

lemma index_in_nth: "index_in x ys = Some i \<Longrightarrow> ys ! i = x"
  by (induction ys arbitrary: i) (auto split: if_splits)

lemma abi_number_nth: "abi_number x = Some i \<Longrightarrow> abi_names ! i = x"
  unfolding abi_number_def by (rule index_in_nth)

lemma abi_number_inj: "abi_number x = Some i \<Longrightarrow> abi_number y = Some j \<Longrightarrow> i = j \<longleftrightarrow> x = y"
  by (metis abi_number_nth option.inject)

lemma abi_numbers: "abi_number ''t6'' = Some 31" "abi_number ''t1'' = Some 6" "abi_number ''t2'' = Some 7" "abi_number ''t3'' = Some 28"
  "abi_number ''t4'' = Some 29"
  by (simp_all add: reg_number_def abi_number_def abi_names_def)

text \<open>The address computation both share: a constant added to a register, then masked.\<close>

lemma exec_address:
  assumes "b \<noteq> k" "k \<noteq> 0" "k \<noteq> 2" "default_memory S" "stack_ok (rget s 2)" "reserves n"
  shows "\<exists>s'. exec_insts S (constant_insts k imm @ ADD 31 b k # mask_insts n) s = Some s'
    \<and> rget s' 31 = sandbox n (rget s b + imm) \<and> (\<forall>r. r \<notin> {k, 31} \<longrightarrow> rget s' r = rget s r)
    \<and> (\<forall>x. 16 \<le> x - (rget s 2 - 16) \<longrightarrow> rv_mem s' x = rv_mem s x)"
proof -
  define s1 where "s1 = set_reg 31 (rget s b + imm) (set_reg k imm s)"
  have s1: "rget s1 2 = rget s 2" "rget s1 31 = rget s b + imm" "rv_mem s1 = rv_mem s" "\<And>r. r \<notin> {k, 31} \<Longrightarrow> rget s1 r = rget s r"
    using assms(3) by (simp_all add: s1_def rget_set_reg)
  have "stack_ok (rget s1 2)" using assms(5) s1(1) by simp
  from exec_mask [OF assms(4) this assms(6)]
  obtain s2 where s2: "exec_insts S (mask_insts n) s1 = Some s2" "rget s2 31 = sandbox n (rget s1 31)"
    "\<And>r. r \<noteq> 31 \<Longrightarrow> rget s2 r = rget s1 r" "\<And>x. 16 \<le> x - (rget s1 2 - 16) \<Longrightarrow> rv_mem s2 x = rv_mem s1 x" by blast
  have "exec_insts S (constant_insts k imm @ ADD 31 b k # mask_insts n) s = exec_insts S (mask_insts n) s1"
    using assms(1,2) by (simp add: exec_constant s1_def rget_set_reg)
  then show ?thesis using s1 s2 by (intro exI [of _ s2]) simp
qed

lemma sandbox_permission:
  "default_memory S \<Longrightarrow> p \<in> {kRead, kWrite} \<Longrightarrow> HasPermission (sandbox 4 t) 4 p S"
  using sandbox_bounds [OF reserves_4, of t] by (intro data_permission) auto

lemma run_then: "read_lines ls = Some (is @ js) \<Longrightarrow> exec_insts S is s = Some s1 \<Longrightarrow> run_lines S ls s = exec_insts S js s1"
  by (simp add: run_lines_def exec_insts_append)

lemma run_load:
  fixes imm :: u32
  assumes "reg_number rd = Some d" "abi_number rs1 = Some b" "default_memory S" "stack_ok (rget s 2)"
  shows "\<exists>s'. run_lines S (load_lines rd rs1 imm) s = Some s'
    \<and> (d \<noteq> 0 \<longrightarrow> rget s' d = load32 (rv_mem s') (sandbox 4 (rget s b + imm)))
    \<and> (\<forall>r. r \<notin> {6, 31, d} \<longrightarrow> rget s' r = rget s r) \<and> (\<forall>x. 16 \<le> x - (rget s 2 - 16) \<longrightarrow> rv_mem s' x = rv_mem s x)"
proof -
  define k where "k = (if rs1 = ''t6'' then 6 else 31 :: nat)"
  have k: "abi_number (load_scratch rs1) = Some k" "k \<noteq> 0" "k \<noteq> 2" "k \<in> {6, 31}"
    by (simp_all add: load_scratch_def k_def abi_numbers)
  note reg = abi_reg_number [OF k(1)] abi_reg_number [OF assms(2)]
  have "b \<noteq> k" using abi_number_inj [OF assms(2) k(1)] by (auto simp: load_scratch_def split: if_splits)
  from exec_address [OF this k(2,3) assms(3,4) reserves_4]
  obtain s1 where s1: "exec_insts S (constant_insts k imm @ ADD 31 b k # mask_insts 4) s = Some s1"
    "rget s1 31 = sandbox 4 (rget s b + imm)" "\<And>r. r \<notin> {k, 31} \<Longrightarrow> rget s1 r = rget s r"
    "\<And>x. 16 \<le> x - (rget s 2 - 16) \<Longrightarrow> rv_mem s1 x = rv_mem s x" by blast
  have "read_lines (load_lines rd rs1 imm) = Some ((constant_insts k imm @ ADD 31 b k # mask_insts 4) @ [LW d 0 31])"
    unfolding load_lines_def read_lines_append read_li(2) [OF reg(1)] read_mask [OF reserves_mask [OF reserves_4]]
    using read_add [OF reg(2,1)] read_lw [OF assms(1)] by simp
  from run_then [OF this s1(1)]
  have "run_lines S (load_lines rd rs1 imm) s = Some (set_reg d (load32 (rv_mem s1) (rget s1 31)) s1)"
    using s1(2) sandbox_permission [OF assms(3)] by simp
  then show ?thesis using s1 k(4) by (intro exI [of _ "set_reg d (load32 (rv_mem s1) (rget s1 31)) s1"]) (auto simp: rget_set_reg)
qed

subsection \<open>Stores\<close>

definition store_scratch :: "string \<Rightarrow> string \<Rightarrow> string" where
  "store_scratch rs2 rs1 = (if rs1 = ''t1'' \<or> rs2 = ''t1'' then (if rs1 = ''t2'' \<or> rs2 = ''t2'' then ''t3'' else ''t2'') else ''t1'')"

definition store_lines :: "string \<Rightarrow> string \<Rightarrow> u32 \<Rightarrow> string list" where
  "store_lines rs2 rs1 imm =
     [''lui '' @ store_scratch rs2 rs1 @ '', 0x'' @ StrFormat_x (li_upper imm),
      ''addi '' @ store_scratch rs2 rs1 @ '', '' @ store_scratch rs2 rs1 @ '', '' @ StrFormat_d (li_lower imm),
      ''add t6, '' @ rs1 @ '', '' @ store_scratch rs2 rs1, ''addi t4, '' @ rs2 @ '', 0''] @ mask_lines 4 @ [''sw t4, 0(t6)'']"

lemma writes_store: "writes (EmitStore rs2 rs1 imm) (store_lines rs2 rs1 imm)"
proof -
  have "writes (emits [EmitInstructionFormat (''lui '' @ store_scratch rs2 rs1 @ '', 0x'' @ StrFormat_x (li_upper imm)),
           EmitInstructionFormat (''addi '' @ store_scratch rs2 rs1 @ '', '' @ store_scratch rs2 rs1 @ '', '' @ StrFormat_d (li_lower imm)),
           EmitInstructionFormat (''add t6, '' @ rs1 @ '', '' @ store_scratch rs2 rs1),
           EmitInstructionFormat (''addi t4, '' @ rs2 @ '', 0'')])
     [''lui '' @ store_scratch rs2 rs1 @ '', 0x'' @ StrFormat_x (li_upper imm),
      ''addi '' @ store_scratch rs2 rs1 @ '', '' @ store_scratch rs2 rs1 @ '', '' @ StrFormat_d (li_lower imm),
      ''add t6, '' @ rs1 @ '', '' @ store_scratch rs2 rs1, ''addi t4, '' @ rs2 @ '', 0'']" (is "writes (emits ?f) ?l")
    by (intro writes_line writes_Nil writes_format(1) scalar_li) (simp_all add: scalar_line_def is_space_def)
  then have "writes (emits (?f @ [EmitDynamicMask 4] @ [EmitInstructionFormat ''sw t4, 0(t6)''])) (store_lines rs2 rs1 imm)"
    unfolding store_lines_def
    by (intro writes_append writes_single writes_format(1) writes_mask) (simp_all add: scalar_line_def is_space_def)
  then show ?thesis by (simp add: EmitStore_def store_scratch_def Let_def del: emits.simps)
qed

text \<open>The store writes the value of its operand register, except that \<open>t6\<close> is overwritten by the address
  computation before it is read.\<close>

lemma run_store:
  fixes imm :: u32
  assumes "abi_number rs2 = Some i" "abi_number rs1 = Some b" "default_memory S" "stack_ok (rget s 2)"
  shows "\<exists>s'. run_lines S (store_lines rs2 rs1 imm) s = Some s'
    \<and> load32 (rv_mem s') (sandbox 4 (rget s b + imm)) = (if i = 31 then rget s b + imm else rget s i)
    \<and> (\<forall>r. r \<notin> {6, 7, 28, 29, 31} \<longrightarrow> rget s' r = rget s r)
    \<and> (\<forall>x. 16 \<le> x - (rget s 2 - 16) \<longrightarrow> 4 \<le> x - sandbox 4 (rget s b + imm) \<longrightarrow> rv_mem s' x = rv_mem s x)"
proof -
  define k where "k = (if rs1 = ''t1'' \<or> rs2 = ''t1'' then (if rs1 = ''t2'' \<or> rs2 = ''t2'' then 28 else 7) else 6 :: nat)"
  have k: "abi_number (store_scratch rs2 rs1) = Some k" "k \<in> {6, 7, 28}"
    by (simp_all add: store_scratch_def k_def abi_numbers)
  have ne: "store_scratch rs2 rs1 \<noteq> rs1" "store_scratch rs2 rs1 \<noteq> rs2" by (auto simp: store_scratch_def)
  note reg = abi_reg_number [OF k(1)] abi_reg_number [OF assms(2)] abi_reg_number [OF assms(1)]
  have bk: "b \<noteq> k" "i \<noteq> k" using abi_number_inj [OF assms(2) k(1)] abi_number_inj [OF assms(1) k(1)] ne by auto
  define s1 where "s1 = set_reg 29 (if i = 31 then rget s b + imm else rget s i) (set_reg 31 (rget s b + imm) (set_reg k imm s))"
  have s1: "rget s1 2 = rget s 2" "rget s1 31 = rget s b + imm" "rget s1 29 = (if i = 31 then rget s b + imm else rget s i)"
    "rv_mem s1 = rv_mem s" "\<And>r. r \<notin> {6, 7, 28, 29, 31} \<Longrightarrow> rget s1 r = rget s r"
    using k(2) by (auto simp: s1_def rget_set_reg)
  have "stack_ok (rget s1 2)" using assms(4) s1(1) by simp
  from exec_mask [OF assms(3) this reserves_4]
  obtain s2 where s2: "exec_insts S (mask_insts 4) s1 = Some s2" "rget s2 31 = sandbox 4 (rget s1 31)"
    "\<And>r. r \<noteq> 31 \<Longrightarrow> rget s2 r = rget s1 r" "\<And>x. 16 \<le> x - (rget s1 2 - 16) \<Longrightarrow> rv_mem s2 x = rv_mem s1 x" by blast
  let ?is = "[LUI k (li_upper imm), ADDI k k (li_lower imm), ADD 31 b k, ADDI 29 i 0]"
  have "exec_insts S ?is s = Some s1"
    using k(2) bk li_sum [of imm] by (auto simp: s1_def rget_set_reg set_reg_twice)
  then have e: "exec_insts S (?is @ mask_insts 4) s = Some s2" using s2(1) by (simp only: exec_insts_append option.case)
  have sw: "read_lines [''sw t4, 0(t6)''] = Some [SW 29 0 31]" by (simp add: read_line_def reading)
  have "read_lines (store_lines rs2 rs1 imm) = Some ((?is @ mask_insts 4) @ [SW 29 0 31])"
    unfolding store_lines_def read_lines_append read_mask [OF reserves_mask [OF reserves_4]] sw
    using read_lui [OF reg(1) li_upper_less] read_addi [OF reg(1) reg(1) li_lower_imm12] read_add [OF reg(2,1)] read_mv [OF reg(3)] by simp
  from run_then [OF this e]
  have "run_lines S (store_lines rs2 rs1 imm) s = Some (s2\<lparr>rv_mem := store32 (sandbox 4 (rget s b + imm)) (rget s1 29) (rv_mem s2)\<rparr>)"
    using s2(2,3) s1(2) sandbox_permission [OF assms(3)] by simp
  then show ?thesis using s1 s2 by (simp add: load32_store32 store32_outside)
qed

end
