(* ===== verification/NPU_IsgReach.thy ===== *)
theory NPU_IsgReach
  imports NPU_IsgBlocks
begin

text \<open>
  The states the engine can reach through its operations. In each of them the text consists of complete
  lines and fits the buffer, and the watchdog has not expired.
\<close>

subsection \<open>The invariant\<close>

definition terminated :: "string \<Rightarrow> bool" where
  "terminated t \<longleftrightarrow> t = [] \<or> last t = CHR 0x0A"

definition isg_inv :: "IsgEngine \<Rightarrow> bool" where
  "isg_inv e \<longleftrightarrow> terminated (assembly_buffer e) \<and> length (assembly_buffer e) < kAssemblyBufferSize
     \<and> max_iterations (watchdog e) = 8000 \<and> current_iterations (watchdog e) \<le> 8000"

definition keep :: "emitter \<Rightarrow> bool" where
  "keep f \<longleftrightarrow> (\<forall>e e'. isg_inv e \<longrightarrow> f e = Some e' \<longrightarrow> isg_inv e')"

named_theorems keeping \<open>emitters that keep the invariant\<close>

lemma keepI: "(\<And>e e'. isg_inv e \<Longrightarrow> f e = Some e' \<Longrightarrow> isg_inv e') \<Longrightarrow> keep f"
  unfolding keep_def by blast

lemma keepD: "keep f \<Longrightarrow> isg_inv e \<Longrightarrow> f e = Some e' \<Longrightarrow> isg_inv e'"
  unfolding keep_def by blast

text \<open>An engine that differs in neither buffer nor watchdog.\<close>

definition same_text :: "IsgEngine \<Rightarrow> IsgEngine \<Rightarrow> bool" where
  "same_text e e' \<longleftrightarrow> assembly_buffer e' = assembly_buffer e \<and> watchdog e' = watchdog e"

lemma same_text_inv: "same_text e e' \<Longrightarrow> isg_inv e \<Longrightarrow> isg_inv e'"
  by (simp add: same_text_def isg_inv_def)

lemma same_text_trans: "same_text e e' \<Longrightarrow> same_text e' e'' \<Longrightarrow> same_text e e''"
  by (simp add: same_text_def)

lemma keep_same: "keep f \<Longrightarrow> (\<And>e. same_text e (g e)) \<Longrightarrow> keep (\<lambda>e. f (g e))"
  by (rule keepI) (blast intro: keepD same_text_inv)

lemma keep_update: "(\<And>e. same_text e (g e)) \<Longrightarrow> keep (\<lambda>e. Some (g e))"
  by (rule keepI) (use same_text_inv in blast)

lemma keep_emits [keeping]: "list_all keep fs \<Longrightarrow> keep (emits fs)"
proof (induction fs)
  case (Cons f fs)
  then show ?case by (intro keepI) (auto dest: keepD split: option.splits)
qed (simp add: keep_def)

lemma last_newline [simp]: "last newline = CHR 0x0A" "newline \<noteq> []"
  by (simp_all add: newline_def)

lemma terminated_newline [simp]: "terminated (t @ newline)"
  by (simp add: terminated_def)

lemma terminated_append [simp]: "terminated t \<Longrightarrow> terminated u \<Longrightarrow> terminated (t @ u)"
  by (auto simp: terminated_def last_append)

lemma append_text_inv: "isg_inv e \<Longrightarrow> terminated t \<Longrightarrow> append_text t e = Some e' \<Longrightarrow> isg_inv e'"
  by (auto simp: isg_inv_def append_text_def fits_buffer_def split: if_splits)

lemma keep_append_text [keeping]: "terminated t \<Longrightarrow> keep (append_text t)"
  by (rule keepI) (rule append_text_inv)

lemma terminated_right: "u \<noteq> [] \<Longrightarrow> terminated u \<Longrightarrow> terminated (t @ u)"
  by (simp add: terminated_def)

lemma terminated_nl: "terminated newline"
  by (simp add: terminated_def)

lemma keep_vsetvli [keeping]: "keep (EmitVsetvli rd rs1 sew lmul ta ma)"
  unfolding EmitVsetvli_def [abs_def]
  by (rule keep_same [where g = "set_vector_state 0xffffffff sew lmul ta ma"], intro keep_append_text terminated_right terminated_nl)
    (simp_all add: same_text_def set_vector_state_def)

lemma keep_vsetivli [keeping]: "keep (EmitVsetivli rd uimm sew lmul ta ma)"
  unfolding EmitVsetivli_def [abs_def]
  by (rule keep_same [where g = "set_vector_state uimm sew lmul ta ma"], intro keep_append_text terminated_right terminated_nl)
    (simp_all add: same_text_def set_vector_state_def)

lemma check_tick_inv: "isg_inv e \<Longrightarrow> check_tick e = Some e' \<Longrightarrow> isg_inv e'"
  by (auto simp: isg_inv_def check_tick_def Tick_def Let_def split: if_splits)

lemma same_text_draw: "same_text e (snd (draw e))"
  by (simp add: same_text_def draw_def)

lemma keep_draw: "(\<And>r. keep (f r)) \<Longrightarrow> keep (\<lambda>e. let (r, e) = draw e in f r e)"
proof (rule keepI)
  fix e e' assume f: "\<And>r. keep (f r)" and e: "isg_inv e" "(let (r, e) = draw e in f r e) = Some e'"
  then have "f (fst (draw e)) (snd (draw e)) = Some e'" by (simp add: Let_def split: prod.splits)
  then show "isg_inv e'" using keepD [OF f same_text_inv [OF same_text_draw e(1)]] by blast
qed

lemma keep_with_draw [keeping]: "(\<And>r. keep (f r)) \<Longrightarrow> keep (with_draw f)"
  unfolding with_draw_def [abs_def] by (rule keep_draw)

subsection \<open>Instructions\<close>

text \<open>The text an instruction leaves is complete although its two parts are written one after the other.\<close>

lemma emits_append_text: "emits [append_text t, append_text u] e = Some e' \<Longrightarrow> append_text (t @ u) e = Some e'"
  by (auto simp: append_text_def fits_buffer_def split: if_splits)

lemma keep_line: "isg_inv e \<Longrightarrow> emits [append_text t, append_text newline] e = Some e' \<Longrightarrow> isg_inv e'"
  by (drule emits_append_text) (erule append_text_inv [rotated 2]; simp)

lemma note_vsetvli_inv: "isg_inv e \<Longrightarrow> isg_inv (note_vsetvli e)"
  by (rule same_text_inv [rotated]) (simp_all add: same_text_def note_vsetvli_def)

lemma keep_dep: "(\<And>x. keep (f x)) \<Longrightarrow> keep (\<lambda>e. f (h e) e)"
  by (rule keepI) (rule keepD)

lemma keep_configure: "keep sp \<Longrightarrow> keep (configure_vector sp)"
  unfolding configure_vector_def [abs_def]
proof (rule keep_draw)
  fix r assume sp: "keep sp"
  let ?v = "ucast (r mod 32) + 1 :: u32"
  have a: "keep (append_text (''addi t3, zero, '' @ StrFormat_u ?v @ newline))"
    by (intro keep_append_text terminated_right terminated_nl) simp_all
  have b: "keep (\<lambda>e. EmitVsetvli ''t2'' ''t3'' (vst_sew (vector_state e)) (vst_lmul (vector_state e)) True True e)"
    by (rule keepI) (rule keepD [OF keep_vsetvli])
  have c: "keep (\<lambda>e. Some (e\<lparr>vector_state := (vector_state e)\<lparr>vst_vl := ?v\<rparr>\<rparr>))"
    by (rule keep_update) (simp add: same_text_def)
  show "keep (\<lambda>e. let vl_val = ?v in emits [append_text (''addi t3, zero, '' @ StrFormat_u vl_val @ newline),
        \<lambda>e. EmitVsetvli ''t2'' ''t3'' (vst_sew (vector_state e)) (vst_lmul (vector_state e)) True True e,
        \<lambda>e. Some (e\<lparr>vector_state := (vector_state e)\<lparr>vst_vl := vl_val\<rparr>\<rparr>), sp] e)"
    unfolding Let_def by (rule keep_emits) (simp only: list.pred_inject a b c sp simp_thms)
qed

lemma keep_emit_format: "keep sp \<Longrightarrow> keep (emit_format sp text)"
proof (rule keepI)
  fix e e' assume sp: "keep sp" and e: "isg_inv e" "emit_format sp text e = Some e'"
  then obtain e1 where e1: "check_tick e = Some e1" "isg_inv e1" using check_tick_inv by (auto simp: emit_format_def split: option.splits)
  note f = e(2) [unfolded emit_format_def e1(1) option.case Let_def]
  consider "emits [append_text text, append_text newline] (note_vsetvli e1) = Some e'"
    | e2 where "configure_vector sp e1 = Some e2" "emits [append_text text, append_text newline] e2 = Some e'"
    | "emits [append_text text, append_text newline] e1 = Some e'"
    using f by (auto split: if_splits option.splits)
  then show "isg_inv e'"
    by cases (blast intro: keep_line note_vsetvli_inv e1(2) keepD [OF keep_configure [OF sp] e1(2)])+
qed

lemma keep_emit_instruction: "keep sp \<Longrightarrow> keep (emit_instruction sp inst)"
proof (rule keepI)
  fix e e' assume sp: "keep sp" and e: "isg_inv e" "emit_instruction sp inst e = Some e'"
  then obtain e1 where e1: "check_tick e = Some e1" "isg_inv e1" using check_tick_inv by (auto simp: emit_instruction_def split: option.splits)
  note f = e(2) [unfolded emit_instruction_def e1(1) option.case Let_def]
  consider "append_text (inst @ newline) (note_vsetvli e1) = Some e'"
    | e2 where "configure_vector sp e1 = Some e2" "append_text (inst @ newline) e2 = Some e'"
    | "append_text (inst @ newline) e1 = Some e'" | "e1 = e'"
    using f by (auto split: if_splits option.splits)
  then show "isg_inv e'"
  proof cases
    case 1
    then show ?thesis by (rule append_text_inv [OF note_vsetvli_inv [OF e1(2)] terminated_newline])
  next
    case 2
    then show ?thesis using append_text_inv [OF keepD [OF keep_configure [OF sp] e1(2)] terminated_newline] by blast
  next
    case 3
    then show ?thesis by (rule append_text_inv [OF e1(2) terminated_newline])
  qed (use e1(2) in simp)
qed

lemma keep_li: "(\<And>l. keep (emit l)) \<Longrightarrow> keep (emit_li emit reg val)"
  unfolding emit_li_def by (rule keep_emits) simp

lemma keep_pointers: "(\<And>l. keep (emit l)) \<Longrightarrow> keep (emit_safe_pointers emit regs)"
proof (induction regs)
  case (Cons reg regs)
  show ?case
  proof (rule keepI)
    fix e e' assume e: "isg_inv e" "emit_safe_pointers emit (reg # regs) e = Some e'"
    then obtain v e1 where e1: "emit_li emit reg v (snd (draw e)) = Some e1" "emit_safe_pointers emit regs e1 = Some e'"
      by (auto simp: Let_def split: prod.splits option.splits)
    have "isg_inv e1" by (rule keepD [OF keep_li same_text_inv e1(1)]) (use Cons.prems same_text_draw e(1) in blast)+
    then show "isg_inv e'" by (rule keepD [OF Cons.IH [OF Cons.prems] _ e1(2)])
  qed
qed (simp add: keep_def)

lemma keep_none: "keep (\<lambda>e. None)"
  by (simp add: keep_def)

lemma keep_safe_pointers: "keep safe_pointers"
  unfolding safe_pointers_def by (rule keep_pointers) (rule keep_emit_format [OF keep_none])

lemma keep_format [keeping, simp]: "keep (EmitInstructionFormat l)"
  unfolding EmitInstructionFormat_def by (rule keep_emit_format [OF keep_safe_pointers])

lemma keep_instruction [keeping, simp]: "keep (EmitInstruction l)"
  unfolding EmitInstruction_def by (rule keep_emit_instruction [OF keep_safe_pointers])

lemma keep_EmitLi [keeping, simp]: "keep (EmitLi reg val)"
  unfolding EmitLi_def by (rule keep_li) (rule keep_format)

lemma keep_EmitSafePointerInit [keeping]: "keep (EmitSafePointerInit regs)"
  unfolding EmitSafePointerInit_def by (rule keep_pointers) (rule keep_format)

lemma keep_map_instructions [simp]: "list_all keep (map EmitInstruction ls)"
  by (induction ls) simp_all

lemma keep_constants [simp]: "list_all keep (load_constant reg val)"
  by (simp add: load_constant_def)

lemma keep_mask_emitters: "list_all keep (mask_emitters n)"
  by (simp add: mask_emitters_def Let_def list.pred_inject)

lemma keep_DynamicMask [keeping, simp]: "keep (EmitDynamicMask n)"
  unfolding EmitDynamicMask_def [abs_def]
  by (rule keepI) (use keepD [OF keep_emits [OF keep_mask_emitters]] in \<open>auto split: if_splits\<close>)

subsection \<open>Blocks\<close>

lemma AlignVectorReg_text: "same_text e (snd (AlignVectorReg reg lmul e))"
  by (auto simp: AlignVectorReg_def same_text_def draw_def Let_def split: option.split)

lemma keep_reg:
  assumes f: "\<And>r. keep (f r)" and g: "\<And>e. same_text e (snd (g e))"
  shows "keep (\<lambda>e. let (r, e) = g e in f r e)"
proof (rule keepI)
  fix e e' assume e: "isg_inv e" "(let (r, e) = g e in f r e) = Some e'"
  then have "f (fst (g e)) (snd (g e)) = Some e'" by (simp add: Let_def split: prod.splits)
  then show "isg_inv e'" using keepD [OF f same_text_inv [OF g e(1)]] by blast
qed

lemma keep_align: "(\<And>r. keep (f r)) \<Longrightarrow> keep (\<lambda>e. let (r, e) = AlignVectorReg reg lmul e in f r e)"
  by (rule keep_reg) (simp_all add: AlignVectorReg_text)

lemma keep_vector [simp]: "keep (emit_vector mnemonic vd vs2 vs1 masked)"
proof -
  have "keep (\<lambda>e. let (aligned_vd, e) = AlignVectorReg vd lmul e;
          (aligned_vs2, e) = AlignVectorReg vs2 lmul e;
          (aligned_vs1, e) = AlignVectorReg vs1 lmul e
      in EmitInstructionFormat (mnemonic @ '' '' @ aligned_vd @ '', '' @ aligned_vs2 @ '', '' @ aligned_vs1
           @ (if masked then '', v0.t'' else [])) e)" for lmul
    by (intro keep_align keep_format)
  from keep_dep [OF this, of "\<lambda>e. vst_lmul (vector_state e)"] show ?thesis
    unfolding emit_vector_def [abs_def] Let_def [of "vst_lmul _"] .
qed

lemma keep_vector_blocks [simp]:
  "keep (EmitVadd vd vs2 vs1 masked)" "keep (EmitVmul vd vs2 vs1 masked)" "keep (EmitVsub vd vs2 vs1 masked)" "keep (EmitVdiv vd vs2 vs1 masked)"
  by (simp_all add: EmitVadd_def EmitVmul_def EmitVsub_def EmitVdiv_def)

lemma CalculateEmul_inv: "isg_inv e \<Longrightarrow> CalculateEmul sew lmul eew e = Some (emul, e') \<Longrightarrow> isg_inv e'"
  using same_text_inv [OF same_text_draw] keepD [OF keep_vsetvli]
  by (fastforce simp: CalculateEmul_def Let_def split: prod.splits if_splits)

lemma keep_load_store [simp]: "keep (EmitLoad rd rs1 imm)" "keep (EmitStore rs2 rs1 imm)"
  by (simp_all add: EmitLoad_def EmitStore_def Let_def keep_emits list.pred_inject del: emits.simps)

lemma keep_emul: "(\<And>m. keep (f m)) \<Longrightarrow> keep (\<lambda>e. case CalculateEmul (sew e) (lmul e) eew e of None \<Rightarrow> None | Some (emul, e) \<Rightarrow> f emul e)"
  by (rule keepI) (auto split: option.splits dest: CalculateEmul_inv keepD)

lemma keep_vector_loads [simp]: "keep (EmitVectorLoadStrided vd rs1 rs2)" "keep (EmitVectorLoadIndexed vd rs1 vs2)"
proof -
  have "keep (\<lambda>e. case CalculateEmul (vst_sew (vector_state e)) (vst_lmul (vector_state e)) 32 e of None \<Rightarrow> None
       | Some (emul, e) \<Rightarrow> let (aligned_vd, e) = AlignVectorReg vd emul e
           in EmitInstructionFormat (''vlse32.v '' @ aligned_vd @ '', (t6), t4'') e)"
    by (intro keep_emul keep_align keep_format)
  then show "keep (EmitVectorLoadStrided vd rs1 rs2)" by (simp add: EmitVectorLoadStrided_def keep_emits del: emits.simps)
  have t: "same_text e (snd (if t = a \<or> t = b
       then let (t, e) = AlignVectorReg ''v15'' emul e in if t = a \<or> t = b then AlignVectorReg ''v23'' emul e else (t, e)
       else (t, e)))" for e t a b emul
    using AlignVectorReg_text [of e "''v15''" emul] AlignVectorReg_text [of "snd (AlignVectorReg ''v15'' emul e)" "''v23''" emul]
    by (auto simp: Let_def same_text_def split: prod.split)
  show "keep (EmitVectorLoadIndexed vd rs1 vs2)"
    unfolding EmitVectorLoadIndexed_def [abs_def]
    by (rule keep_emul, rule keep_reg, rule keep_align, rule keep_align, rule keep_reg)
      (simp_all add: Let_def keep_emits AlignVectorReg_text t del: emits.simps)
qed

subsection \<open>Preamble and hazards\<close>

lemma terminated_line: "terminated (l @ newline)"
  by simp

lemma keep_lines_text: "t \<noteq> [] \<Longrightarrow> last t = CHR 0x0A \<Longrightarrow> keep (append_text t)"
  by (rule keep_append_text) (simp add: terminated_def)

lemma keep_simple [simp]: "keep EmitMpause" "keep EmitIllegalInstruction" "keep EmitEbreak" "keep (EmitCoverpoint name)"
  "keep (SetupTrapHandler a)" "keep (EmitDataHazard n1 n2)" "keep EmitFpPoisonPills"
  unfolding EmitMpause_def EmitIllegalInstruction_def EmitEbreak_def EmitCoverpoint_def SetupTrapHandler_def EmitDataHazard_def EmitFpPoisonPills_def
  by (intro keep_emits keep_append_text terminated_right terminated_nl keep_instruction;
      simp add: keep_lines_text newline_def; simp add: keep_lines_text newline_def)+

lemma keep_EmitVtype [simp]: "keep (EmitVtype sew lmul l)"
proof (rule keepI)
  fix e e' assume e: "isg_inv e" "EmitVtype sew lmul l e = Some e'"
  have u: "keep (\<lambda>e. Some (e\<lparr>vector_state := (vector_state e)\<lparr>vst_vl := word_of_int l\<rparr>\<rparr>))"
    by (rule keep_update) (simp add: same_text_def)
  have k: "keep (emits [EmitLi ''t3'' (word_of_int l), EmitVsetvli ''zero'' ''t3'' v m True True,
      \<lambda>e. Some (e\<lparr>vector_state := (vector_state e)\<lparr>vst_vl := word_of_int l\<rparr>\<rparr>)])" for v m
    by (rule keep_emits) (simp only: list.pred_inject keep_EmitLi keep_vsetvli u simp_thms)
  show "isg_inv e'"
    using e(2) keepD [OF keep_vsetvli e(1)] keepD [OF k e(1)] by (auto simp: EmitVtype_def simp del: emits.simps split: option.splits if_splits)
qed

lemma keep_nops [simp]: "keep (nops n)"
  unfolding nops_def by (rule keep_emits) (simp add: list_all_iff)

lemma keep_current: "(\<And>x. keep (f x)) \<Longrightarrow> keep (\<lambda>e. f (CurrentPc e) e)"
  by (rule keep_dep)

lemma keep_map: "(\<And>x. keep (f x)) \<Longrightarrow> list_all keep (map f xs)"
  by (induction xs) simp_all

lemma keep_concat_map: "(\<And>x. list_all keep (f x)) \<Longrightarrow> list_all keep (concat (map f xs))"
  by (induction xs) simp_all

lemma keep_trap_handler [simp]: "keep trap_handler"
proof -
  have "keep (\<lambda>e. EmitInstructionFormat (''beq t1, t2, '' @ StrFormat_alt_x (CurrentPc e + 20)) e)"
    "keep (\<lambda>e. EmitInstructionFormat (''jal zero, '' @ StrFormat_alt_x (CurrentPc e + 8)) e)"
    by (rule keep_current, rule keep_format)+
  then show ?thesis
    unfolding trap_handler_def by (intro keep_emits) (simp only: list_all_append keep_map_instructions list.pred_inject simp_thms)
qed

lemma keep_fill_memory [simp]: "keep fill_memory"
proof -
  have a: "keep (emits (append_text (''1:'' @ newline) # map EmitInstruction ls @ [EmitInstructionFormat (f pc)]))" for ls f and pc :: u32
    by (rule keep_emits) (simp add: keep_lines_text)
  have b: "keep (with_draw (\<lambda>r. let sv = ucast r :: u32; sv = (if sv = 0 then 1 else sv) in EmitLi ''t1'' sv))"
    by (rule keep_with_draw) (simp add: Let_def)
  have c: "keep (\<lambda>e. emits (append_text (''1:'' @ newline) # map EmitInstruction ls @ [EmitInstructionFormat (f (CurrentPc e))]) e)" for ls f
    by (rule keepI) (rule keepD [OF a])
  show ?thesis
    unfolding fill_memory_def Let_def
    by (rule keep_emits) (simp only: list.pred_inject keep_EmitLi b [unfolded Let_def] c [where f = "\<lambda>pc. ''bne t2, zero, 0x'' @ StrFormat_x pc"] simp_thms)
qed

lemma keep_random_parts [simp]: "keep random_registers" "keep random_csrs" "keep random_fp_registers"
  unfolding random_registers_def random_csrs_def random_fp_registers_def
  by (intro keep_emits keep_map keep_concat_map; simp add: keep_with_draw list.pred_inject)+

lemma keep_load_vector_registers [simp]: "keep load_vector_registers"
proof -
  have "keep (\<lambda>e. Some (e\<lparr>vector_state := (vector_state e)\<lparr>vst_sew := e8, vst_lmul := m8, configured := False, vst_vl := 0\<rparr>\<rparr>))"
    by (rule keep_update) (simp add: same_text_def)
  then show ?thesis
    unfolding load_vector_registers_def
    by (intro keep_emits) (simp only: list_all_append list.pred_inject keep_EmitLi simp_thms, intro keep_concat_map, simp)
qed

lemma keep_preamble [simp]: "keep EmitPreamble"
proof -
  have a: "keep (append_text (''; BEGIN PROTECTED'' @ newline @ ''.text'' @ newline @ ''.global _start'' @ newline @ ''_start:'' @ newline))"
    "keep (append_text (''; END PROTECTED'' @ newline @ ''; BEGIN MUTABLE'' @ newline @ ''_mutable_start:'' @ newline))"
    by (rule keep_lines_text; simp add: newline_def)+
  have b: "list_all keep (map (\<lambda>reg. with_draw (\<lambda>r. EmitLi reg (random_pointer r))) regs)" for regs
    by (rule keep_map) (simp add: keep_with_draw)
  show ?thesis
    unfolding EmitPreamble_def
    by (rule keep_emits) (simp only: list_all_append list.pred_inject a b keep_EmitLi keep_instruction keep_trap_handler keep_simple keep_fill_memory
        keep_random_parts keep_load_vector_registers simp_thms)
qed

lemma keep_random_instructions: "keep (random_instructions decode g n)"
proof (induction n arbitrary: g)
  case (Suc n)
  show ?case
  proof (rule keepI)
    fix e e' assume e: "isg_inv e" "random_instructions decode g (Suc n) e = Some e'"
    have d: "isg_inv (snd (draw e))" by (rule same_text_inv [OF same_text_draw e(1)])
    show "isg_inv e'"
      using e d keepD [OF keep_instruction d] by (auto simp: Let_def split: if_splits prod.splits option.splits intro: keepD [OF Suc.IH])
  qed
qed (simp add: keep_def)

lemma keep_hazards [simp]: "keep GenerateDataHazard" "keep GenerateControlHazard" "keep GenerateStructuralHazard" "keep GenerateEdgeCaseOperands"
  "keep (GenerateRandomInstructions decode)"
  unfolding GenerateDataHazard_def GenerateControlHazard_def GenerateStructuralHazard_def GenerateEdgeCaseOperands_def GenerateRandomInstructions_def Let_def
  subgoal by (intro keep_with_draw keep_emits) (simp add: keep_vsetvli)
  subgoal by (intro keep_with_draw keep_emits, simp only: list.pred_inject keep_instruction simp_thms, rule keep_current, rule keep_emits) simp
  subgoal by (intro keep_with_draw keep_emits, simp only: list.pred_inject keep_vsetvli simp_thms, intro keep_with_draw keep_emits) (simp add: list_all_iff)
  subgoal by (rule keep_emits) simp
  subgoal by (rule keep_random_instructions)
  done

subsection \<open>Reachable engines\<close>

text \<open>The public operations of \<open>IsgEngine\<close> and its block builders, and the hazard generators.\<close>

datatype isg_op =
    Preamble | Instruction string | Format string | Vsetvli string string VectorSew VectorLmul bool bool
  | Vsetivli string u32 VectorSew VectorLmul bool bool | Ebreak | Mpause | IllegalInst | DataHazard string string
  | FpPoisonPills | Vtype int int int | Coverpoint string | SafePointerInit "string list" | TrapHandler u32
  | Vadd string string string bool | Vmul string string string bool | Vsub string string string bool | Vdiv string string string bool
  | Load string string u32 | Store string string u32 | VectorLoadStrided string string string | VectorLoadIndexed string string string
  | GenData | GenControl | GenStructural | GenEdge | GenRandom "u32 \<Rightarrow> string option"

fun run_isg :: "isg_op \<Rightarrow> emitter" where
  "run_isg Preamble = EmitPreamble"
| "run_isg (Instruction l) = EmitInstruction l"
| "run_isg (Format l) = EmitInstructionFormat l"
| "run_isg (Vsetvli rd rs1 sew lmul ta ma) = EmitVsetvli rd rs1 sew lmul ta ma"
| "run_isg (Vsetivli rd imm sew lmul ta ma) = EmitVsetivli rd imm sew lmul ta ma"
| "run_isg Ebreak = EmitEbreak"
| "run_isg Mpause = EmitMpause"
| "run_isg IllegalInst = EmitIllegalInstruction"
| "run_isg (DataHazard n1 n2) = EmitDataHazard n1 n2"
| "run_isg FpPoisonPills = EmitFpPoisonPills"
| "run_isg (Vtype sew lmul l) = EmitVtype sew lmul l"
| "run_isg (Coverpoint name) = EmitCoverpoint name"
| "run_isg (SafePointerInit regs) = EmitSafePointerInit regs"
| "run_isg (TrapHandler a) = SetupTrapHandler a"
| "run_isg (Vadd vd vs2 vs1 m) = EmitVadd vd vs2 vs1 m"
| "run_isg (Vmul vd vs2 vs1 m) = EmitVmul vd vs2 vs1 m"
| "run_isg (Vsub vd vs2 vs1 m) = EmitVsub vd vs2 vs1 m"
| "run_isg (Vdiv vd vs2 vs1 m) = EmitVdiv vd vs2 vs1 m"
| "run_isg (Load rd rs1 imm) = EmitLoad rd rs1 imm"
| "run_isg (Store rs2 rs1 imm) = EmitStore rs2 rs1 imm"
| "run_isg (VectorLoadStrided vd rs1 rs2) = EmitVectorLoadStrided vd rs1 rs2"
| "run_isg (VectorLoadIndexed vd rs1 vs2) = EmitVectorLoadIndexed vd rs1 vs2"
| "run_isg GenData = GenerateDataHazard"
| "run_isg GenControl = GenerateControlHazard"
| "run_isg GenStructural = GenerateStructuralHazard"
| "run_isg GenEdge = GenerateEdgeCaseOperands"
| "run_isg (GenRandom decode) = GenerateRandomInstructions decode"

inductive isg_reachable :: "(u64 \<Rightarrow> u64 stream) \<Rightarrow> CoralNPUV2State \<Rightarrow> IsgEngine \<Rightarrow> bool" for mt s0 where
  start: "isg_reachable mt s0 (IsgEngine_init mt s0 seed)"
| emit: "isg_reachable mt s0 e \<Longrightarrow> run_isg op e = Some e' \<Longrightarrow> isg_reachable mt s0 e'"
| reset: "isg_reachable mt s0 e \<Longrightarrow> isg_reachable mt s0 (IsgEngine_Reset mt e)"
| seed: "isg_reachable mt s0 e \<Longrightarrow> isg_reachable mt s0 (SetSeed mt seed e)"
| tag: "isg_reachable mt s0 e \<Longrightarrow> isg_reachable mt s0 (AddHazardTag t e)"
| trap: "isg_reachable mt s0 e \<Longrightarrow> isg_reachable mt s0 (SetExpectedTrap mcause mepc mtval e)"
| strict: "isg_reachable mt s0 e \<Longrightarrow> isg_reachable mt s0 (set_strict_sandboxing b e)"

inductive_cases isg_reachable_cases: "isg_reachable mt s0 e"

lemma keep_run_isg: "keep (run_isg op)"
  by (cases op) (simp_all add: keeping)

lemma reachable_inv: "isg_reachable mt s0 e \<Longrightarrow> isg_inv e"
proof (induction rule: isg_reachable.induct)
  case (emit e op e')
  then show ?case using keepD [OF keep_run_isg] by blast
qed (simp_all add: isg_inv_def IsgEngine_init_def IsgEngine_Reset_def IsgWatchdog_Reset_def SetSeed_def AddHazardTag_def SetExpectedTrap_def
    set_strict_sandboxing_def terminated_def kAssemblyBufferSize_def)

lemma inv_ready: "isg_inv e \<Longrightarrow> strict_sandboxing e \<Longrightarrow> ready e"
  by (simp add: isg_inv_def ready_def word_le_nat_alt)

end
