(* ===== verification/NPU_IsgBuild.thy ===== *)
theory NPU_IsgBuild
  imports NPU_IsgReach
begin

text \<open>The program counter of a text, line by line, and the layout of the finished sequence.\<close>

lemma split_on_nonempty: "split_on sep t \<noteq> []"
  by (induction t) (auto split: list.split)

lemma split_on_join: "sep c \<Longrightarrow> split_on sep (a @ c # b) = split_on sep a @ split_on sep b"
proof (induction a)
  case (Cons x a)
  obtain y ys where "split_on sep a = y # ys" using split_on_nonempty [of sep a] by (cases "split_on sep a") auto
  then show ?case using Cons by simp
qed simp

definition lines_pc :: "string list \<Rightarrow> u32" where
  "lines_pc ls = sum_list (map line_bytes ls)"

lemma foldl_lines: "foldl (\<lambda>pc l. pc + line_bytes l) a ls = a + lines_pc ls"
  by (induction ls arbitrary: a) (simp_all add: lines_pc_def add.assoc)

lemma text_pc_lines: "text_pc t = lines_pc (split_lines t)"
  by (simp add: text_pc_def foldl_lines)

lemma text_pc_join: "text_pc (a @ newline @ b) = text_pc a + text_pc b"
  by (simp add: text_pc_lines split_lines_def newline_def split_on_join lines_pc_def)

lemma text_pc_Nil [simp]: "text_pc [] = 0"
  by (simp add: text_pc_lines split_lines_def lines_pc_def)

lemma text_pc_append:
  assumes "terminated t"
  shows "text_pc (t @ b) = text_pc t + text_pc b"
proof (cases "t = []")
  case False
  then have "t = butlast t @ newline"
    using assms append_butlast_last_id [OF False] by (simp add: terminated_def newline_def)
  then obtain a where a: "t = a @ newline" by blast
  then show ?thesis using text_pc_join [of a b] text_pc_join [of a "[]"] by simp
qed simp

text \<open>A line without newline characters.\<close>

definition one_line :: "string \<Rightarrow> bool" where
  "one_line l \<longleftrightarrow> l \<noteq> [] \<and> CHR 0x0A \<notin> set l"

lemma text_pc_line: "one_line l \<Longrightarrow> text_pc (l @ newline) = line_bytes l"
proof -
  assume l: "one_line l"
  then have "split_on (\<lambda>c. c = CHR 0x0A) l = [l]" by (intro split_on_plain) (auto simp: one_line_def list_all_iff)
  then have "text_pc l = line_bytes l" using l by (simp add: text_pc_lines split_lines_def lines_pc_def one_line_def)
  then show ?thesis using text_pc_join [of l "[]"] by simp
qed

lemma line_bytes_4: "\<exists>k. line_bytes l = 4 * k"
proof -
  have "line_bytes l = 0 \<or> line_bytes l = 4" by (simp add: line_bytes_def Let_def)
  then show ?thesis by (metis mult_zero_right mult.right_neutral)
qed

lemma text_pc_4: "\<exists>k. text_pc t = 4 * k"
proof -
  have "\<exists>k. lines_pc ls = 4 * k" for ls
  proof (induction ls)
    case (Cons l ls)
    then obtain i j where "lines_pc ls = 4 * i" "line_bytes l = 4 * j" using line_bytes_4 by blast
    then show ?case by (intro exI [of _ "j + i"]) (simp add: lines_pc_def distrib_left)
  qed (auto simp: lines_pc_def intro: exI [of _ 0])
  then show ?thesis by (simp add: text_pc_lines)
qed

lemma text_pc_dvd: "4 dvd unat (text_pc t)"
proof -
  obtain k where "text_pc t = 4 * k" using text_pc_4 by blast
  then have "unat (text_pc t) = (4 * unat k) mod 2 ^ 32" by (simp add: unat_word_ariths)
  then show ?thesis by (simp add: dvd_mod)
qed

declare pad_nops.simps [simp del]

lemma nop_bytes: "text_pc (''addi x0, x0, 0'' @ newline) = 4"
  by (subst text_pc_line) (simp_all add: one_line_def line_bytes_def StripAsciiWhitespace_def is_space_def is_label_def)

lemma pad_nops_spec:
  "terminated t \<Longrightarrow> text_pc t = pc \<Longrightarrow> pc \<le> 8188 \<Longrightarrow>
    \<exists>u. pad_nops pc t = t @ u \<and> terminated (t @ u) \<and> text_pc (t @ u) = 8188"
proof (induction pc t rule: pad_nops.induct)
  case (1 pc t)
  show ?case
  proof (cases "pc < 8188")
    case True
    have "4 dvd unat pc" using text_pc_dvd 1(3) by metis
    moreover have "unat pc < 8188" using True by (simp add: word_less_nat_alt)
    ultimately have "unat pc + 4 \<le> 8188" by (auto elim!: dvdE)
    then have le: "pc + 4 \<le> 8188" by (simp add: word_le_nat_alt unat_word_ariths)
    let ?t = "t @ ''addi x0, x0, 0'' @ newline"
    have "terminated ?t" by (intro terminated_right terminated_nl) simp_all
    moreover have "text_pc ?t = pc + 4" using text_pc_append [OF 1(2)] 1(3) nop_bytes by simp
    ultimately obtain u where "pad_nops (pc + 4) ?t = ?t @ u" "terminated (?t @ u)" "text_pc (?t @ u) = 8188"
      using 1(1) [OF True _ _ le] by blast
    then show ?thesis using True by (subst pad_nops.simps) (intro exI [of _ "''addi x0, x0, 0'' @ newline @ u"], simp)
  next
    case False
    then show ?thesis using 1 by (subst pad_nops.simps) (intro exI [of _ "[]"], simp)
  qed
qed

lemma Build_parts:
  assumes "isg_inv e" "\<not> 8188 < CurrentPc e"
  shows "\<exists>ts pre. Build e = Some ts \<and> assembly_text ts = pre @ ''.word 0x08000073'' @ newline @ ''; END PROTECTED'' @ newline
    \<and> take (length (assembly_buffer e)) pre = assembly_buffer e \<and> text_pc pre = 8188 \<and> text_pc (assembly_text ts) = 8192"
proof -
  define m where "m = ''_mutable_end:'' @ newline @ ''; END MUTABLE'' @ newline @ ''; BEGIN PROTECTED'' @ newline"
  define w where "w = ''.word 0x08000073'' @ newline @ ''; END PROTECTED'' @ newline"
  have m: "text_pc m = 0" and w: "text_pc w = 4"
    by (simp_all add: m_def w_def text_pc_lines split_lines_def lines_pc_def newline_def line_bytes_def StripAsciiWhitespace_def
        is_space_def is_label_def StartsWith_def)
  have t: "terminated (assembly_buffer e)" using assms(1) by (simp add: isg_inv_def)
  have tm: "terminated (assembly_buffer e @ m)" unfolding m_def by (intro terminated_right terminated_nl) simp_all
  have pc: "text_pc (assembly_buffer e @ m) = CurrentPc e" using text_pc_append [OF t, of m] m by (simp add: CurrentPc_def)
  obtain u where u: "pad_nops (CurrentPc e) (assembly_buffer e @ m) = (assembly_buffer e @ m) @ u"
    "terminated ((assembly_buffer e @ m) @ u)" "text_pc ((assembly_buffer e @ m) @ u) = 8188"
    using pad_nops_spec [OF tm pc assms(2) [unfolded not_less]] by blast
  have "text_pc (((assembly_buffer e @ m) @ u) @ w) = 8192" using text_pc_append [OF u(2), of w] u(3) w by simp
  moreover have "Build e = Some \<lparr>ts_prng_seed = prng_seed e, assembly_text = ((assembly_buffer e @ m) @ u) @ w,
      trap_event = expected_trap e, ts_hazard_tags = hazard_tags e, expected_terminal_state = ''mpause'', ts_assertion_count = assertion_count e\<rparr>"
    unfolding Build_def Let_def m_def [symmetric] w_def [symmetric] u(1) using assms(2) by simp
  ultimately show ?thesis
    using u(3) unfolding w_def by (intro exI conjI) (assumption, simp_all)
qed

end
