(* ===== verification/NPU_IsgClaims.thy ===== *)
theory NPU_IsgClaims
  imports NPU_IsgBuild NPU_V2Claims
begin

text \<open>The properties of the instruction stream generator.\<close>

declare digits.simps [simp del]

subsection \<open>The loop of the control hazard\<close>








lemma steps_add: "steps S base is (m + n) c = (case steps S base is m c of None \<Rightarrow> None | Some c \<Rightarrow> steps S base is n c)"
  by (induction m arbitrary: c) (auto split: option.split)



subsection \<open>The text of the control hazard\<close>


























subsection \<open>Properties\<close>

text \<open>
  Property C33. \<open>EmitLi\<close> loads every 32-bit constant exactly, negative lower halves included: as long as its
  two lines fit the buffer and the watchdog it appends assembly whose immediates are all encodable
  and whose execution sets the register to the constant and changes nothing else.
\<close>

theorem EmitLi_loads:
  assumes "ready e" "has_room (li_lines reg val) e" "reg_number reg = Some r" "r \<noteq> 0"
  shows "\<exists>e' ls. EmitLi reg val e = Some e' \<and> assembly_buffer e' = assembly_buffer e @ unlines ls
    \<and> run_lines S ls s = Some (set_reg r val s)"
proof -
  obtain e' where e': "EmitLi reg val e = Some e'" using writes_succeeds [OF writes_li assms(1,2)] by blast
  show ?thesis
    using e' writesD [OF writes_li assms(1) e'] read_li(1) [OF assms(3)] exec_li [OF assms(4)]
    by (intro exI [of _ e'] exI [of _ "li_lines reg val"]) (simp add: after_def run_lines_def)
qed


text \<open>
  Property C7. The code \<open>EmitStore\<close> generates stays in the sandbox in the same sense: it faults never, writes one word inside
  a data region behind the reserved bytes and, apart from sixteen bytes of stack, no other memory, and
  changes only the scratch registers. The word is the contents of \<open>rs2\<close>, unless \<open>rs2\<close> is \<open>t6\<close>: then it is
  the unmasked address.
\<close>

theorem stores_sandboxed:
  fixes imm :: u32
  assumes "ready e" "has_room (store_lines rs2 rs1 imm) e" "abi_number rs2 = Some i" "abi_number rs1 = Some b"
    and "default_memory S" "stack_ok (rget s 2)"
  shows "\<exists>e' ls s' a. EmitStore rs2 rs1 imm e = Some e' \<and> assembly_buffer e' = assembly_buffer e @ unlines ls
    \<and> run_lines S ls s = Some s' \<and> load32 (rv_mem s') a = (if rs2 = ''t6'' then rget s b + imm else rget s i)
    \<and> (0x10200 \<le> uint a \<and> uint a + 4 \<le> 0x18000 \<or> 0x20000000 \<le> uint a \<and> uint a + 4 \<le> 0x20400000)
    \<and> (\<forall>r. r \<notin> {6, 7, 28, 29, 31} \<longrightarrow> rget s' r = rget s r)
    \<and> (\<forall>x. 16 \<le> x - (rget s 2 - 16) \<longrightarrow> 4 \<le> x - a \<longrightarrow> rv_mem s' x = rv_mem s x)"
proof -
  obtain e' where e': "EmitStore rs2 rs1 imm e = Some e'" using writes_succeeds [OF writes_store assms(1,2)] by blast
  have i: "(i = 31) = (rs2 = ''t6'')" using abi_number_inj [OF assms(3) abi_numbers(1)] by simp
  from run_store [where imm = imm, OF assms(3-6)] obtain s' where
    "run_lines S (store_lines rs2 rs1 imm) s = Some s'"
    "load32 (rv_mem s') (sandbox 4 (rget s b + imm)) = (if rs2 = ''t6'' then rget s b + imm else rget s i)"
    "\<forall>r. r \<notin> {6, 7, 28, 29, 31} \<longrightarrow> rget s' r = rget s r"
    "\<forall>x. 16 \<le> x - (rget s 2 - 16) \<longrightarrow> 4 \<le> x - sandbox 4 (rget s b + imm) \<longrightarrow> rv_mem s' x = rv_mem s x"
    unfolding i by blast
  then show ?thesis
    using e' writesD [OF writes_store assms(1) e'] sandbox_bounds [OF reserves_4, of "rget s b + imm"]
    by (intro exI [of _ e'] exI [of _ "store_lines rs2 rs1 imm"] exI [of _ s'] exI [of _ "sandbox 4 (rget s b + imm)"]) (simp add: after_def)
qed


text \<open>
  Property C31. \<open>Build\<close> fails exactly when the text is larger than the 8188 bytes it has room for. Otherwise the
  sequence begins with the text generated so far, is padded so that the final \<open>mpause\<close> lies at address 8188,
  and occupies exactly the 8192 bytes of the executable region.
\<close>

theorem Build_layout:
  assumes "isg_reachable mt s0 e"
  shows "if 8188 < CurrentPc e then Build e = None
    else \<exists>ts pre. Build e = Some ts \<and> assembly_text ts = pre @ ''.word 0x08000073'' @ newline @ ''; END PROTECTED'' @ newline
      \<and> take (length (assembly_buffer e)) pre = assembly_buffer e \<and> text_pc pre = 8188 \<and> text_pc (assembly_text ts) = kDefaultRxRegionLength"
proof (cases "8188 < CurrentPc e")
  case True
  then show ?thesis by (simp add: Build_def Let_def)
next
  case False
  then show ?thesis using Build_parts [OF reachable_inv [OF assms] False] by (simp add: kDefaultRxRegionLength_def)
qed








subsection \<open>Instances\<close>

definition sample_engine :: IsgEngine where
  "sample_engine = IsgEngine_init (\<lambda>seed. sconst 7) (sample_state default_memory_regions) 1"

definition sample_rv :: rv where
  "sample_rv = \<lparr>rv_reg = (\<lambda>r. if r = 2 then 0x18000 else of_nat r * 0x11111111), rv_mem = (\<lambda>a. ucast a)\<rparr>"

lemma sample_ready: "ready sample_engine" "assembly_buffer sample_engine = []" "CurrentPc sample_engine = 0"
  "current_iterations (watchdog sample_engine) = 0" "prng sample_engine = sconst 7"
  by (simp_all add: sample_engine_def IsgEngine_init_def ready_def CurrentPc_def)

lemma sample_reachable: "isg_reachable (\<lambda>seed. sconst 7) (sample_state default_memory_regions) sample_engine"
  unfolding sample_engine_def by (rule isg_reachable.start)

lemma sample_room: "has_room ls sample_engine \<longleftrightarrow> length ls \<le> 8000 \<and> length (unlines ls) < kAssemblyBufferSize"
  by (simp add: has_room_def sample_ready)

lemma sample_stack: "default_memory (sample_state default_memory_regions)" "stack_ok (rget sample_rv 2)"
  by (simp_all add: default_memory_def sample_state_def stack_ok_def rget_def sample_rv_def)

lemma digits_10: "digits 16 n = (if n < 16 then [digit_char n] else digits 16 (n div 16) @ [digit_char (n mod 16)])"
  "digits 10 n = (if n < 10 then [digit_char n] else digits 10 (n div 10) @ [digit_char (n mod 10)])"
  by (subst digits.simps, simp)+

lemma EmitLi_loads_witness:
  "\<exists>e' ls. EmitLi ''t0'' 0x12345fff sample_engine = Some e' \<and> run_lines (sample_state default_memory_regions) ls sample_rv = Some (set_reg 5 0x12345fff sample_rv)"
proof -
  have r: "reg_number ''t0'' = Some 5" by (simp add: reading)
  have "has_room (li_lines ''t0'' 0x12345fff) sample_engine"
    by (simp add: sample_room li_lines_def unlines_def newline_def kAssemblyBufferSize_def StrFormat_x_def StrFormat_d_def li_upper_def li_lower_def digits_10)
  from EmitLi_loads [OF sample_ready(1) this r] show ?thesis by fastforce
qed

lemma sample_numbers: "abi_number ''t0'' = Some 5" "abi_number ''t1'' = Some 6" "abi_number ''a0'' = Some 10"
  by (simp_all add: abi_number_def abi_names_def)


lemma stores_sandboxed_witness:
  "\<exists>e' ls s' a. EmitStore ''t0'' ''a0'' 8 sample_engine = Some e' \<and> assembly_buffer e' = unlines ls
    \<and> run_lines (sample_state default_memory_regions) ls sample_rv = Some s' \<and> load32 (rv_mem s') a = 0x55555555"
proof -
  have "has_room (store_lines ''t0'' ''a0'' 8) sample_engine"
    by (simp add: sample_room store_lines_def store_scratch_def mask_lines_def push_lines_def region_lines_def offset_lines_def reserved_lines_def pop_lines_def
        constant_lines_def unlines_def newline_def kAssemblyBufferSize_def StrFormat_x_def StrFormat_d_def li_upper_def li_lower_def digits_10
        region_mask_def kDefaultRwRegion2Length_def kDefaultRwRegionLength_def kReservedDtcmBytes_def)
  moreover have "rget sample_rv 5 = 0x55555555" by (simp add: rget_def sample_rv_def)
  ultimately show ?thesis
    using stores_sandboxed [OF sample_ready(1) _ sample_numbers(1,3) sample_stack] by (fastforce simp: sample_ready)
qed


lemma Build_layout_witness:
  "\<exists>ts pre. Build sample_engine = Some ts \<and> assembly_text ts = pre @ ''.word 0x08000073'' @ newline @ ''; END PROTECTED'' @ newline
    \<and> text_pc (assembly_text ts) = 0x2000"
  using Build_layout [OF sample_reachable] unfolding sample_ready kDefaultRxRegionLength_def by auto


end
