(* ===== verification/NPU_Top.thy ===== *)
theory NPU_Top
  imports NPU_Memory "HOL-Library.Monad_Syntax"
begin

text \<open>
  The simulator top of \<open>sim/coralnpu_top.{h,cc}\<close>: halting, stepping, breakpoints and the access to
  registers and memory, with the memory interface of \<open>sim/coralnpu_action_point_memory_interface.cc\<close>.

  MPACT is a parameter, the fields of \<open>mpact\<close>: the decode cache, the execution of an instruction, its
  resources, the delay lines, the CSRs, the managers of action points and breakpoints and semihosting. What
  it does happens in \<open>sim\<close>; \<open>hidden\<close> is its own state. The callbacks an instruction makes are handled when it
  has executed: they change the run control only. \<open>None\<close> is a call that does not return or an undefined access.
\<close>

unbundle bit_operations_syntax

subsection \<open>State\<close>

datatype RunStatus = kHalted | kRunning | kSingleStep

datatype HaltReason =
    ReasonNone | kSoftwareBreakpoint | kUserRequest | kSemihostHaltRequest | kSimulatorError | kActionPoint | kHaltAbort
  | OtherReason u32

datatype status_code = FailedPreconditionError | InvalidArgumentError | NotFoundError | InternalError

type_synonym 'a status_or = "status_code + 'a"

record InstructionInfo =
  info_size :: int
  og_instruction_word :: u32

record 'm memory_ops =
  Load :: "u64 \<Rightarrow> nat \<Rightarrow> 'm \<Rightarrow> u8 list option"
  Store :: "u64 \<Rightarrow> u8 list \<Rightarrow> 'm \<Rightarrow> 'm option"

record ('m, 's) sim =
  registers :: "string \<Rightarrow> u8 list option"
  sim_memory :: 'm
  instruction_map :: "u64 \<Rightarrow> InstructionInfo option"
  hidden :: 's

text \<open>The callbacks that \<open>Initialize\<close> registers, with their arguments; \<open>None\<close> is the null pointer.\<close>

datatype 'i callback = EbreakHandler "'i option" | MpauseHandler "'i option" | OnTrap u64 | SemihostExit

record ('i, 'r, 'm, 's) mpact =
  memory_of :: "'m memory_ops"
  Invalidate :: "u64 \<Rightarrow> ('m, 's) sim \<Rightarrow> ('m, 's) sim"
  GetDecodedInstruction :: "u64 \<Rightarrow> ('m, 's) sim \<Rightarrow> 'i \<times> ('m, 's) sim"
  inst_size :: "'i \<Rightarrow> u64"
  inst_address :: "'i \<Rightarrow> u64"
  inst_opcode :: "'i \<Rightarrow> nat"
  AsString :: "'i \<Rightarrow> string"
  ResourceHold :: "'i \<Rightarrow> 'r list"
  ResourceAcquire :: "'i \<Rightarrow> 'r list"
  IsFree :: "'r \<Rightarrow> ('m, 's) sim \<Rightarrow> bool"
  Acquire :: "'r \<Rightarrow> ('m, 's) sim \<Rightarrow> ('m, 's) sim"
  Execute :: "'i \<Rightarrow> ('m, 's) sim \<Rightarrow> (('m, 's) sim \<times> 'i callback list) option"
  AdvanceDelayLines :: "('m, 's) sim \<Rightarrow> ('m, 's) sim"
  GetCsr :: "string \<Rightarrow> ('m, 's) sim \<Rightarrow> u32 option"
  SetCsr :: "string \<Rightarrow> u32 \<Rightarrow> ('m, 's) sim \<Rightarrow> ('m, 's) sim"
  IsActionPointActive :: "u64 \<Rightarrow> ('m, 's) sim \<Rightarrow> bool"
  PerformActions :: "u64 \<Rightarrow> ('m, 's) sim \<Rightarrow> ('m, 's) sim \<times> bool"
  bp_HasBreakpoint :: "u64 \<Rightarrow> ('m, 's) sim \<Rightarrow> bool"
  bp_SetBreakpoint :: "u64 \<Rightarrow> ('m, 's) sim \<Rightarrow> unit status_or \<times> ('m, 's) sim"
  bp_ClearBreakpoint :: "u64 \<Rightarrow> ('m, 's) sim \<Rightarrow> unit status_or \<times> ('m, 's) sim"
  bp_ClearAllBreakpoints :: "('m, 's) sim \<Rightarrow> ('m, 's) sim"
  use_semihost :: bool
  IsSemihostingCall :: "'i \<Rightarrow> ('m, 's) sim \<Rightarrow> bool"
  OnEBreak :: "'i \<Rightarrow> ('m, 's) sim \<Rightarrow> ('m, 's) sim \<times> bool"
  top_max_physical_address :: u64

text \<open>
  The members of \<open>CoralNPUTop\<close>. \<open>run_halted\<close> is the notification object of the running thread: \<open>None\<close> for the
  null pointer, else whether it has been notified.
\<close>

record ('m, 's) CoralNPUTop =
  run_status :: RunStatus
  halt_reason :: HaltReason
  halted :: bool
  run_halted :: "bool option"
  need_to_step_over :: bool
  counter_opcode :: "nat \<Rightarrow> u64"
  counter_num_instructions :: u64
  counter_num_cycles :: u64
  sim_state :: "('m, 's) sim"

type_synonym ('m, 's, 'a) top_op = "('m, 's) CoralNPUTop \<Rightarrow> ('a \<times> ('m, 's) CoralNPUTop) option"

definition with_sim :: "(('m, 's) sim \<Rightarrow> ('m, 's) sim) \<Rightarrow> ('m, 's) CoralNPUTop \<Rightarrow> ('m, 's) CoralNPUTop" where
  "with_sim f t = t\<lparr>sim_state := f (sim_state t)\<rparr>"

text \<open>The constructor, on a state that \<open>Initialize\<close> has set up.\<close>

definition CoralNPUTop_init :: "('m, 's) sim \<Rightarrow> ('m, 's) CoralNPUTop" where
  "CoralNPUTop_init s = \<lparr>run_status = kHalted, halt_reason = ReasonNone, halted = False, run_halted = None, need_to_step_over = False,
     counter_opcode = (\<lambda>_. 0), counter_num_instructions = 0, counter_num_cycles = 0, sim_state = s\<rparr>"

subsection \<open>Action point memory interface\<close>

definition kEBreak32 :: u32 where "kEBreak32 = 0x00100073"

definition GetInstructionSize :: "u32 \<Rightarrow> int" where "GetInstructionSize instruction_word = 4"

definition store_word :: "('i, 'r, 'm, 's) mpact \<Rightarrow> u64 \<Rightarrow> u32 \<Rightarrow> ('m, 's) sim \<Rightarrow> ('m, 's) sim option" where
  "store_word M address word s =
     do { m \<leftarrow> Store (memory_of M) address (to_bytes word) (sim_memory s); Some (Invalidate M address (s\<lparr>sim_memory := m\<rparr>)) }"

definition WriteOriginalInstruction :: "('i, 'r, 'm, 's) mpact \<Rightarrow> u64 \<Rightarrow> ('m, 's) sim \<Rightarrow> (unit status_or \<times> ('m, 's) sim) option" where
  "WriteOriginalInstruction M address s =
     (case instruction_map s address of None \<Rightarrow> Some (Inl NotFoundError, s)
      | Some info \<Rightarrow> map_option (Pair (Inr ())) (store_word M address (og_instruction_word info) s))"

definition WriteBreakpointInstruction :: "('i, 'r, 'm, 's) mpact \<Rightarrow> u64 \<Rightarrow> ('m, 's) sim \<Rightarrow> (unit status_or \<times> ('m, 's) sim) option" where
  "WriteBreakpointInstruction M address s =
     (case instruction_map s address of
        None \<Rightarrow>
          do { db \<leftarrow> Load (memory_of M) address 4 (sim_memory s);
               let instruction_word = from_bytes db;
               let size = GetInstructionSize instruction_word;
               if size = 0 then Some (Inl InvalidArgumentError, s)
               else map_option (Pair (Inr ())) (store_word M address kEBreak32
                 (s\<lparr>instruction_map := (instruction_map s)(address \<mapsto> \<lparr>info_size = size, og_instruction_word = instruction_word\<rparr>)\<rparr>)) }
      | Some info \<Rightarrow> map_option (Pair (Inr ())) (store_word M address kEBreak32 s))"

subsection \<open>Halting\<close>

definition RequestHalt :: "HaltReason \<Rightarrow> ('m, 's) CoralNPUTop \<Rightarrow> ('m, 's) CoralNPUTop" where
  "RequestHalt reason t =
     (let t = t\<lparr>halt_reason := reason, halted := True\<rparr>
      in if reason = kSoftwareBreakpoint \<or> reason = kActionPoint then t\<lparr>need_to_step_over := True\<rparr> else t)"

definition Halt :: "('m, 's) CoralNPUTop \<Rightarrow> unit status_or \<times> ('m, 's) CoralNPUTop" where
  "Halt t = (if run_status t = kHalted then (Inr (), t)
     else if run_status t \<noteq> kRunning then (Inl FailedPreconditionError, t)
     else (Inr (), t\<lparr>halt_reason := kUserRequest, halted := True\<rparr>))"

definition Halt_reason :: "HaltReason \<Rightarrow> ('m, 's) CoralNPUTop \<Rightarrow> unit status_or \<times> ('m, 's) CoralNPUTop" where
  "Halt_reason reason t = (Inr (), RequestHalt reason t)"

text \<open>The callbacks of \<open>Initialize\<close>. The second component of MPACT's \<open>PerformActions\<close> and \<open>OnEBreak\<close> tells whether the
  breakpoint callback and the exit callback are run.\<close>

definition ebreak_handler :: "('i, 'r, 'm, 's) mpact \<Rightarrow> 'i option \<Rightarrow> ('m, 's) CoralNPUTop \<Rightarrow> bool \<times> ('m, 's) CoralNPUTop" where
  "ebreak_handler M inst t = (case inst of None \<Rightarrow> (False, t)
     | Some i \<Rightarrow>
         if use_semihost M \<and> IsSemihostingCall M i (sim_state t) then
           (let (s, exit) = OnEBreak M i (sim_state t); t = t\<lparr>sim_state := s\<rparr>
            in (True, if exit then RequestHalt kSemihostHaltRequest t else t))
         else if IsActionPointActive M (inst_address M i) (sim_state t) then
           (let t = RequestHalt kActionPoint t; (s, breakpoint) = PerformActions M (inst_address M i) (sim_state t);
                t = t\<lparr>sim_state := s\<rparr>
            in (True, if breakpoint then RequestHalt kSoftwareBreakpoint t else t))
         else (True, RequestHalt kHaltAbort t))"

definition mpause_handler :: "'i option \<Rightarrow> ('m, 's) CoralNPUTop \<Rightarrow> bool \<times> ('m, 's) CoralNPUTop" where
  "mpause_handler inst t = (case inst of None \<Rightarrow> (False, t) | Some i \<Rightarrow> (True, RequestHalt kUserRequest t))"

text \<open>The exception codes of illegal instructions and of faulting loads and stores.\<close>

definition on_trap :: "u64 \<Rightarrow> ('m, 's) CoralNPUTop \<Rightarrow> bool \<times> ('m, 's) CoralNPUTop" where
  "on_trap exception_code t =
     (if exception_code = 2 \<or> exception_code = 5 \<or> exception_code = 7 then (True, RequestHalt kUserRequest t) else (False, t))"

fun run_callback :: "('i, 'r, 'm, 's) mpact \<Rightarrow> 'i callback \<Rightarrow> ('m, 's) CoralNPUTop \<Rightarrow> ('m, 's) CoralNPUTop" where
  "run_callback M (EbreakHandler inst) t = snd (ebreak_handler M inst t)"
| "run_callback M (MpauseHandler inst) t = snd (mpause_handler inst t)"
| "run_callback M (OnTrap code) t = snd (on_trap code t)"
| "run_callback M SemihostExit t = RequestHalt kSemihostHaltRequest t"

subsection \<open>Executing instructions\<close>

definition ExecuteInstruction :: "('i, 'r, 'm, 's) mpact \<Rightarrow> 'i \<Rightarrow> ('m, 's, bool) top_op" where
  "ExecuteInstruction M inst t =
     (if \<not> list_all (\<lambda>resource. IsFree M resource (sim_state t)) (ResourceHold M inst) then Some (False, t)
      else do { (s, calls) \<leftarrow> Execute M inst (fold (Acquire M) (ResourceAcquire M inst) (sim_state t));
                Some (True, fold (run_callback M) calls (t\<lparr>sim_state := s\<rparr>)) })"

definition IncrementCycleCount :: "u64 \<Rightarrow> ('m, 's) CoralNPUTop \<Rightarrow> ('m, 's) CoralNPUTop" where
  "IncrementCycleCount value t = t\<lparr>counter_num_cycles := counter_num_cycles t + value\<rparr>"

definition IncrementInstructionCount :: "u64 \<Rightarrow> ('m, 's) CoralNPUTop \<Rightarrow> ('m, 's) CoralNPUTop" where
  "IncrementInstructionCount value t = t\<lparr>counter_num_instructions := counter_num_instructions t + value\<rparr>"

definition count_opcode :: "nat \<Rightarrow> ('m, 's) CoralNPUTop \<Rightarrow> ('m, 's) CoralNPUTop" where
  "count_opcode opcode t = t\<lparr>counter_opcode := (counter_opcode t)(opcode := counter_opcode t opcode + 1)\<rparr>"

text \<open>\<open>pc_operand->AsUint64(0)\<close> and \<open>SetPc\<close>.\<close>

definition pc_operand :: "('m, 's) CoralNPUTop \<Rightarrow> u64" where
  "pc_operand t = (case registers (sim_state t) ''pc'' of None \<Rightarrow> 0 | Some db \<Rightarrow> from_bytes db)"

definition set_register :: "string \<Rightarrow> u8 list \<Rightarrow> ('m, 's) sim \<Rightarrow> ('m, 's) sim" where
  "set_register name db s = s\<lparr>registers := (registers s)(name \<mapsto> db)\<rparr>"

definition SetPc :: "u64 \<Rightarrow> ('m, 's) CoralNPUTop \<Rightarrow> ('m, 's) CoralNPUTop" where
  "SetPc value t = (case registers (sim_state t) ''pc'' of None \<Rightarrow> t
     | Some db \<Rightarrow> with_sim (set_register ''pc'' (if length db = 4 then to_bytes (ucast value :: u32) else to_bytes value)) t)"

text \<open>\<open>do { executed = ExecuteInstruction(inst); ... } while (!executed)\<close>.\<close>

partial_function (option) execute_loop :: "('i, 'r, 'm, 's) mpact \<Rightarrow> 'i \<Rightarrow> ('m, 's) CoralNPUTop \<Rightarrow> ('m, 's) CoralNPUTop option" where
  "execute_loop M inst t =
     do { (executed, t) \<leftarrow> ExecuteInstruction M inst t;
          let t = with_sim (AdvanceDelayLines M) (IncrementCycleCount 1 t);
          if executed then Some t else execute_loop M inst t }"

definition decode_at :: "('i, 'r, 'm, 's) mpact \<Rightarrow> u64 \<Rightarrow> ('m, 's) CoralNPUTop \<Rightarrow> 'i \<times> ('m, 's) CoralNPUTop" where
  "decode_at M pc t = (let (inst, s) = GetDecodedInstruction M pc (sim_state t) in (inst, t\<lparr>sim_state := s\<rparr>))"

text \<open>One instruction, from its decoding to the counters.\<close>

definition execute_at :: "('i, 'r, 'm, 's) mpact \<Rightarrow> u64 \<Rightarrow> ('m, 's) CoralNPUTop \<Rightarrow> ('m, 's) CoralNPUTop option" where
  "execute_at M pc t =
     (let (inst, t) = decode_at M pc t
      in do { t \<leftarrow> execute_loop M inst (SetPc (pc + inst_size M inst) t);
              Some (IncrementInstructionCount 1 (count_opcode (inst_opcode M inst) t)) })"

definition with_sim_status :: "(('m, 's) sim \<Rightarrow> (unit status_or \<times> ('m, 's) sim) option) \<Rightarrow> ('m, 's) CoralNPUTop \<Rightarrow> ('m, 's) CoralNPUTop option" where
  "with_sim_status f t = map_option (\<lambda>(status, s). t\<lparr>sim_state := s\<rparr>) (f (sim_state t))"

definition StepPastBreakpoint :: "('i, 'r, 'm, 's) mpact \<Rightarrow> ('m, 's) CoralNPUTop \<Rightarrow> ('m, 's) CoralNPUTop option" where
  "StepPastBreakpoint M t =
     (let pc = pc_operand t
      in do { t \<leftarrow> with_sim_status (WriteOriginalInstruction M pc) t;
              t \<leftarrow> execute_at M pc t;
              with_sim_status (WriteBreakpointInstruction M pc) t })"

text \<open>
  The loop of \<open>Step\<close>: the number of executed instructions, the local \<open>pc\<close>, which is uninitialised before the
  first round (\<open>None\<close>), and \<open>next_pc\<close>.
\<close>

partial_function (option) step_loop ::
    "('i, 'r, 'm, 's) mpact \<Rightarrow> int \<Rightarrow> int \<Rightarrow> u64 option \<Rightarrow> u64 \<Rightarrow> ('m, 's) CoralNPUTop
     \<Rightarrow> (int \<times> u64 option \<times> u64 \<times> ('m, 's) CoralNPUTop) option" where
  "step_loop M num count pc next_pc t =
     (if halted t \<or> \<not> count < num then Some (count, pc, next_pc, t)
      else do { let pc = next_pc;
                t \<leftarrow> execute_at M pc t;
                let count = count + 1;
                let next_pc = pc_operand t;
                if \<not> halted t then step_loop M num count (Some pc) next_pc t
                else if halt_reason t = kActionPoint then
                  do { t \<leftarrow> StepPastBreakpoint M t;
                       step_loop M num count (Some pc) next_pc
                         (t\<lparr>halted := False, halt_reason := ReasonNone, need_to_step_over := False\<rparr>) }
                else Some (count, Some pc, next_pc, t) })"

text \<open>\<open>uninit\<close> is the value of the uninitialised variable.\<close>

definition leave_pc :: "u64 \<Rightarrow> u64 option \<Rightarrow> u64 \<Rightarrow> ('m, 's) CoralNPUTop \<Rightarrow> ('m, 's) CoralNPUTop" where
  "leave_pc uninit pc next_pc t =
     (if halt_reason t = kSoftwareBreakpoint then SetPc (case pc of None \<Rightarrow> uninit | Some pc \<Rightarrow> pc) t else SetPc next_pc t)"

definition Step :: "('i, 'r, 'm, 's) mpact \<Rightarrow> u64 \<Rightarrow> int \<Rightarrow> ('m, 's, int status_or) top_op" where
  "Step M uninit num t =
     (if num \<le> 0 then Some (Inl InvalidArgumentError, t)
      else if run_status t \<noteq> kHalted then Some (Inl FailedPreconditionError, t)
      else do {
        let t = t\<lparr>run_status := kSingleStep, halted := False\<rparr>;
        (count, t) \<leftarrow> (if need_to_step_over t
           then map_option (Pair 1) (StepPastBreakpoint M (t\<lparr>need_to_step_over := False\<rparr>)) else Some (0, t));
        (count, pc, next_pc, t) \<leftarrow> step_loop M num count None (pc_operand t) t;
        let t = leave_pc uninit pc next_pc t;
        let t = (if \<not> halted t then t\<lparr>halt_reason := ReasonNone\<rparr> else t);
        Some (Inr count, t\<lparr>run_status := kHalted\<rparr>) })"

end
