(* ===== verification/NPU_TopAccess.thy ===== *)
theory NPU_TopAccess
  imports NPU_Top
begin

text \<open>
  The debugger's access to registers, memory and breakpoints, the disassembly and the loading of images
  (\<open>sim/coralnpu_top.cc\<close>). Every operation is refused unless the core is halted.
\<close>

subsection \<open>Registers\<close>

text \<open>The value of a data buffer and the buffer that holds a value, by the size of the buffer.\<close>

definition read_buffer :: "u8 list \<Rightarrow> u64 option" where
  "read_buffer db = (if length db = 1 then Some (ucast (from_bytes db :: u8)) else if length db = 2 then Some (ucast (from_bytes db :: u16))
     else if length db = 4 then Some (ucast (from_bytes db :: u32)) else if length db = 8 then Some (from_bytes db) else None)"

definition write_buffer :: "u64 \<Rightarrow> u8 list \<Rightarrow> u8 list option" where
  "write_buffer value db = (if length db = 1 then Some (to_bytes (ucast value :: u8)) else if length db = 2 then Some (to_bytes (ucast value :: u16))
     else if length db = 4 then Some (to_bytes (ucast value :: u32)) else if length db = 8 then Some (to_bytes value) else None)"

definition ReadRegister :: "('i, 'r, 'm, 's) mpact \<Rightarrow> string \<Rightarrow> ('m, 's) CoralNPUTop \<Rightarrow> u64 status_or" where
  "ReadRegister M name t =
     (if run_status t \<noteq> kHalted then Inl FailedPreconditionError
      else case registers (sim_state t) name of
        None \<Rightarrow> (case GetCsr M name (sim_state t) of None \<Rightarrow> Inl NotFoundError | Some csr \<Rightarrow> Inr (ucast csr))
      | Some db \<Rightarrow> (case read_buffer db of None \<Rightarrow> Inl InternalError | Some value \<Rightarrow> Inr value))"

definition WriteRegister :: "('i, 'r, 'm, 's) mpact \<Rightarrow> string \<Rightarrow> u64 \<Rightarrow> ('m, 's) CoralNPUTop \<Rightarrow> unit status_or \<times> ('m, 's) CoralNPUTop" where
  "WriteRegister M name value t =
     (if run_status t \<noteq> kHalted then (Inl FailedPreconditionError, t)
      else case registers (sim_state t) name of
        None \<Rightarrow> (case GetCsr M name (sim_state t) of None \<Rightarrow> (Inl NotFoundError, t)
          | Some csr \<Rightarrow> (Inr (), with_sim (SetCsr M name (ucast value)) t))
      | Some db \<Rightarrow>
          let t = (if name = ''pc'' \<and> halt_reason t = kSoftwareBreakpoint then t\<lparr>halt_reason := ReasonNone\<rparr> else t)
          in (case write_buffer value db of None \<Rightarrow> (Inl InternalError, t)
              | Some db \<Rightarrow> (Inr (), with_sim (set_register name db) t)))"

definition GetRegisterDataBuffer :: "string \<Rightarrow> ('m, 's) CoralNPUTop \<Rightarrow> u8 list status_or" where
  "GetRegisterDataBuffer name t =
     (if run_status t \<noteq> kHalted then Inl FailedPreconditionError
      else case registers (sim_state t) name of None \<Rightarrow> Inl NotFoundError | Some db \<Rightarrow> Inr db)"

subsection \<open>Memory\<close>

text \<open>The length is cut off at the end of the physical memory. The result is the number of bytes, with the bytes read.\<close>

definition clip_length :: "('i, 'r, 'm, 's) mpact \<Rightarrow> u64 \<Rightarrow> u64 \<Rightarrow> u64" where
  "clip_length M address len = min len (top_max_physical_address M - address + 1)"

definition ReadMemory :: "('i, 'r, 'm, 's) mpact \<Rightarrow> u64 \<Rightarrow> u64 \<Rightarrow> ('m, 's) CoralNPUTop \<Rightarrow> (u64 \<times> u8 list) status_or option" where
  "ReadMemory M address len t =
     (if run_status t \<noteq> kHalted then Some (Inl FailedPreconditionError)
      else if address > top_max_physical_address M then Some (Inl InvalidArgumentError)
      else let len = clip_length M address len
        in do { db \<leftarrow> Load (memory_of M) address (unat len) (sim_memory (sim_state t)); Some (Inr (len, take (unat len) db)) })"

definition WriteMemory :: "('i, 'r, 'm, 's) mpact \<Rightarrow> u64 \<Rightarrow> u8 list \<Rightarrow> ('m, 's, u64 status_or) top_op" where
  "WriteMemory M address buffer t =
     (if run_status t \<noteq> kHalted then Some (Inl FailedPreconditionError, t)
      else if address > top_max_physical_address M then Some (Inl InvalidArgumentError, t)
      else let len = clip_length M address (of_nat (length buffer))
        in do { m \<leftarrow> Store (memory_of M) address (take (unat len) buffer) (sim_memory (sim_state t));
                Some (Inr len, with_sim (sim_memory_update (\<lambda>_. m)) t) })"

subsection \<open>Breakpoints\<close>

definition HasBreakpoint :: "('i, 'r, 'm, 's) mpact \<Rightarrow> u64 \<Rightarrow> ('m, 's) CoralNPUTop \<Rightarrow> bool" where
  "HasBreakpoint M address t = bp_HasBreakpoint M address (sim_state t)"

definition breakpoint_op :: "(('m, 's) sim \<Rightarrow> unit status_or \<times> ('m, 's) sim) \<Rightarrow> ('m, 's) CoralNPUTop \<Rightarrow> unit status_or \<times> ('m, 's) CoralNPUTop" where
  "breakpoint_op f t =
     (if run_status t \<noteq> kHalted then (Inl FailedPreconditionError, t)
      else let (status, s) = f (sim_state t) in (status, t\<lparr>sim_state := s\<rparr>))"

definition SetSwBreakpoint :: "('i, 'r, 'm, 's) mpact \<Rightarrow> u64 \<Rightarrow> ('m, 's) CoralNPUTop \<Rightarrow> unit status_or \<times> ('m, 's) CoralNPUTop" where
  "SetSwBreakpoint M address = breakpoint_op (bp_SetBreakpoint M address)"

definition ClearSwBreakpoint :: "('i, 'r, 'm, 's) mpact \<Rightarrow> u64 \<Rightarrow> ('m, 's) CoralNPUTop \<Rightarrow> unit status_or \<times> ('m, 's) CoralNPUTop" where
  "ClearSwBreakpoint M address = breakpoint_op (bp_ClearBreakpoint M address)"

definition ClearAllSwBreakpoints :: "('i, 'r, 'm, 's) mpact \<Rightarrow> ('m, 's) CoralNPUTop \<Rightarrow> unit status_or \<times> ('m, 's) CoralNPUTop" where
  "ClearAllSwBreakpoints M = breakpoint_op (\<lambda>s. (Inr (), bp_ClearAllBreakpoints M s))"

subsection \<open>Disassembly\<close>

definition GetInstruction :: "('i, 'r, 'm, 's) mpact \<Rightarrow> u64 \<Rightarrow> ('m, 's) CoralNPUTop \<Rightarrow> 'i \<times> ('m, 's) CoralNPUTop" where
  "GetInstruction M address t = decode_at M address t"

definition GetDisassembly :: "('i, 'r, 'm, 's) mpact \<Rightarrow> u64 \<Rightarrow> ('m, 's, string status_or) top_op" where
  "GetDisassembly M address t =
     (if run_status t \<noteq> kHalted then Some (Inl FailedPreconditionError, t)
      else if IsActionPointActive M address (sim_state t) then
        do { t \<leftarrow> with_sim_status (WriteOriginalInstruction M address) t;
             let (inst, t) = decode_at M address t;
             t \<leftarrow> with_sim_status (WriteBreakpointInstruction M address) t;
             Some (Inr (AsString M inst), t) }
      else let (inst, t) = decode_at M address t in Some (Inr (AsString M inst), t))"

subsection \<open>Loading an image\<close>

definition kBufferSize :: nat where "kBufferSize = 4096"

text \<open>The rest of the file is read by at most \<open>kBufferSize\<close> bytes; the stream stays good when all of them were read.\<close>

function load_chunks :: "('i, 'r, 'm, 's) mpact \<Rightarrow> u8 list \<Rightarrow> u64 \<Rightarrow> ('m, 's, unit status_or) top_op" where
  "load_chunks M rest load_address t =
     (let buffer = take kBufferSize rest; gcount = length buffer
      in if gcount = 0 then Some (Inr (), t)
         else do { (res, t) \<leftarrow> WriteMemory M load_address buffer t;
                   case res of Inl e \<Rightarrow> Some (Inl InternalError, t)
                   | Inr n \<Rightarrow>
                       if n \<noteq> of_nat gcount then Some (Inl InternalError, t)
                       else if gcount = kBufferSize then load_chunks M (drop kBufferSize rest) (load_address + of_nat gcount) t
                       else Some (Inr (), t) })"
  by pat_completeness auto
termination
  by (relation "measure (\<lambda>(_, rest, _). length rest)") (auto simp: kBufferSize_def)

text \<open>\<open>file\<close> is the contents of the file, \<open>None\<close> if it cannot be opened.\<close>

definition LoadImage :: "('i, 'r, 'm, 's) mpact \<Rightarrow> u8 list option \<Rightarrow> u64 \<Rightarrow> ('m, 's, unit status_or) top_op" where
  "LoadImage M file start_address t =
     (case file of None \<Rightarrow> Some (Inl InternalError, t) | Some bs \<Rightarrow> load_chunks M bs start_address t)"

end
