(* ===== verification/NPU_TopRun.thy ===== *)
theory NPU_TopRun
  imports NPU_TopAccess
begin

text \<open>
  \<open>CoralNPUTop::Run\<close> and the thread it starts (\<open>sim/coralnpu_top.cc\<close>). The thread runs concurrently with the calls of
  the client; it is divided at the accesses to the atomic members that the client uses too.
\<close>

subsection \<open>The thread\<close>

text \<open>
  \<open>ThreadLoop\<close> is the test of \<open>while (!halted_)\<close>, \<open>ThreadExecute\<close> the instruction, \<open>ThreadCheck\<close> the test after it,
  \<open>ThreadSetPc\<close> and \<open>ThreadStatus\<close> the updates behind the loop, \<open>ThreadNotify\<close> the notification.
\<close>

datatype thread_pc = ThreadLoop | ThreadExecute | ThreadCheck | ThreadSetPc | ThreadStatus | ThreadNotify | ThreadDone

record thread =
  position :: thread_pc
  thread_current_pc :: "u64 option"
  thread_next_pc :: u64

definition thread_start :: "('m, 's) CoralNPUTop \<Rightarrow> thread" where
  "thread_start t = \<lparr>position = ThreadLoop, thread_current_pc = None, thread_next_pc = pc_operand t\<rparr>"

text \<open>
  \<open>Run\<close> up to the start of the thread. The thread reads the program counter when it starts; nothing changes
  the register in between, because the core is already running.
\<close>

definition Run :: "('i, 'r, 'm, 's) mpact \<Rightarrow> ('m, 's, thread status_or) top_op" where
  "Run M t =
     (if run_status t = kRunning then Some (Inl FailedPreconditionError, t)
      else do {
        t \<leftarrow> (if need_to_step_over t then StepPastBreakpoint M (t\<lparr>need_to_step_over := False\<rparr>) else Some t);
        let t = t\<lparr>run_status := kRunning, halted := False, run_halted := Some False\<rparr>;
        Some (Inr (thread_start t), t) })"

text \<open>A step of the thread; \<open>None\<close> when it does not return. Notifying an object twice, or a null pointer, is undefined.\<close>

definition thread_step :: "('i, 'r, 'm, 's) mpact \<Rightarrow> u64 \<Rightarrow> thread \<Rightarrow> ('m, 's) CoralNPUTop \<Rightarrow> (thread \<times> ('m, 's) CoralNPUTop) option" where
  "thread_step M uninit th t = (case position th of
     ThreadLoop \<Rightarrow> Some (th\<lparr>position := if halted t then ThreadSetPc else ThreadExecute\<rparr>, t)
   | ThreadExecute \<Rightarrow>
       do { t \<leftarrow> execute_at M (thread_next_pc th) t;
            Some (th\<lparr>position := ThreadCheck, thread_current_pc := Some (thread_next_pc th), thread_next_pc := pc_operand t\<rparr>, t) }
   | ThreadCheck \<Rightarrow>
       if \<not> halted t then Some (th\<lparr>position := ThreadLoop\<rparr>, t)
       else if halt_reason t = kActionPoint then
         do { t \<leftarrow> StepPastBreakpoint M t;
              Some (th\<lparr>position := ThreadLoop\<rparr>, t\<lparr>halted := False, halt_reason := ReasonNone\<rparr>) }
       else Some (th\<lparr>position := ThreadSetPc\<rparr>, t)
   | ThreadSetPc \<Rightarrow> Some (th\<lparr>position := ThreadStatus\<rparr>, leave_pc uninit (thread_current_pc th) (thread_next_pc th) t)
   | ThreadStatus \<Rightarrow> Some (th\<lparr>position := ThreadNotify\<rparr>, t\<lparr>run_status := kHalted\<rparr>)
   | ThreadNotify \<Rightarrow> if run_halted t = Some False then Some (th\<lparr>position := ThreadDone\<rparr>, t\<lparr>run_halted := Some True\<rparr>) else None
   | ThreadDone \<Rightarrow> None)"

text \<open>\<open>Wait\<close> returns at once without a notification object, else when it has been notified (\<open>None\<close> while it blocks).\<close>

definition Wait :: "('m, 's, unit status_or) top_op" where
  "Wait t = (case run_halted t of None \<Rightarrow> Some (Inr (), t)
     | Some notified \<Rightarrow> if notified then Some (Inr (), t\<lparr>run_halted := None\<rparr>) else None)"

definition GetRunStatus :: "('m, 's) CoralNPUTop \<Rightarrow> RunStatus status_or" where
  "GetRunStatus t = Inr (run_status t)"

definition GetLastHaltReason :: "('m, 's) CoralNPUTop \<Rightarrow> HaltReason status_or" where
  "GetLastHaltReason t = Inr (halt_reason t)"

subsection \<open>Interleavings\<close>

text \<open>
  The operations of the client. It is one thread: an operation returns before the next one is called. Those
  that only read, and \<open>Wait\<close> while it blocks, change nothing.
\<close>

datatype client_op =
    OpHalt | OpHaltReason HaltReason | OpStep int | OpWait | OpWriteRegister string u64 | OpWriteMemory u64 "u8 list"
  | OpSetSwBreakpoint u64 | OpClearSwBreakpoint u64 | OpClearAllSwBreakpoints | OpGetDisassembly u64 | OpLoadImage "u8 list option" u64

fun client_step :: "('i, 'r, 'm, 's) mpact \<Rightarrow> u64 \<Rightarrow> client_op \<Rightarrow> ('m, 's) CoralNPUTop \<Rightarrow> ('m, 's) CoralNPUTop option" where
  "client_step M uninit OpHalt t = Some (snd (Halt t))"
| "client_step M uninit (OpHaltReason reason) t = Some (snd (Halt_reason reason t))"
| "client_step M uninit (OpStep num) t = map_option snd (Step M uninit num t)"
| "client_step M uninit OpWait t = map_option snd (Wait t)"
| "client_step M uninit (OpWriteRegister name value) t = Some (snd (WriteRegister M name value t))"
| "client_step M uninit (OpWriteMemory address buffer) t = map_option snd (WriteMemory M address buffer t)"
| "client_step M uninit (OpSetSwBreakpoint address) t = Some (snd (SetSwBreakpoint M address t))"
| "client_step M uninit (OpClearSwBreakpoint address) t = Some (snd (ClearSwBreakpoint M address t))"
| "client_step M uninit OpClearAllSwBreakpoints t = Some (snd (ClearAllSwBreakpoints M t))"
| "client_step M uninit (OpGetDisassembly address) t = map_option snd (GetDisassembly M address t)"
| "client_step M uninit (OpLoadImage file start) t = map_option snd (LoadImage M file start t)"

text \<open>The threads that were started, and the simulator.\<close>

type_synonym ('m, 's) config = "thread list \<times> ('m, 's) CoralNPUTop"

inductive config_step :: "('i, 'r, 'm, 's) mpact \<Rightarrow> u64 \<Rightarrow> ('m, 's) config \<Rightarrow> ('m, 's) config \<Rightarrow> bool" for M uninit where
  client: "client_step M uninit op t = Some t' \<Longrightarrow> config_step M uninit (ths, t) (ths, t')"
| run: "Run M t = Some (Inr th, t') \<Longrightarrow> config_step M uninit (ths, t) (ths @ [th], t')"
| thread: "i < length ths \<Longrightarrow> thread_step M uninit (ths ! i) t = Some (th, t') \<Longrightarrow> config_step M uninit (ths, t) (ths[i := th], t')"

inductive_cases config_stepE: "config_step M uninit c c'"

inductive config_reachable :: "('i, 'r, 'm, 's) mpact \<Rightarrow> u64 \<Rightarrow> ('m, 's) config \<Rightarrow> bool" for M uninit where
  init: "config_reachable M uninit ([], CoralNPUTop_init s)"
| step: "config_reachable M uninit c \<Longrightarrow> config_step M uninit c c' \<Longrightarrow> config_reachable M uninit c'"

end
