(* ===== verification/NPU_TopProps.thy ===== *)
theory NPU_TopProps
  imports NPU_TopRun
begin

text \<open>
  What the operations of the simulator top keep, the exclusion of the debugger while a thread runs, and
  the composition of steps.
\<close>

subsection \<open>Frames\<close>

text \<open>
  What the execution of instructions does to the run control: it can only request a halt, which sets a
  reason.
\<close>

definition requests :: "('m, 's) CoralNPUTop \<Rightarrow> ('m, 's) CoralNPUTop \<Rightarrow> bool" where
  "requests t t' \<longleftrightarrow> run_status t' = run_status t \<and> run_halted t' = run_halted t \<and> (halted t \<longrightarrow> halted t')
     \<and> (\<not> halted t' \<longrightarrow> halt_reason t' = halt_reason t \<and> need_to_step_over t' = need_to_step_over t)"

lemma requests_refl [simp]: "requests t t"
  by (simp add: requests_def)

lemma requests_trans: "requests t u \<Longrightarrow> requests u v \<Longrightarrow> requests t v"
  by (auto simp: requests_def)

lemma requests_update [simp]:
  "requests t (t\<lparr>sim_state := s\<rparr>)" "requests t (with_sim f t)" "requests t (SetPc v t)" "requests t (IncrementCycleCount v t)"
  "requests t (IncrementInstructionCount v t)" "requests t (count_opcode opcode t)" "requests t (RequestHalt reason t)"
  by (auto simp: requests_def with_sim_def SetPc_def IncrementCycleCount_def IncrementInstructionCount_def count_opcode_def RequestHalt_def Let_def
      split: option.split)

lemma requests_handlers [simp]: "requests t (run_callback M c t)"
proof (cases c)
  case (EbreakHandler inst)
  show ?thesis
  proof (cases inst)
    case (Some i)
    obtain s x where o: "OnEBreak M i (sim_state t) = (s, x)" by force
    obtain s' y where p: "PerformActions M (inst_address M i) (sim_state (RequestHalt kActionPoint t)) = (s', y)" by force
    have "requests t (RequestHalt r (u\<lparr>sim_state := s\<rparr>))" "requests t (u\<lparr>sim_state := s\<rparr>)" if "requests t u" for r u s
      using that requests_trans [OF requests_trans [OF that requests_update(1)] requests_update(7)] requests_trans [OF that requests_update(1)] by blast+
    then show ?thesis using EbreakHandler Some o p by (simp add: ebreak_handler_def Let_def)
  qed (simp add: EbreakHandler ebreak_handler_def)
qed (auto simp: mpause_handler_def on_trap_def split: option.split)

lemma requests_callbacks: "requests t (fold (run_callback M) calls t)"
proof (induction calls arbitrary: t)
  case (Cons c calls)
  show ?case using requests_trans [OF requests_handlers Cons.IH] by simp
qed simp

lemma requests_execute: "ExecuteInstruction M inst t = Some (b, t') \<Longrightarrow> requests t t'"
  by (auto simp: ExecuteInstruction_def bind_eq_Some_conv split: if_splits intro: requests_trans [OF requests_update(1) requests_callbacks])

lemma requests_execute_loop: "execute_loop M inst t = Some t' \<Longrightarrow> requests t t'"
proof (induction rule: execute_loop.raw_induct [rotated 1, consumes 1, case_names round])
  case (round loop M inst t t')
  then obtain b u where u: "ExecuteInstruction M inst t = Some (b, u)" by (auto simp: bind_eq_Some_conv)
  let ?u = "with_sim (AdvanceDelayLines M) (IncrementCycleCount 1 u)"
  have r: "requests t ?u" by (rule requests_trans [OF requests_execute [OF u] requests_trans [OF requests_update(4) requests_update(2)]])
  have "if b then t' = ?u else loop M inst ?u = Some t'" using round(2) u by (auto simp: Let_def split: if_splits)
  then show ?case using r requests_trans [OF r round(1)] by (auto split: if_splits)
qed

lemma requests_execute_at: "execute_at M pc t = Some t' \<Longrightarrow> requests t t'"
  unfolding execute_at_def decode_at_def
  by (auto simp: bind_eq_Some_conv Let_def split: prod.splits
      dest!: requests_execute_loop intro: requests_trans [OF requests_update(1)] requests_trans [OF requests_update(3)]
        requests_trans [OF _ requests_trans [OF requests_update(6) requests_update(5)]])

lemma requests_status: "with_sim_status f t = Some t' \<Longrightarrow> requests t t'"
  by (auto simp: with_sim_status_def)

lemma requests_past: "StepPastBreakpoint M t = Some t' \<Longrightarrow> requests t t'"
  unfolding StepPastBreakpoint_def
  by (auto simp: bind_eq_Some_conv Let_def dest!: requests_status requests_execute_at intro: requests_trans)

lemmas requests_ops = requests_execute_at requests_past

subsection \<open>Status\<close>

definition control :: "('m, 's) CoralNPUTop \<Rightarrow> RunStatus \<times> bool option" where
  "control t = (run_status t, run_halted t)"

lemma requests_control: "requests t t' \<Longrightarrow> control t' = control t"
  by (simp add: requests_def control_def)

lemma control_step_loop: "step_loop M num count pc next_pc t = Some (c, p, n, t') \<Longrightarrow> control t' = control t"
proof (induction M num count pc next_pc t "(c, p, n, t')" rule: step_loop.raw_induct [rotated 1, consumes 1, case_names round])
  case (round loop M num count pc next_pc t)
  show ?case
  proof (cases "halted t \<or> \<not> count < num")
    case True
    then show ?thesis using round(2) by simp
  next
    case False
    then obtain u where u: "execute_at M next_pc t = Some u"
      and r: "(if \<not> halted u then loop M num (count + 1) (Some next_pc) (pc_operand u) u
        else if halt_reason u = kActionPoint then StepPastBreakpoint M u \<bind> (\<lambda>t. loop M num (count + 1) (Some next_pc) (pc_operand u)
               (t\<lparr>halted := False, halt_reason := ReasonNone, need_to_step_over := False\<rparr>))
        else Some (count + 1, Some next_pc, pc_operand u, u)) = Some (c, p, n, t')"
      using round(2) by (auto simp: bind_eq_Some_conv Let_def)
    have "control t' = control u"
      using r round(1) requests_control [OF requests_past]
      by (fastforce simp: bind_eq_Some_conv control_def split: if_splits)
    then show ?thesis using requests_control [OF requests_ops(1) [OF u]] by simp
  qed
qed

lemma control_leave_pc: "control (leave_pc uninit pc next_pc t) = control t"
  by (simp add: leave_pc_def requests_control [OF requests_update(3)])

lemma Step_result:
  assumes "Step M uninit num t = Some (r, t')"
  shows "if 0 < num \<and> run_status t = kHalted then control t' = control t \<and> isl r = False else t' = t"
proof (cases "0 < num \<and> run_status t = kHalted")
  case True
  let ?t = "t\<lparr>run_status := kSingleStep, halted := False\<rparr>"
  obtain count t1 c pc next_pc t2 where
    t1: "(if need_to_step_over ?t then map_option (Pair 1) (StepPastBreakpoint M (?t\<lparr>need_to_step_over := False\<rparr>)) else Some (0, ?t)) = Some (count, t1)"
    and t2: "step_loop M num count None (pc_operand t1) t1 = Some (c, pc, next_pc, t2)"
    and r: "r = Inr c" "t' = (if \<not> halted (leave_pc uninit pc next_pc t2)
      then (leave_pc uninit pc next_pc t2)\<lparr>halt_reason := ReasonNone\<rparr> else leave_pc uninit pc next_pc t2)\<lparr>run_status := kHalted\<rparr>"
    using assms True unfolding Step_def by (auto simp: bind_eq_Some_conv Let_def simp del: if_split_asm split del: if_split)
  have "run_halted t1 = run_halted t"
    using t1 requests_past by (fastforce simp: requests_def split: if_splits)
  then have "run_halted t' = run_halted t"
    using r(2) control_step_loop [OF t2] control_leave_pc [of uninit pc next_pc t2] by (auto simp: control_def)
  then show ?thesis using True r by (simp add: control_def)
next
  case False
  then show ?thesis using assms by (auto simp: Step_def split: if_splits)
qed

text \<open>Every client operation keeps the status; between operations it is halted or running.\<close>

lemma status_with_sim [simp]: "run_status (with_sim f t) = run_status t"
  by (simp add: with_sim_def)

declare load_chunks.simps [simp del]

lemma status_WriteMemory: "WriteMemory M a bs t = Some (r, t') \<Longrightarrow> run_status t' = run_status t"
  by (auto simp: WriteMemory_def Let_def bind_eq_Some_conv split: if_splits)

lemma load_chunks_cases:
  assumes "load_chunks M rest a t = Some (r, t')"
  obtains (empty) "rest = []" "t' = t" "r = Inr ()"
  | (last) res where "WriteMemory M a (take kBufferSize rest) t = Some (res, t')"
  | (more) res u where "WriteMemory M a (take kBufferSize rest) t = Some (res, u)" "rest \<noteq> []"
      "load_chunks M (drop kBufferSize rest) (a + of_nat (length (take kBufferSize rest))) u = Some (r, t')"
proof (cases "rest = []")
  case False
  then have n: "length (take kBufferSize rest) \<noteq> 0" by (simp add: kBufferSize_def)
  have e: "load_chunks M rest a t = do { (res, t) \<leftarrow> WriteMemory M a (take kBufferSize rest) t;
                   case res of Inl e \<Rightarrow> Some (Inl InternalError, t)
                   | Inr n \<Rightarrow>
                       if n \<noteq> of_nat (length (take kBufferSize rest)) then Some (Inl InternalError, t)
                       else if length (take kBufferSize rest) = kBufferSize
                         then load_chunks M (drop kBufferSize rest) (a + of_nat (length (take kBufferSize rest))) t
                       else Some (Inr (), t) }"
    by (subst load_chunks.simps) (simp only: Let_def n if_False)
  obtain res u where u: "WriteMemory M a (take kBufferSize rest) t = Some (res, u)"
    using assms unfolding e by (auto simp: bind_eq_Some_conv)
  then show thesis using assms that(2,3) False unfolding e by (auto split: sum.splits if_splits)
qed (use assms that(1) in \<open>simp add: load_chunks.simps\<close>)

lemma status_load_chunks: "load_chunks M rest a t = Some (r, t') \<Longrightarrow> run_status t' = run_status t"
proof (induction "length rest" arbitrary: rest a t rule: less_induct)
  case less
  from less.prems show ?case
  proof (cases rule: load_chunks_cases)
    case (more res u)
    have "length (drop kBufferSize rest) < length rest" using more(2) by (simp add: kBufferSize_def)
    from less.hyps [OF this more(3)] show ?thesis using status_WriteMemory [OF more(1)] by simp
  qed (simp_all add: status_WriteMemory)
qed

lemma status_breakpoint_op: "run_status (snd (breakpoint_op f t)) = run_status t"
  by (simp add: breakpoint_op_def split: prod.split)

lemma status_client:
  assumes "client_step M uninit op t = Some t'" "run_status t \<noteq> kSingleStep"
  shows "run_status t' = run_status t"
proof (cases op)
  case (OpStep num)
  then obtain r where "Step M uninit num t = Some (r, t')" using assms(1) by auto
  from Step_result [OF this] show ?thesis by (simp add: control_def split: if_splits)
next
  case (OpGetDisassembly a)
  then show ?thesis
    using assms(1) by (auto simp: GetDisassembly_def decode_at_def Let_def bind_eq_Some_conv with_sim_status_def split: if_splits prod.splits)
next
  case (OpWriteRegister name v)
  then show ?thesis using assms(1) by (auto simp: WriteRegister_def Let_def split: option.splits)
next
  case (OpWriteMemory a bs)
  then show ?thesis using assms(1) status_WriteMemory by auto
next
  case (OpLoadImage f a)
  then show ?thesis using assms(1) status_load_chunks by (fastforce simp: LoadImage_def split: option.splits)
qed (use assms in \<open>auto simp: Halt_def Halt_reason_def RequestHalt_def Let_def Wait_def SetSwBreakpoint_def ClearSwBreakpoint_def
    ClearAllSwBreakpoints_def status_breakpoint_op split: option.splits if_splits\<close>)

subsection \<open>Exclusion\<close>

text \<open>A thread that may still use the registers and the memory.\<close>

definition thread_active :: "thread \<Rightarrow> bool" where
  "thread_active th \<longleftrightarrow> position th \<notin> {ThreadNotify, ThreadDone}"

definition exclusive :: "('m, 's) config \<Rightarrow> bool" where
  "exclusive = (\<lambda>(ths, t). run_status t \<noteq> kSingleStep \<and> length (filter thread_active ths) = (if run_status t = kRunning then 1 else 0))"

lemma thread_step_active:
  assumes "thread_step M uninit th t = Some (th', t')"
  shows "thread_active th' \<longleftrightarrow> thread_active th \<and> position th \<noteq> ThreadStatus"
    and "run_status t' = (if position th = ThreadStatus then kHalted else run_status t)"
  using assms control_leave_pc [of uninit "thread_current_pc th" "thread_next_pc th" t]
  by (auto simp: thread_step_def thread_active_def control_def bind_eq_Some_conv dest!: requests_ops [THEN requests_control] split: thread_pc.splits if_splits)

lemma filter_update:
  "i < length xs \<Longrightarrow> length (filter P (xs[i := x])) + (if P (xs ! i) then 1 else 0) = length (filter P xs) + (if P x then 1 else 0)"
proof (induction xs arbitrary: i)
  case (Cons y xs)
  then show ?case by (cases i) (use Cons.IH in fastforce)+
qed simp

lemma exclusive_step:
  assumes "config_step M uninit c c'" "exclusive c"
  shows "exclusive c'"
  using assms
proof (induction rule: config_step.induct)
  case (client op t t' ths)
  then show ?case using status_client by (fastforce simp: exclusive_def)
next
  case (run t th t' ths)
  then have "run_status t = kHalted" "run_status t' = kRunning" "thread_active th"
    by (cases "run_status t"; auto simp: exclusive_def Run_def thread_active_def thread_start_def Let_def bind_eq_Some_conv split: if_splits)+
  then show ?case using run by (simp add: exclusive_def)
next
  case (thread i ths t th t')
  note a = thread_step_active [OF thread(2)] and f = filter_update [OF thread(1), of thread_active th]
  show ?case
  proof (cases "position (ths ! i) = ThreadStatus")
    case True
    then have "thread_active (ths ! i)" "\<not> thread_active th" "run_status t' = kHalted" using a by (simp_all add: thread_active_def)
    then show ?thesis using f thread(3) by (simp add: exclusive_def split: if_splits)
  next
    case False
    then show ?thesis using a f thread(3) by (simp add: exclusive_def split: if_splits)
  qed
qed

lemma reachable_exclusive: "config_reachable M uninit c \<Longrightarrow> exclusive c"
proof (induction rule: config_reachable.induct)
  case (init s)
  then show ?case by (simp add: exclusive_def CoralNPUTop_init_def)
qed (rule exclusive_step)

end
