(* ===== verification/NPU_TopMemory.thy ===== *)
theory NPU_TopMemory
  imports NPU_TopProps NPU_RenodeMemoryProps
begin

text \<open>
  The memory of the simulator top as the contract \<open>flat_memory\<close>: what the action point interface and the loader need of
  it, proved once from the contract and interpreted on the Renode memory.
\<close>

subsection \<open>The contract\<close>

locale flat_memory =
  fixes ops :: "'m memory_ops"
    and mem_ok :: "'m \<Rightarrow> bool"
    and in_range :: "'m \<Rightarrow> nat \<Rightarrow> nat \<Rightarrow> bool"
    and byte :: "'m \<Rightarrow> nat \<Rightarrow> u8"
  assumes load_flat: "mem_ok m \<Longrightarrow> in_range m (unat a) n \<Longrightarrow> 0 < n \<Longrightarrow> Load ops a n m = Some (map (byte m) [unat a..<unat a + n])"
    and store_flat: "mem_ok m \<Longrightarrow> in_range m (unat a) (length bs) \<Longrightarrow> bs \<noteq> [] \<Longrightarrow>
      \<exists>m'. Store ops a bs m = Some m' \<and> mem_ok m' \<and> in_range m' = in_range m \<and> byte m' = write_range (unat a) bs (byte m)"
    and range_sub: "in_range m i n \<Longrightarrow> i \<le> j \<Longrightarrow> j + k \<le> i + n \<Longrightarrow> in_range m j k"
begin

subsection \<open>Breakpoints\<close>

lemma store_word_flat:
  assumes "memory_of M = ops" "mem_ok (sim_memory s)" "in_range (sim_memory s) (unat a) 4"
    and inv: "\<And>a s. sim_memory (Invalidate M a s) = sim_memory s \<and> instruction_map (Invalidate M a s) = instruction_map s"
  shows "\<exists>s'. store_word M a word s = Some s' \<and> mem_ok (sim_memory s') \<and> in_range (sim_memory s') = in_range (sim_memory s)
    \<and> byte (sim_memory s') = write_range (unat a) (to_bytes word) (byte (sim_memory s)) \<and> instruction_map s' = instruction_map s"
proof -
  have l: "length (to_bytes word) = 4" by (simp add: sizeof_def)
  then have "to_bytes word \<noteq> []" by (metis length_0_conv zero_neq_numeral)
  from store_flat [OF assms(2) assms(3) [folded l] this] obtain m where
    "Store ops a (to_bytes word) (sim_memory s) = Some m" "mem_ok m" "in_range m = in_range (sim_memory s)"
    "byte m = write_range (unat a) (to_bytes word) (byte (sim_memory s))" by blast
  then show ?thesis using assms(1) inv by (simp add: store_word_def)
qed

lemma breakpoint_pair:
  assumes "memory_of M = ops" "mem_ok (sim_memory s)" "in_range (sim_memory s) (unat a) 4"
    and inv: "\<And>a s. sim_memory (Invalidate M a s) = sim_memory s \<and> instruction_map (Invalidate M a s) = instruction_map s"
  defines "word \<equiv> (case instruction_map s a of None \<Rightarrow> from_bytes (map (byte (sim_memory s)) [unat a..<unat a + 4]) | Some info \<Rightarrow> og_instruction_word info)"
  shows "\<exists>s1 s2. WriteBreakpointInstruction M a s = Some (Inr (), s1) \<and> byte (sim_memory s1) = write_range (unat a) (to_bytes kEBreak32) (byte (sim_memory s))
    \<and> WriteOriginalInstruction M a s1 = Some (Inr (), s2) \<and> byte (sim_memory s2) = write_range (unat a) (to_bytes word) (byte (sim_memory s))"
proof -
  define s0 where "s0 = (case instruction_map s a of None \<Rightarrow> s\<lparr>instruction_map := (instruction_map s)(a \<mapsto> \<lparr>info_size = 4, og_instruction_word = word\<rparr>)\<rparr> | Some info \<Rightarrow> s)"
  have s0: "sim_memory s0 = sim_memory s" "map_option og_instruction_word (instruction_map s0 a) = Some word"
    by (auto simp: s0_def word_def split: option.split)
  have w: "WriteBreakpointInstruction M a s = map_option (Pair (Inr ())) (store_word M a kEBreak32 s0)"
    using load_flat [OF assms(2,3)] assms(1)
    by (auto simp: WriteBreakpointInstruction_def s0_def word_def GetInstructionSize_def Let_def split: option.split)
  obtain s1 where s1: "store_word M a kEBreak32 s0 = Some s1" "mem_ok (sim_memory s1)" "in_range (sim_memory s1) = in_range (sim_memory s)"
    "byte (sim_memory s1) = write_range (unat a) (to_bytes kEBreak32) (byte (sim_memory s))" "instruction_map s1 = instruction_map s0"
    using store_word_flat [OF assms(1) _ _ inv, of s0 a kEBreak32] assms(2,3) unfolding s0(1) by blast
  obtain info where info: "instruction_map s1 a = Some info" "og_instruction_word info = word" using s0(2) s1(5) by auto
  obtain s2 where s2: "store_word M a word s1 = Some s2" "byte (sim_memory s2) = write_range (unat a) (to_bytes word) (byte (sim_memory s1))"
    using store_word_flat [OF assms(1) s1(2) _ inv, of a word] assms(3) s1(3) by auto
  have "write_range (unat a) (to_bytes word) (write_range (unat a) (to_bytes kEBreak32) f) = write_range (unat a) (to_bytes word) f" for f :: "nat \<Rightarrow> u8"
    by (simp add: write_range_def fun_eq_iff)
  then show ?thesis using w s1 s2 info by (simp add: WriteOriginalInstruction_def)
qed

subsection \<open>Loading an image\<close>

lemma WriteMemory_flat:
  assumes "memory_of M = ops" "mem_ok (sim_memory (sim_state t))" "in_range (sim_memory (sim_state t)) (unat a) (length bs)" "bs \<noteq> []"
    and "run_status t = kHalted" "unat a + length bs \<le> unat (top_max_physical_address M) + 1" "unat (top_max_physical_address M) + 1 < 2 ^ 64"
  shows "\<exists>m. WriteMemory M a bs t = Some (Inr (of_nat (length bs)), with_sim (sim_memory_update (\<lambda>_. m)) t) \<and> mem_ok m
    \<and> in_range m = in_range (sim_memory (sim_state t)) \<and> byte m = write_range (unat a) bs (byte (sim_memory (sim_state t)))"
proof -
  have l: "0 < length bs" using assms(4) by simp
  then have a: "a \<le> top_max_physical_address M" using l assms(6) unfolding word_le_nat_alt by linarith
  have u: "unat (of_nat (length bs) :: u64) = length bs" using assms(6,7) by (simp add: unsigned_of_nat take_bit_nat_eq_self)
  have d: "unat (top_max_physical_address M - a + 1) = unat (top_max_physical_address M) - unat a + 1"
    using a assms(7) unat_sub [OF a] by (simp add: unat_word_ariths word_le_nat_alt)
  have c: "unat (clip_length M a (of_nat (length bs))) = length bs" "clip_length M a (of_nat (length bs)) = of_nat (length bs)"
    using u d assms(6) a by (auto simp: clip_length_def min_def word_le_nat_alt)
  from store_flat [OF assms(2-4)] show ?thesis
    using assms(1,5) a c by (auto simp: WriteMemory_def Let_def)
qed

lemma load_chunks_flat:
  assumes "memory_of M = ops" "unat (top_max_physical_address M) + 1 < 2 ^ 64"
  shows "mem_ok (sim_memory (sim_state t)) \<Longrightarrow> in_range (sim_memory (sim_state t)) (unat a) (length bs) \<Longrightarrow> run_status t = kHalted
    \<Longrightarrow> unat a + length bs \<le> unat (top_max_physical_address M) + 1
    \<Longrightarrow> \<exists>m. load_chunks M bs a t = Some (Inr (), with_sim (sim_memory_update (\<lambda>_. m)) t)
      \<and> byte m = write_range (unat a) bs (byte (sim_memory (sim_state t)))"
proof (induction "length bs" arbitrary: bs a t rule: less_induct)
  case less
  show ?case
  proof (cases "bs = []")
    case True
    then show ?thesis by (intro exI [of _ "sim_memory (sim_state t)"]) (simp add: load_chunks.simps with_sim_def)
  next
    case False
    define c where "c = take kBufferSize bs"
    have c: "c \<noteq> []" "length c \<le> length bs" "bs = c @ drop kBufferSize bs" "length c \<le> kBufferSize"
      using False by (simp_all add: c_def kBufferSize_def)
    have r: "in_range (sim_memory (sim_state t)) (unat a) (length c)" by (rule range_sub [OF less.prems(2)]) (use c(2) in simp_all)
    have b: "unat a + length c \<le> unat (top_max_physical_address M) + 1" using less.prems(4) c(2) by simp
    from WriteMemory_flat [OF assms(1) less.prems(1) r c(1) less.prems(3) b assms(2)]
    obtain m where m: "WriteMemory M a c t = Some (Inr (of_nat (length c)), with_sim (sim_memory_update (\<lambda>_. m)) t)" "mem_ok m"
      "in_range m = in_range (sim_memory (sim_state t))" "byte m = write_range (unat a) c (byte (sim_memory (sim_state t)))" by blast
    let ?t = "with_sim (sim_memory_update (\<lambda>_. m)) t"
    have e: "load_chunks M bs a t = (if length c = kBufferSize then load_chunks M (drop kBufferSize bs) (a + of_nat (length c)) ?t else Some (Inr (), ?t))"
      using m(1) c(1) by (subst load_chunks.simps) (simp add: c_def [symmetric] Let_def)
    show ?thesis
    proof (cases "length c = kBufferSize")
      case True
      have u: "unat (a + of_nat (length c)) = unat a + length c"
        using b assms(2) by (simp add: unat_word_ariths unsigned_of_nat take_bit_nat_eq_self)
      have l: "length (drop kBufferSize bs) + length c = length bs" using c(2) True by simp
      have sub: "in_range m (unat a + length c) (length (drop kBufferSize bs))"
        unfolding m(3) by (rule range_sub [OF less.prems(2)]) (use l in simp_all)
      have "\<exists>m'. load_chunks M (drop kBufferSize bs) (a + of_nat (length c)) ?t = Some (Inr (), with_sim (sim_memory_update (\<lambda>_. m')) ?t)
          \<and> byte m' = write_range (unat (a + of_nat (length c))) (drop kBufferSize bs) (byte (sim_memory (sim_state ?t)))"
      proof (rule less.hyps)
        show "length (drop kBufferSize bs) < length bs" using l c(1) by (metis less_add_same_cancel1 length_greater_0_conv)
      qed (use m sub u less.prems l in \<open>simp_all add: with_sim_def\<close>)
      then show ?thesis
        using True m(4) e u c(3) write_range_append [of "unat a" c "drop kBufferSize bs"] by (auto simp: with_sim_def)
    next
      case False
      then have "bs = c" by (simp add: c_def kBufferSize_def min_def split: if_splits)
      then show ?thesis using m(4) e False by (auto simp: with_sim_def)
    qed
  qed
qed

end

subsection \<open>The Renode memory\<close>

definition renode_ops :: "renode_memory memory_ops" where
  "renode_ops = \<lparr>Load = \<lambda>a n m. map_option fst (Renode_Load m a (replicate n 0) False 0), Store = \<lambda>a bs m. Renode_Store m a bs\<rparr>"

interpretation renode_flat: flat_memory renode_ops renode_ok mem_range flat
proof
  fix m :: renode_memory and a :: u64 and n :: nat assume m: "renode_ok m" "mem_range m (unat a) n" "0 < n"
  then show "Load renode_ops a n m = Some (map (flat m) [unat a..<unat a + n])"
    using LoadStoreHelper_load_flat [OF m] valid_range [OF m(2,3)]
    by (simp add: renode_ops_def Renode_Load_def Let_def overwrite_def)
next
  fix m :: renode_memory and a :: u64 and bs :: "u8 list" assume m: "renode_ok m" "mem_range m (unat a) (length bs)" "bs \<noteq> []"
  then have "0 < length bs" by simp
  from LoadStoreHelper_store_flat [OF m(1,2) this order.refl] valid_range [OF m(2) this]
  show "\<exists>m'. Store renode_ops a bs m = Some m' \<and> renode_ok m' \<and> mem_range m' = mem_range m \<and> flat m' = write_range (unat a) bs (flat m)"
    using m(1,3) mem_range_layout by (auto simp: renode_ops_def Renode_Store_def Let_def)
next
  fix m :: renode_memory and i j k n :: nat
  assume "mem_range m i n" "i \<le> j" "j + k \<le> i + n"
  then show "mem_range m j k" by (auto simp: mem_range_def)
qed

end
