(* ===== verification/NPU_TopClaims.thy ===== *)
theory NPU_TopClaims
  imports NPU_TopMemory NPU_RenodeMemoryClaims
begin

text \<open>The properties of the simulator top.\<close>

subsection \<open>Breakpoints as the only actions\<close>


definition stops :: "('m, 's) CoralNPUTop \<Rightarrow> bool" where
  "stops t \<longleftrightarrow> halted t \<longrightarrow> halt_reason t \<noteq> kActionPoint"

lemma stops_update [simp]:
  "stops (t\<lparr>sim_state := s\<rparr>) = stops t" "stops (with_sim f t) = stops t" "stops (SetPc v t) = stops t" "stops (IncrementCycleCount v t) = stops t"
  "stops (IncrementInstructionCount v t) = stops t" "stops (count_opcode opcode t) = stops t" "stops (RequestHalt reason t) = (reason \<noteq> kActionPoint)"
  by (auto simp: stops_def with_sim_def SetPc_def IncrementCycleCount_def IncrementInstructionCount_def count_opcode_def RequestHalt_def Let_def
      split: option.split)





subsection \<open>The loop of Step\<close>

lemma step_loop_stop: "halted t \<or> num \<le> count \<Longrightarrow> step_loop M num count pc next_pc t = Some (count, pc, next_pc, t)"
  by (subst step_loop.simps) auto







subsection \<open>Stepping\<close>

text \<open>The state in which the loop of \<open>Step\<close> starts when no breakpoint has to be stepped over.\<close>

definition step_end :: "u64 \<Rightarrow> u64 option \<Rightarrow> u64 \<Rightarrow> ('m, 's) CoralNPUTop \<Rightarrow> ('m, 's) CoralNPUTop" where
  "step_end uninit pc next_pc t =
     (let t = leave_pc uninit pc next_pc t in (if \<not> halted t then t\<lparr>halt_reason := ReasonNone\<rparr> else t)\<lparr>run_status := kHalted\<rparr>)"


definition pc32 :: "('m, 's) CoralNPUTop \<Rightarrow> bool" where
  "pc32 t \<longleftrightarrow> (\<exists>db. registers (sim_state t) ''pc'' = Some db \<and> length db = 4)"


lemma wide_buffer: "(from_bytes (to_bytes (w :: u32)) :: u64) = ucast w"
proof (rule bit_word_eqI)
  fix n assume "n < LENGTH(64)"
  have "bit w n \<longleftrightarrow> n < 32 \<and> n div 8 < 4 \<and> bit (to_bytes w ! (n div 8)) (n mod 8)"
    using bit_from_bytes [of "to_bytes w" n, where 't = 32] by (simp add: sizeof_def)
  then show "bit (from_bytes (to_bytes w) :: u64) n \<longleftrightarrow> bit (ucast w :: u64) n"
    using \<open>n < LENGTH(64)\<close> by (auto simp: bit_from_bytes bit_simps sizeof_def)
qed

lemma pc_operand_SetPc: "pc32 t \<Longrightarrow> pc_operand (SetPc v t) = ucast (ucast v :: u32)"
  by (auto simp: pc32_def pc_operand_def SetPc_def with_sim_def set_register_def wide_buffer)

lemma pc32_SetPc: "pc32 (SetPc v t) \<Longrightarrow> pc32 t"
  by (auto simp: pc32_def SetPc_def with_sim_def set_register_def sizeof_def split: option.splits if_splits)


text \<open>
  Property C26. After a halt at a software breakpoint, \<open>Step(1)\<close> executes the instruction under the breakpoint, but then
  sets the program counter to the uninitialised local \<open>pc\<close>: the reason of the previous halt is cleared only
  after it has been used.
\<close>

theorem Step_after_breakpoint:
  assumes "run_status t = kHalted" "need_to_step_over t" "halt_reason t = kSoftwareBreakpoint"
    and "Step M uninit 1 t = Some (r, t')" "\<not> halted t'" "pc32 t'"
  shows "r = Inr 1 \<and> pc_operand t' = ucast (ucast uninit :: u32)"
proof -
  let ?t = "t\<lparr>run_status := kSingleStep, halted := False, need_to_step_over := False\<rparr>"
  obtain u where u: "StepPastBreakpoint M ?t = Some u"
    and t': "r = Inr 1" "t' = step_end uninit None (pc_operand u) u"
  proof (cases "StepPastBreakpoint M ?t")
    case None
    then show thesis using assms(1,2,4) by (simp add: Step_def Let_def)
  next
    case (Some u)
    then show thesis using that [OF Some] assms(1,2,4) step_loop_stop [of u 1 1 M None "pc_operand u"] by (simp add: Step_def step_end_def Let_def)
  qed
  have h: "halted (leave_pc uninit None (pc_operand u) u) = halted u" by (auto simp: leave_pc_def SetPc_def with_sim_def split: option.split)
  then have hu: "\<not> halted u" using assms(5) t'(2) by (auto simp: step_end_def Let_def split: if_splits)
  then have "halt_reason u = kSoftwareBreakpoint" using requests_past [OF u] assms(3) by (simp add: requests_def)
  then have l: "leave_pc uninit None (pc_operand u) u = SetPc uninit u" by (simp add: leave_pc_def)
  have "pc32 (SetPc uninit u)" "pc_operand t' = pc_operand (SetPc uninit u)"
    using assms(6) h hu l t'(2) by (simp_all add: step_end_def pc32_def pc_operand_def Let_def)
  then show ?thesis using t'(1) pc_operand_SetPc [OF pc32_SetPc] by simp
qed

subsection \<open>Running\<close>












subsection \<open>Registers and memory\<close>

text \<open>
  A register of one, two, four or eight bytes that the debugger writes is read back with the value cut
  off to its size; no other register changes.
\<close>

theorem ReadRegister_WriteRegister:
  assumes "run_status t = kHalted" "registers (sim_state t) name = Some db" "length db \<in> {1, 2, 4, 8}"
  shows "\<exists>t'. WriteRegister M name v t = (Inr (), t') \<and> ReadRegister M name t' = Inr (take_bit (8 * length db) v)
    \<and> (\<forall>other. other \<noteq> name \<longrightarrow> ReadRegister M other t' = ReadRegister M other t \<or> registers (sim_state t) other = None)"
proof -
  have u: "ucast (ucast v :: u8) = take_bit 8 v" "ucast (ucast v :: u16) = take_bit 16 v" "ucast (ucast v :: u32) = take_bit 32 v" "take_bit 64 v = v"
    by (auto intro!: bit_word_eqI simp: bit_simps)
  obtain db' where w: "write_buffer v db = Some db'" "read_buffer db' = Some (take_bit (8 * length db) v)"
    using assms(3) by (auto simp: write_buffer_def read_buffer_def sizeof_def u)
  show ?thesis
    using assms(1,2) w by (auto simp: WriteRegister_def ReadRegister_def Let_def with_sim_def set_register_def split: option.split)
qed

text \<open>
  Property C23. \<open>LoadImage\<close> copies a file that fits the physical memory byte for byte to the start address, although it
  writes it in chunks of 4096 bytes; nothing else changes. Here on the Renode memory.
\<close>

theorem LoadImage_copies:
  assumes "memory_of M = renode_ops" "run_status t = kHalted" "renode_ok (sim_memory (sim_state t))"
    and "mem_range (sim_memory (sim_state t)) (unat start) (length bs)"
    and "unat start + length bs \<le> unat (top_max_physical_address M) + 1" "unat (top_max_physical_address M) + 1 < 2 ^ 64"
  shows "\<exists>m. LoadImage M (Some bs) start t = Some (Inr (), with_sim (sim_memory_update (\<lambda>_. m)) t)
    \<and> flat m = write_range (unat start) bs (flat (sim_memory (sim_state t)))"
  using renode_flat.load_chunks_flat [OF assms(1,6,3,4,2,5)] by (simp add: LoadImage_def)


subsection \<open>Instances\<close>

text \<open>A machine whose instructions are their addresses and do nothing.\<close>

definition sample_mpact :: "(u64, unit, renode_memory, unit) mpact" where
  "sample_mpact = \<lparr>memory_of = renode_ops, Invalidate = \<lambda>a s. s, GetDecodedInstruction = \<lambda>a s. (a, s), inst_size = \<lambda>i. 4,
     inst_address = \<lambda>i. i, inst_opcode = \<lambda>i. 0, AsString = \<lambda>i. ''nop'', ResourceHold = \<lambda>i. [], ResourceAcquire = \<lambda>i. [],
     IsFree = \<lambda>r s. True, Acquire = \<lambda>r s. s, Execute = \<lambda>i s. Some (s, []), AdvanceDelayLines = \<lambda>s. s, GetCsr = \<lambda>name s. None,
     SetCsr = \<lambda>name v s. s, IsActionPointActive = \<lambda>a s. instruction_map s a \<noteq> None, PerformActions = \<lambda>a s. (s, True),
     bp_HasBreakpoint = \<lambda>a s. False, bp_SetBreakpoint = \<lambda>a s. (Inr (), s), bp_ClearBreakpoint = \<lambda>a s. (Inr (), s),
     bp_ClearAllBreakpoints = \<lambda>s. s, use_semihost = False, IsSemihostingCall = \<lambda>i s. False, OnEBreak = \<lambda>i s. (s, False),
     top_max_physical_address = 0x3fffff\<rparr>"

definition sample_sim :: "(renode_memory, unit) sim" where
  "sample_sim = \<lparr>registers = [''pc'' \<mapsto> [0, 1, 0, 0]], sim_memory = sample_memory, instruction_map = (\<lambda>a. None), hidden = ()\<rparr>"


lemma sample_execute_at:
  "execute_at sample_mpact pc t = Some (IncrementInstructionCount 1 (count_opcode 0 (IncrementCycleCount 1 (SetPc (pc + 4) t))))"
  by (subst execute_at_def, subst execute_loop.simps)
    (simp add: ExecuteInstruction_def decode_at_def with_sim_def sample_mpact_def IncrementCycleCount_def Let_def)

lemma sample_frames [simp]:
  "halted (IncrementInstructionCount 1 (count_opcode 0 (IncrementCycleCount 1 (SetPc v t)))) = halted t"
  "pc32 t \<Longrightarrow> pc32 (IncrementInstructionCount 1 (count_opcode 0 (IncrementCycleCount 1 (SetPc v t))))"
  by (auto simp: IncrementInstructionCount_def count_opcode_def IncrementCycleCount_def SetPc_def with_sim_def pc32_def set_register_def sizeof_def split: option.split)


lemma sample_range4: "mem_range (sim_memory sample_sim) (unat (0x100 :: u64)) 4" "renode_ok (sim_memory sample_sim)" "memory_of sample_mpact = renode_ops"
  "sim_memory (Invalidate sample_mpact a s) = sim_memory s \<and> instruction_map (Invalidate sample_mpact a s) = instruction_map s"
  using sample_range renode_sample_ok by (simp_all add: sample_sim_def sample_mpact_def)

lemma Step_after_breakpoint_witness:
  "\<exists>t'. Step sample_mpact 0x1234 1 ((CoralNPUTop_init sample_sim)\<lparr>need_to_step_over := True, halt_reason := kSoftwareBreakpoint\<rparr>) = Some (Inr 1, t')
    \<and> pc_operand t' = 0x1234"
proof -
  define t where "t = (CoralNPUTop_init sample_sim)\<lparr>need_to_step_over := True, halt_reason := kSoftwareBreakpoint\<rparr>"
  define u where "u = t\<lparr>run_status := kSingleStep, halted := False, need_to_step_over := False\<rparr>"
  define v where "v = IncrementInstructionCount 1 (count_opcode 0 (IncrementCycleCount 1 (SetPc (pc_operand u + 4) u)))"
  have pc: "pc_operand u = 0x100" by (simp add: u_def t_def CoralNPUTop_init_def sample_sim_def pc_operand_def from_bytes_def)
  have v: "sim_memory (sim_state v) = sim_memory sample_sim" "registers (sim_state v) ''pc'' \<noteq> None" "pc32 v" "\<not> halted v" "halt_reason v = kSoftwareBreakpoint"
    by (simp_all add: v_def u_def t_def CoralNPUTop_init_def sample_sim_def IncrementInstructionCount_def count_opcode_def IncrementCycleCount_def
        SetPc_def with_sim_def set_register_def pc32_def sizeof_def)
  obtain s where s: "WriteBreakpointInstruction sample_mpact 0x100 (sim_state v) = Some (Inr (), s)"
    using renode_flat.breakpoint_pair [OF sample_range4(3) _ _ sample_range4(4), of "sim_state v" "0x100"] sample_range4(1,2) unfolding v(1) by blast
  then have k: "registers s = registers (sim_state v)"
    by (auto simp: WriteBreakpointInstruction_def store_word_def sample_mpact_def Let_def bind_eq_Some_conv split: option.splits if_splits)
  have u: "instruction_map (sim_state u) = (\<lambda>a. None)" "run_status t = kHalted" "need_to_step_over t" "halt_reason t = kSoftwareBreakpoint"
    by (simp_all add: u_def t_def CoralNPUTop_init_def sample_sim_def)
  have p: "StepPastBreakpoint sample_mpact u = Some (v\<lparr>sim_state := s\<rparr>)"
    using s u(1) by (simp add: StepPastBreakpoint_def WriteOriginalInstruction_def with_sim_status_def sample_execute_at pc v_def)
  let ?e = "step_end 0x1234 None (pc_operand (v\<lparr>sim_state := s\<rparr>)) (v\<lparr>sim_state := s\<rparr>)"
  have step: "Step sample_mpact 0x1234 1 t = Some (Inr 1, ?e)"
    using p u(2,3) step_loop_stop [of "v\<lparr>sim_state := s\<rparr>" 1 1 sample_mpact None] by (simp add: Step_def u_def step_end_def Let_def)
  have e: "\<not> halted ?e" "pc32 ?e"
    using v k by (auto simp: step_end_def leave_pc_def Let_def SetPc_def with_sim_def pc32_def set_register_def sizeof_def split: option.split)
  show ?thesis
    using Step_after_breakpoint [OF u(2-4) step e] step unfolding t_def by auto
qed




lemma ReadRegister_WriteRegister_witness:
  "\<exists>t'. WriteRegister sample_mpact ''pc'' 0x123456789 (CoralNPUTop_init sample_sim) = (Inr (), t') \<and> ReadRegister sample_mpact ''pc'' t' = Inr 0x23456789"
  using ReadRegister_WriteRegister [of "CoralNPUTop_init sample_sim" "''pc''" "[0, 1, 0, 0]" sample_mpact "0x123456789"]
  by (auto simp: CoralNPUTop_init_def sample_sim_def)

lemma LoadImage_copies_witness:
  "\<exists>m. LoadImage sample_mpact (Some [1, 2, 3]) 0x1ff (CoralNPUTop_init sample_sim) = Some (Inr (), with_sim (sim_memory_update (\<lambda>_. m)) (CoralNPUTop_init sample_sim))
    \<and> flat m = write_range 0x1ff [1, 2, 3] (flat sample_memory)"
  using LoadImage_copies [OF sample_range4(3), of "CoralNPUTop_init sample_sim" "0x1ff" "[1, 2, 3]"] renode_sample_ok sample_range
  by (simp add: CoralNPUTop_init_def sample_sim_def sample_mpact_def)


end
