(* ===== verification/NPU_Dma.thy ===== *)
theory NPU_Dma
  imports NPU_TopMemory NPU_V2State
begin

text \<open>
  The simulator of the hardware test bench, \<open>sim/hw_sim/mpact_simulator.cc\<close>: the DMA controller that
  \<open>DmaMemoryWrapper\<close> puts in front of a memory, and the mailbox of \<open>MpactSimulator\<close>. The wrapped memory is any
  \<open>memory_interface\<close>, the simulator top of MPACT (\<open>RiscVTop\<close>) the fields of \<open>riscv_top\<close>. A buffer is the list
  of its bytes; the walk along a chain of descriptors need not end.
\<close>

unbundle bit_operations_syntax

subsection \<open>The memory interface\<close>

text \<open>
  The four operations of \<open>MemoryInterface\<close>. A load is given the buffer, whether there is an instruction to complete
  and the latency of the buffer.
\<close>

record 'm memory_interface = "'m memory_if" +
  if_Load :: "u64 \<Rightarrow> u8 list \<Rightarrow> bool \<Rightarrow> int \<Rightarrow> 'm \<Rightarrow> (u8 list \<times> completion) option"
  if_Store :: "u64 \<Rightarrow> u8 list \<Rightarrow> 'm \<Rightarrow> 'm option"

text \<open>The accesses that the simulator makes itself: a fresh buffer and no instruction.\<close>

definition ops_of :: "'m memory_interface \<Rightarrow> 'm memory_ops" where
  "ops_of I = \<lparr>Load = \<lambda>a n m. map_option fst (if_Load I a (replicate n 0) False 0 m), Store = if_Store I\<rparr>"

subsection \<open>The DMA controller\<close>

definition kDmaBase :: u32 where "kDmaBase = 0x40050000"
definition kDmaRegsSize :: u32 where "kDmaRegsSize = 0x14"
definition kDmaCtrlOffset :: u32 where "kDmaCtrlOffset = 0x00"
definition kDmaStatusOffset :: u32 where "kDmaStatusOffset = 0x04"
definition kDmaDescAddrOffset :: u32 where "kDmaDescAddrOffset = 0x08"
definition kDmaCurDescOffset :: u32 where "kDmaCurDescOffset = 0x0c"
definition kDmaXferRemainOffset :: u32 where "kDmaXferRemainOffset = 0x10"
definition kDmaCtrlEnable :: u32 where "kDmaCtrlEnable = 0x1"
definition kDmaCtrlStart :: u32 where "kDmaCtrlStart = 0x2"
definition kDmaStatusBusy :: u32 where "kDmaStatusBusy = 0x1"
definition kDmaStatusDone :: u32 where "kDmaStatusDone = 0x2"

lemmas dma_constants = kDmaBase_def kDmaRegsSize_def kDmaCtrlOffset_def kDmaStatusOffset_def kDmaDescAddrOffset_def
  kDmaCurDescOffset_def kDmaXferRemainOffset_def kDmaCtrlEnable_def kDmaCtrlStart_def kDmaStatusBusy_def kDmaStatusDone_def

record 'm dma =
  parent_memory :: 'm
  dma_ctrl :: u32
  dma_status :: u32
  dma_desc_addr :: u32
  dma_cur_desc :: u32
  dma_xfer_remain :: u32

definition dma_init :: "'m \<Rightarrow> 'm dma" where
  "dma_init m = \<lparr>parent_memory = m, dma_ctrl = 0, dma_status = 0, dma_desc_addr = 0, dma_cur_desc = 0, dma_xfer_remain = 0\<rparr>"

definition IsDmaAddress :: "u64 \<Rightarrow> bool" where
  "IsDmaAddress addr \<longleftrightarrow> addr \<ge> ucast kDmaBase \<and> addr < ucast (kDmaBase + kDmaRegsSize)"

definition HandleDmaRead :: "u64 \<Rightarrow> u8 list \<Rightarrow> 'm dma \<Rightarrow> u8 list" where
  "HandleDmaRead address db d =
     (let offset = ucast (address - ucast kDmaBase) :: u32;
          val = (if offset = kDmaCtrlOffset then dma_ctrl d
                 else if offset = kDmaStatusOffset then dma_status d
                 else if offset = kDmaDescAddrOffset then dma_desc_addr d
                 else if offset = kDmaCurDescOffset then dma_cur_desc d
                 else if offset = kDmaXferRemainOffset then dma_xfer_remain d
                 else 0)
      in if length db = 4 then to_bytes val else db)"

text \<open>\<open>DataBuffer::Get<uint32_t>(k)\<close>.\<close>

definition get_u32 :: "nat \<Rightarrow> u8 list \<Rightarrow> u32" where
  "get_u32 k db = from_bytes (take 4 (drop (4 * k) db))"

definition dma_transfer :: "'m memory_ops \<Rightarrow> u32 \<Rightarrow> u32 \<Rightarrow> u32 \<Rightarrow> 'm dma \<Rightarrow> 'm dma option" where
  "dma_transfer mem src_addr dst_addr xfer_len d =
     (if xfer_len > 0
      then do { data_db \<leftarrow> Load mem (ucast src_addr) (unat xfer_len) (parent_memory d);
                m \<leftarrow> Store mem (ucast dst_addr) data_db (parent_memory d);
                Some (d\<lparr>parent_memory := m\<rparr>) }
      else Some d)"

partial_function (option) dma_loop :: "'m memory_ops \<Rightarrow> u32 \<Rightarrow> 'm dma \<Rightarrow> 'm dma option" where
  "dma_loop mem desc_addr d =
     (if desc_addr \<noteq> 0
      then do { desc_db \<leftarrow> Load mem (ucast desc_addr) 32 (parent_memory (d\<lparr>dma_cur_desc := desc_addr\<rparr>));
                d \<leftarrow> dma_transfer mem (get_u32 0 desc_db) (get_u32 1 desc_db) (get_u32 2 desc_db AND 0x00FFFFFF)
                  (d\<lparr>dma_cur_desc := desc_addr\<rparr>);
                dma_loop mem (get_u32 3 desc_db) d }
      else Some d)"

definition RunDma :: "'m memory_ops \<Rightarrow> 'm dma \<Rightarrow> 'm dma option" where
  "RunDma mem d =
     (let d = d\<lparr>dma_status := dma_status d OR kDmaStatusBusy\<rparr>;
          d = d\<lparr>dma_status := dma_status d AND NOT kDmaStatusDone\<rparr>
      in do { d \<leftarrow> dma_loop mem (dma_desc_addr d) d;
              let d = d\<lparr>dma_status := dma_status d AND NOT kDmaStatusBusy\<rparr>;
              Some (d\<lparr>dma_status := dma_status d OR kDmaStatusDone\<rparr>) })"

definition HandleDmaWrite :: "'m memory_ops \<Rightarrow> u64 \<Rightarrow> u8 list \<Rightarrow> 'm dma \<Rightarrow> 'm dma option" where
  "HandleDmaWrite mem address db d =
     (let offset = ucast (address - ucast kDmaBase) :: u32
      in if length db = 4
         then let val = from_bytes db :: u32 in
           if offset = kDmaCtrlOffset
           then let d = d\<lparr>dma_ctrl := val\<rparr> in
             if dma_ctrl d AND (kDmaCtrlEnable OR kDmaCtrlStart) = kDmaCtrlEnable OR kDmaCtrlStart
             then RunDma mem d else Some d
           else if offset = kDmaDescAddrOffset then Some (d\<lparr>dma_desc_addr := val\<rparr>)
           else Some d
         else Some d)"

definition Dma_Load :: "'m memory_interface \<Rightarrow> u64 \<Rightarrow> u8 list \<Rightarrow> bool \<Rightarrow> int \<Rightarrow> 'm dma \<Rightarrow> (u8 list \<times> completion) option" where
  "Dma_Load I address db inst latency d =
     (if IsDmaAddress address then Some (HandleDmaRead address db d, if inst then ExecuteNow else NoInstruction)
      else if_Load I address db inst latency (parent_memory d))"

definition Dma_Store :: "'m memory_interface \<Rightarrow> u64 \<Rightarrow> u8 list \<Rightarrow> 'm dma \<Rightarrow> 'm dma option" where
  "Dma_Store I address db d =
     (if IsDmaAddress address then HandleDmaWrite (ops_of I) address db d
      else map_option (\<lambda>m. d\<lparr>parent_memory := m\<rparr>) (if_Store I address db (parent_memory d)))"

text \<open>The accesses of the vector instructions are passed on as they are.\<close>

definition DmaMemoryWrapper :: "'m memory_interface \<Rightarrow> 'm dma memory_interface" where
  "DmaMemoryWrapper I =
     \<lparr>LoadMemory = \<lambda>addresses mask el_size db d. LoadMemory I addresses mask el_size db (parent_memory d),
      StoreMemory = \<lambda>addresses mask el_size db d.
        map_option (\<lambda>m. d\<lparr>parent_memory := m\<rparr>) (StoreMemory I addresses mask el_size db (parent_memory d)),
      if_Load = Dma_Load I, if_Store = Dma_Store I\<rparr>"

subsection \<open>The simulator\<close>

definition kAddrMailbox :: u32 where "kAddrMailbox = 0x401fc000"

record CoralNPUMailbox =
  message :: "u32 list"

record 't riscv_top =
  top_memory :: "'t memory_ops"
  top_WriteRegister :: "string \<Rightarrow> u64 \<Rightarrow> 't \<Rightarrow> 't option"
  top_Run :: "'t \<Rightarrow> (bool \<times> 't) option"
  top_Wait :: "'t \<Rightarrow> (bool \<times> 't) option"
  top_RequestHalt :: "HaltReason \<Rightarrow> 't \<Rightarrow> 't"

record 't MpactSimulator =
  mailbox :: CoralNPUMailbox
  rv_top :: 't

text \<open>\<open>None\<close> is a failed assertion, or a call that does not return.\<close>

definition ReadMem :: "'t riscv_top \<Rightarrow> u32 \<Rightarrow> nat \<Rightarrow> 't MpactSimulator \<Rightarrow> u8 list option" where
  "ReadMem T addr sz s = Load (top_memory T) (ucast addr) sz (rv_top s)"

definition WriteMem :: "'t riscv_top \<Rightarrow> u32 \<Rightarrow> u8 list \<Rightarrow> 't MpactSimulator \<Rightarrow> 't MpactSimulator option" where
  "WriteMem T addr bs s = map_option (\<lambda>t. s\<lparr>rv_top := t\<rparr>) (Store (top_memory T) (ucast addr) bs (rv_top s))"

definition ReadMailbox :: "'t riscv_top \<Rightarrow> 't MpactSimulator \<Rightarrow> (CoralNPUMailbox \<times> 't MpactSimulator) option" where
  "ReadMailbox T s =
     do { bs \<leftarrow> Load (top_memory T) (ucast kAddrMailbox) 16 (rv_top s);
          let s = s\<lparr>mailbox := \<lparr>message = lanes bs\<rparr>\<rparr>;
          Some (mailbox s, s) }"

definition WriteMailbox :: "'t riscv_top \<Rightarrow> CoralNPUMailbox \<Rightarrow> 't MpactSimulator \<Rightarrow> 't MpactSimulator option" where
  "WriteMailbox T mb s =
     (let s = s\<lparr>mailbox := \<lparr>message = map (\<lambda>i. message mb ! i) [0..<4]\<rparr>\<rparr>
      in WriteMem T kAddrMailbox (unlanes (message mb)) s)"

definition Simulator_Run :: "'t riscv_top \<Rightarrow> u32 \<Rightarrow> 't MpactSimulator \<Rightarrow> 't MpactSimulator option" where
  "Simulator_Run T start_addr s = map_option (\<lambda>t. s\<lparr>rv_top := t\<rparr>) (top_WriteRegister T ''pc'' (ucast start_addr) (rv_top s))"

definition WaitForTermination :: "'t riscv_top \<Rightarrow> int \<Rightarrow> 't MpactSimulator \<Rightarrow> (bool \<times> 't MpactSimulator) option" where
  "WaitForTermination T timeout s =
     do { (ok, t) \<leftarrow> top_Run T (rv_top s);
          let s = s\<lparr>rv_top := t\<rparr>;
          if \<not> ok then Some (False, s)
          else do { (ok, t) \<leftarrow> top_Wait T (rv_top s);
                    let s = s\<lparr>rv_top := t\<rparr>;
                    if \<not> ok then Some (False, s)
                    else do { bs \<leftarrow> ReadMem T kAddrMailbox 16 s;
                              Some (True, s\<lparr>mailbox := \<lparr>message = lanes bs\<rparr>\<rparr>) } } }"

text \<open>The handlers of \<open>mpause\<close>, \<open>ebreak\<close> and \<open>wfi\<close> that the constructor registers, less the log message, and the
  memory region.\<close>

definition halt_handler :: "'t riscv_top \<Rightarrow> 't MpactSimulator \<Rightarrow> bool \<times> 't MpactSimulator" where
  "halt_handler T s = (True, s\<lparr>rv_top := top_RequestHalt T kUserRequest (rv_top s)\<rparr>)"

definition MpactSimulator_regions :: "CoralNPUV2State \<Rightarrow> CoralNPUV2State" where
  "MpactSimulator_regions = AddMemoryRegion 0 0xFFFFFFFF kReadWriteExecute"

end
