(* ===== verification/NPU_DmaProps.thy ===== *)
theory NPU_DmaProps
  imports NPU_Dma
begin

text \<open>
  What the DMA controller promises: the contract \<open>flat_interface\<close> of a memory interface, which the wrapper
  gives again outside its window (the sublocale), and the copies that a chain of descriptors makes.
\<close>

subsection \<open>Descriptors in a flat memory\<close>

definition word_at :: "(nat \<Rightarrow> u8) \<Rightarrow> nat \<Rightarrow> u32" where
  "word_at f a = from_bytes (map f [a..<a + 4])"

definition desc_src :: "(nat \<Rightarrow> u8) \<Rightarrow> u32 \<Rightarrow> u32" where "desc_src f a = word_at f (unat a)"
definition desc_dst :: "(nat \<Rightarrow> u8) \<Rightarrow> u32 \<Rightarrow> u32" where "desc_dst f a = word_at f (unat a + 4)"
definition desc_len :: "(nat \<Rightarrow> u8) \<Rightarrow> u32 \<Rightarrow> nat" where "desc_len f a = unat (word_at f (unat a + 8) AND 0x00FFFFFF)"
definition desc_next :: "(nat \<Rightarrow> u8) \<Rightarrow> u32 \<Rightarrow> u32" where "desc_next f a = word_at f (unat a + 12)"

lemmas desc_defs = desc_src_def desc_dst_def desc_len_def desc_next_def

text \<open>The copy of one descriptor, and the list that the next fields of the descriptors form.\<close>

definition copy_bytes :: "u32 \<Rightarrow> u32 \<Rightarrow> nat \<Rightarrow> (nat \<Rightarrow> u8) \<Rightarrow> nat \<Rightarrow> u8" where
  "copy_bytes src dst n f = write_range (unat dst) (map f [unat src..<unat src + n]) f"

fun chain :: "(nat \<Rightarrow> u8) \<Rightarrow> u32 \<Rightarrow> u32 list \<Rightarrow> bool" where
  "chain f a [] = (a = 0)"
| "chain f a (d # ds) = (a = d \<and> a \<noteq> 0 \<and> chain f (desc_next f a) ds)"

definition run_chain :: "(nat \<Rightarrow> u8) \<Rightarrow> u32 list \<Rightarrow> (nat \<Rightarrow> u8) \<Rightarrow> nat \<Rightarrow> u8" where
  "run_chain f as g = fold (\<lambda>a. copy_bytes (desc_src f a) (desc_dst f a) (desc_len f a)) as g"

text \<open>The descriptors \<open>as\<close> and the places they copy between are memory, and no copy writes a descriptor.\<close>

definition desc_ok :: "(nat \<Rightarrow> nat \<Rightarrow> bool) \<Rightarrow> (nat \<Rightarrow> u8) \<Rightarrow> u32 \<Rightarrow> bool" where
  "desc_ok rng f a \<longleftrightarrow> rng (unat a) 32 \<and> (0 < desc_len f a \<longrightarrow> rng (unat (desc_src f a)) (desc_len f a) \<and> rng (unat (desc_dst f a)) (desc_len f a))"

definition writes_apart :: "(nat \<Rightarrow> u8) \<Rightarrow> u32 \<Rightarrow> u32 \<Rightarrow> bool" where
  "writes_apart f a b \<longleftrightarrow> unat (desc_dst f a) + desc_len f a \<le> unat b \<or> unat b + 32 \<le> unat (desc_dst f a)"

definition chain_ok :: "(nat \<Rightarrow> nat \<Rightarrow> bool) \<Rightarrow> (nat \<Rightarrow> u8) \<Rightarrow> u32 set \<Rightarrow> bool" where
  "chain_ok rng f S \<longleftrightarrow> (\<forall>a\<in>S. desc_ok rng f a) \<and> (\<forall>a\<in>S. \<forall>b\<in>S. writes_apart f a b)"

lemma chain_closed:
  "chain f a as \<Longrightarrow> a \<in> insert 0 S \<Longrightarrow> \<forall>a\<in>S. desc_next f a \<in> insert 0 S \<Longrightarrow> set as \<subseteq> S"
  by (induction as arbitrary: a) auto

text \<open>Memories that agree on the descriptors.\<close>

definition same_descriptors :: "u32 set \<Rightarrow> (nat \<Rightarrow> u8) \<Rightarrow> (nat \<Rightarrow> u8) \<Rightarrow> bool" where
  "same_descriptors S f g \<longleftrightarrow> (\<forall>a\<in>S. \<forall>k<32. g (unat a + k) = f (unat a + k))"

lemma same_offset: "\<forall>a\<in>S. \<forall>k<n. g (unat a + k) = f (unat a + k) \<Longrightarrow> a \<in> S \<Longrightarrow> unat a \<le> x \<Longrightarrow> x < unat a + n \<Longrightarrow> g x = f x"
  using le_Suc_ex [of "unat a" x] by auto

lemma unat_u64 [simp]: "unat (ucast (a :: u32) :: u64) = unat a"
  using unsigned_less [of a, where 'a = nat] by (simp add: unsigned_ucast_eq take_bit_nat_eq_self)

lemma same_word_at: "same_descriptors S f g \<Longrightarrow> a \<in> S \<Longrightarrow> k + 4 \<le> 32 \<Longrightarrow> word_at g (unat a + k) = word_at f (unat a + k)"
  unfolding word_at_def by (rule arg_cong [of _ _ from_bytes]) (rule map_cong [OF refl], rule same_offset [OF iffD1 [OF same_descriptors_def]], auto)

lemma same_desc:
  assumes "same_descriptors S f g" "a \<in> S"
  shows "desc_src g a = desc_src f a" "desc_dst g a = desc_dst f a" "desc_len g a = desc_len f a" "desc_next g a = desc_next f a"
  using same_word_at [OF assms, of 0] same_word_at [OF assms, of 4] same_word_at [OF assms, of 8] same_word_at [OF assms, of 12]
  by (simp_all add: desc_defs)

lemma same_copy:
  assumes "same_descriptors S f g" "chain_ok rng f S" "a \<in> S"
  shows "same_descriptors S f (copy_bytes (desc_src f a) (desc_dst f a) (desc_len f a) g)"
  unfolding same_descriptors_def
proof (intro ballI allI impI)
  fix b k assume b: "b \<in> S" "k < (32::nat)"
  have "writes_apart f a b" using assms(2,3) b(1) by (simp add: chain_ok_def)
  then show "copy_bytes (desc_src f a) (desc_dst f a) (desc_len f a) g (unat b + k) = f (unat b + k)"
    using assms(1) b by (auto simp: copy_bytes_def write_range_def writes_apart_def same_descriptors_def)
qed

lemma get_u32_map:
  assumes "4 * k + 4 \<le> 32"
  shows "get_u32 k (map f [a..<a + 32]) = word_at f (a + 4 * k)"
proof -
  have "take 4 (drop (4 * k) (map f [a..<a + 32])) = map f [a + 4 * k..<a + 4 * k + 4]"
    using assms by (simp add: drop_map take_map)
  then show ?thesis by (simp add: get_u32_def word_at_def)
qed

subsection \<open>The contract\<close>

locale flat_interface =
  fixes I :: "'m memory_interface"
    and mem_ok :: "'m \<Rightarrow> bool"
    and in_range :: "'m \<Rightarrow> nat \<Rightarrow> nat \<Rightarrow> bool"
    and byte :: "'m \<Rightarrow> nat \<Rightarrow> u8"
  assumes if_load_flat: "mem_ok m \<Longrightarrow> in_range m (unat a) (length db) \<Longrightarrow> db \<noteq> [] \<Longrightarrow>
      if_Load I a db inst latency m = Some (map (byte m) [unat a..<unat a + length db], complete_load inst latency)"
    and if_store_flat: "mem_ok m \<Longrightarrow> in_range m (unat a) (length bs) \<Longrightarrow> bs \<noteq> [] \<Longrightarrow>
      \<exists>m'. if_Store I a bs m = Some m' \<and> mem_ok m' \<and> in_range m' = in_range m \<and> byte m' = write_range (unat a) bs (byte m)"
    and if_range_sub: "in_range m i n \<Longrightarrow> i \<le> j \<Longrightarrow> j + k \<le> i + n \<Longrightarrow> in_range m j k"
begin

lemma ops_flat: "flat_memory (ops_of I) mem_ok in_range byte"
proof
  fix m and a :: u64 and n assume m: "mem_ok m" "in_range m (unat a) n" "0 < (n::nat)"
  then show "Load (ops_of I) a n m = Some (map (byte m) [unat a..<unat a + n])"
    using if_load_flat [of m a "replicate n 0"] by (simp add: ops_of_def)
next
  fix m and a :: u64 and bs :: "u8 list" assume "mem_ok m" "in_range m (unat a) (length bs)" "bs \<noteq> []"
  then show "\<exists>m'. Store (ops_of I) a bs m = Some m' \<and> mem_ok m' \<and> in_range m' = in_range m \<and> byte m' = write_range (unat a) bs (byte m)"
    using if_store_flat by (simp add: ops_of_def)
qed (rule if_range_sub)

end

sublocale flat_interface \<subseteq> fresh: flat_memory "ops_of I" mem_ok in_range byte
  by (rule ops_flat)

subsection \<open>Running a chain\<close>

text \<open>A round of the loop, and the rule for its invariants.\<close>

definition dma_step :: "'m memory_ops \<Rightarrow> u32 \<Rightarrow> 'm dma \<Rightarrow> (u32 \<times> 'm dma) option" where
  "dma_step mem a d = do { db \<leftarrow> Load mem (ucast a) 32 (parent_memory d);
     e \<leftarrow> dma_transfer mem (get_u32 0 db) (get_u32 1 db) (get_u32 2 db AND 0x00FFFFFF) (d\<lparr>dma_cur_desc := a\<rparr>);
     Some (get_u32 3 db, e) }"

lemma dma_loop_step: "dma_loop mem a d = (if a \<noteq> 0 then dma_step mem a d \<bind> (\<lambda>(b, e). dma_loop mem b e) else Some d)"
  by (subst dma_loop.simps) (simp add: dma_step_def bind_assoc)

definition dma_keeps :: "'m memory_ops \<Rightarrow> (u32 \<Rightarrow> 'm dma \<Rightarrow> bool) \<Rightarrow> bool" where
  "dma_keeps mem Inv \<longleftrightarrow> (\<forall>a d b e. Inv a d \<longrightarrow> a \<noteq> 0 \<longrightarrow> dma_step mem a d = Some (b, e) \<longrightarrow> Inv b e)"

lemma dma_loop_invariant: "dma_loop mem a d = Some d' \<Longrightarrow> dma_keeps mem Inv \<Longrightarrow> Inv a d \<Longrightarrow> Inv 0 d'"
proof (induction rule: dma_loop.raw_induct [rotated 1, consumes 1, case_names round])
  case (round loop mem a d d')
  show ?case
  proof (cases "a = 0")
    case False
    with round(2) obtain b e where e: "dma_step mem a d = Some (b, e)" "loop mem b e = Some d'"
      by (auto simp: dma_step_def bind_eq_Some_conv)
    with round(3,4) False have "Inv b e" by (auto simp: dma_keeps_def)
    then show ?thesis by (rule round(1) [OF e(2) round(3)])
  qed (use round in auto)
qed

context flat_memory begin

lemma dma_transfer_flat:
  assumes "mem_ok (parent_memory d)" "desc_ok (in_range (parent_memory d)) f a" "n = desc_len f a" "n < 2 ^ 32"
  shows "\<exists>m'. dma_transfer ops (desc_src f a) (desc_dst f a) (of_nat n) d = Some (d\<lparr>parent_memory := m'\<rparr>) \<and> mem_ok m'
    \<and> in_range m' = in_range (parent_memory d) \<and> byte m' = copy_bytes (desc_src f a) (desc_dst f a) n (byte (parent_memory d))"
proof (cases "n = 0")
  case False
  have u: "unat (of_nat n :: u32) = n" using assms(4) by (simp add: unsigned_of_nat take_bit_nat_eq_self)
  then have p: "(of_nat n :: u32) > 0" using False by (simp add: word_less_nat_alt)
  have r: "in_range (parent_memory d) (unat (ucast (desc_src f a) :: u64)) n" "in_range (parent_memory d) (unat (ucast (desc_dst f a) :: u64)) n"
    using assms(2,3) False by (simp_all add: desc_ok_def)
  let ?bs = "map (byte (parent_memory d)) [unat (desc_src f a)..<unat (desc_src f a) + n]"
  have l: "Load ops (ucast (desc_src f a)) n (parent_memory d) = Some ?bs" using load_flat [OF assms(1) r(1)] False by simp
  have "?bs \<noteq> []" "length ?bs = n" using False by simp_all
  with store_flat [OF assms(1), of "ucast (desc_dst f a)" ?bs] r(2) obtain m' where
    "Store ops (ucast (desc_dst f a)) ?bs (parent_memory d) = Some m'" "mem_ok m'" "in_range m' = in_range (parent_memory d)"
    "byte m' = write_range (unat (desc_dst f a)) ?bs (byte (parent_memory d))" by auto
  then show ?thesis using l u p by (auto simp: dma_transfer_def copy_bytes_def)
next
  case True
  then show ?thesis using assms(1) by (intro exI [of _ "parent_memory d"]) (simp add: dma_transfer_def copy_bytes_def)
qed

text \<open>One round of the loop, in terms of the memory at the start.\<close>

lemma dma_step_flat:
  assumes "mem_ok (parent_memory d)" "chain_ok (in_range (parent_memory d)) f S" "same_descriptors S f (byte (parent_memory d))" "a \<in> S"
  shows "\<exists>m'. dma_step ops a d = Some (desc_next f a, d\<lparr>dma_cur_desc := a, parent_memory := m'\<rparr>) \<and> mem_ok m'
    \<and> in_range m' = in_range (parent_memory d) \<and> same_descriptors S f (byte m')
    \<and> byte m' = copy_bytes (desc_src f a) (desc_dst f a) (desc_len f a) (byte (parent_memory d))"
proof -
  let ?m = "parent_memory d"
  let ?db = "map (byte ?m) [unat a..<unat a + 32]"
  have ok: "desc_ok (in_range ?m) f a" using assms(2,4) by (simp add: chain_ok_def)
  then have "in_range ?m (unat (ucast a :: u64)) 32" by (simp add: desc_ok_def)
  from load_flat [OF assms(1) this] have l: "Load ops (ucast a) 32 ?m = Some ?db" by simp
  have n: "desc_len f a < 2 ^ 32" "of_nat (desc_len f a) = word_at f (unat a + 8) AND 0x00FFFFFF"
    using unsigned_less [of "word_at f (unat a + 8) AND 0x00FFFFFF", where 'a = nat] by (simp_all add: desc_len_def)
  from same_word_at [OF assms(3,4)] have g: "get_u32 0 ?db = desc_src f a" "get_u32 1 ?db = desc_dst f a"
    "get_u32 2 ?db AND 0x00FFFFFF = of_nat (desc_len f a)" "get_u32 3 ?db = desc_next f a"
    by (simp_all add: get_u32_map desc_src_def desc_dst_def desc_next_def n(2) same_word_at [OF assms(3,4), of 0, simplified])
  from dma_transfer_flat [of "d\<lparr>dma_cur_desc := a\<rparr>" f a "desc_len f a"] assms(1) ok n(1) obtain m' where
    m': "dma_transfer ops (desc_src f a) (desc_dst f a) (of_nat (desc_len f a)) (d\<lparr>dma_cur_desc := a\<rparr>) = Some (d\<lparr>dma_cur_desc := a, parent_memory := m'\<rparr>)"
    "mem_ok m'" "in_range m' = in_range ?m" "byte m' = copy_bytes (desc_src f a) (desc_dst f a) (desc_len f a) (byte ?m)" by auto
  then show ?thesis using l g same_copy [OF assms(3,2,4)]
    by (intro exI [of _ m']) (simp add: dma_step_def)
qed

lemma dma_loop_chain:
  assumes "chain_ok rng f S"
  shows "chain f a as \<Longrightarrow> set as \<subseteq> S \<Longrightarrow> mem_ok (parent_memory d) \<Longrightarrow> in_range (parent_memory d) = rng
    \<Longrightarrow> same_descriptors S f (byte (parent_memory d))
    \<Longrightarrow> \<exists>m'. dma_loop ops a d = Some (d\<lparr>dma_cur_desc := last (dma_cur_desc d # as), parent_memory := m'\<rparr>) \<and> mem_ok m'
      \<and> in_range m' = rng \<and> byte m' = run_chain f as (byte (parent_memory d))"
proof (induction as arbitrary: a d)
  case Nil
  then show ?case by (intro exI [of _ "parent_memory d"]) (simp add: dma_loop_step run_chain_def)
next
  case (Cons b as)
  then have b: "a \<in> S" "a \<noteq> 0" "b = a" by auto
  from Cons.prems(3-5) assms dma_step_flat [OF _ _ _ b(1), of d f] obtain m where
    m: "dma_step ops a d = Some (desc_next f a, d\<lparr>dma_cur_desc := a, parent_memory := m\<rparr>)" "mem_ok m" "in_range m = rng"
    "same_descriptors S f (byte m)" "byte m = copy_bytes (desc_src f a) (desc_dst f a) (desc_len f a) (byte (parent_memory d))" by auto
  from Cons.IH [of "desc_next f a" "d\<lparr>dma_cur_desc := a, parent_memory := m\<rparr>"] Cons.prems m obtain m' where
    "dma_loop ops (desc_next f a) (d\<lparr>dma_cur_desc := a, parent_memory := m\<rparr>)
      = Some (d\<lparr>dma_cur_desc := last (a # as), parent_memory := m'\<rparr>)" "mem_ok m'" "in_range m' = rng" "byte m' = run_chain f as (byte m)" by auto
  then show ?case using m b by (intro exI [of _ m']) (simp add: run_chain_def dma_loop_step [of ops a])
qed

text \<open>The loop ends only on a list of descriptors.\<close>

lemma dma_loop_ends:
  assumes "chain_ok rng f S" "\<And>a. a \<in> S \<Longrightarrow> desc_next f a \<in> insert 0 S" "dma_loop ops a d = Some d'"
    and "a \<in> insert 0 S" "mem_ok (parent_memory d)" "in_range (parent_memory d) = rng" "same_descriptors S f (byte (parent_memory d))"
  shows "\<exists>as. chain f a as"
proof (rule ccontr)
  let ?Inv = "\<lambda>a d. a \<in> insert 0 S \<and> \<not> (\<exists>as. chain f a as) \<and> mem_ok (parent_memory d) \<and> in_range (parent_memory d) = rng
    \<and> same_descriptors S f (byte (parent_memory d))"
  assume "\<not> (\<exists>as. chain f a as)"
  then have i: "?Inv a d" using assms by blast
  have "dma_keeps ops ?Inv" unfolding dma_keeps_def
  proof (intro allI impI)
    fix a d b e assume i: "?Inv a d" and a: "a \<noteq> 0" and "dma_step ops a d = Some (b, e)"
    moreover have "a \<in> S" using i a by blast
    ultimately have b: "b = desc_next f a" and e: "mem_ok (parent_memory e) \<and> in_range (parent_memory e) = rng
        \<and> same_descriptors S f (byte (parent_memory e))"
      using dma_step_flat [of d f S a] assms(1) by auto
    have "chain f a (a # as)" if "chain f b as" for as using that a b by simp
    then show "?Inv b e" using i e assms(2) [OF \<open>a \<in> S\<close>] b by blast
  qed
  from dma_loop_invariant [OF assms(3) this i] have "\<not> chain f 0 []" by blast
  then show False by simp
qed

end

subsection \<open>The wrapper is a memory again\<close>

definition outside_window :: "nat \<Rightarrow> nat \<Rightarrow> bool" where
  "outside_window i n \<longleftrightarrow> i + n \<le> unat kDmaBase \<or> unat kDmaBase + unat kDmaRegsSize \<le> i"

lemma outside_no_dma: "outside_window (unat a) n \<Longrightarrow> 0 < n \<Longrightarrow> \<not> IsDmaAddress a"
  by (auto simp: outside_window_def IsDmaAddress_def word_le_nat_alt word_less_nat_alt kDmaBase_def kDmaRegsSize_def)

context flat_interface begin

lemma wrapper_flat:
  "flat_interface (DmaMemoryWrapper I) (\<lambda>d. mem_ok (parent_memory d)) (\<lambda>d i n. in_range (parent_memory d) i n \<and> outside_window i n)
     (\<lambda>d. byte (parent_memory d))"
proof
  fix d :: "'m dma" and a :: u64 and db :: "u8 list" and inst latency
  assume "mem_ok (parent_memory d)" "in_range (parent_memory d) (unat a) (length db) \<and> outside_window (unat a) (length db)" "db \<noteq> []"
  then show "if_Load (DmaMemoryWrapper I) a db inst latency d
      = Some (map (byte (parent_memory d)) [unat a..<unat a + length db], complete_load inst latency)"
    using if_load_flat [of "parent_memory d" a db] outside_no_dma [of a "length db"] by (simp add: DmaMemoryWrapper_def Dma_Load_def)
next
  fix d :: "'m dma" and a :: u64 and bs :: "u8 list"
  assume "mem_ok (parent_memory d)" "in_range (parent_memory d) (unat a) (length bs) \<and> outside_window (unat a) (length bs)" "bs \<noteq> []"
  then show "\<exists>d'. if_Store (DmaMemoryWrapper I) a bs d = Some d' \<and> mem_ok (parent_memory d')
      \<and> (\<lambda>i n. in_range (parent_memory d') i n \<and> outside_window i n) = (\<lambda>i n. in_range (parent_memory d) i n \<and> outside_window i n)
      \<and> byte (parent_memory d') = write_range (unat a) bs (byte (parent_memory d))"
    using if_store_flat [of "parent_memory d" a bs] outside_no_dma [of a "length bs"] by (auto simp: DmaMemoryWrapper_def Dma_Store_def)
next
  fix d :: "'m dma" and i j n k :: nat
  assume "in_range (parent_memory d) i n \<and> outside_window i n" "i \<le> j" "j + k \<le> i + n"
  then show "in_range (parent_memory d) j k \<and> outside_window j k" using if_range_sub [of "parent_memory d" i n j k] by (auto simp: outside_window_def)
qed

end

subsection \<open>The DMA controller in front of the Renode memory\<close>

definition renode_interface :: "renode_memory memory_interface" where
  "renode_interface = \<lparr>LoadMemory = LoadMemory renode_if, StoreMemory = StoreMemory renode_if,
     if_Load = \<lambda>a db inst latency m. Renode_Load m a db inst latency, if_Store = \<lambda>a bs m. Renode_Store m a bs\<rparr>"

interpretation renode_dma: flat_interface renode_interface renode_ok mem_range flat
proof
  fix m inst latency and a :: u64 and db :: "u8 list" assume m: "renode_ok m" "mem_range m (unat a) (length db)" "db \<noteq> []"
  then have n: "0 < length db" by simp
  with m(1,2) LoadStoreHelper_load_flat [OF m(1,2) n] valid_range [OF m(2) n]
  show "if_Load renode_interface a db inst latency m = Some (map (flat m) [unat a..<unat a + length db], complete_load inst latency)"
    by (simp add: renode_interface_def Renode_Load_def Let_def overwrite_def)
next
  fix m and a :: u64 and bs :: "u8 list" assume "renode_ok m" "mem_range m (unat a) (length bs)" "bs \<noteq> []"
  then show "\<exists>m'. if_Store renode_interface a bs m = Some m' \<and> renode_ok m' \<and> mem_range m' = mem_range m \<and> flat m' = write_range (unat a) bs (flat m)"
    using renode_flat.store_flat [of m a bs] by (simp add: renode_interface_def renode_ops_def)
qed (rule renode_flat.range_sub)

interpretation wrapped_renode: flat_interface "DmaMemoryWrapper renode_interface" "\<lambda>d. renode_ok (parent_memory d)"
  "\<lambda>d i n. mem_range (parent_memory d) i n \<and> outside_window i n" "\<lambda>d. flat (parent_memory d)"
  by (rule renode_dma.wrapper_flat)

end
