(* ===== verification/NPU_DmaClaims.thy ===== *)
theory NPU_DmaClaims
  imports NPU_DmaProps NPU_RenodeMemoryClaims NPU_V2Props
begin

text \<open>The properties of the hardware test bench's simulator.\<close>

subsection \<open>Starting the controller\<close>

text \<open>A store of \<open>val\<close> to the control register with the enable and start bits set.\<close>

definition start_dma :: "'m memory_interface \<Rightarrow> u32 \<Rightarrow> 'm dma \<Rightarrow> 'm dma option" where
  "start_dma I val d = Dma_Store I (ucast (kDmaBase + kDmaCtrlOffset)) (to_bytes val) d"

abbreviation starts :: "u32 \<Rightarrow> bool" where
  "starts val \<equiv> val AND (kDmaCtrlEnable OR kDmaCtrlStart) = kDmaCtrlEnable OR kDmaCtrlStart"

lemma start_dma_runs: "starts val \<Longrightarrow> start_dma I val d = RunDma (ops_of I) (d\<lparr>dma_ctrl := val\<rparr>)"
  by (simp add: start_dma_def Dma_Store_def IsDmaAddress_def HandleDmaWrite_def dma_constants sizeof_def)

text \<open>The status while the chain is running and after it.\<close>

definition busy_status :: "u32 \<Rightarrow> u32" where "busy_status st = (st OR kDmaStatusBusy) AND NOT kDmaStatusDone"
definition done_status :: "u32 \<Rightarrow> u32" where "done_status st = (busy_status st AND NOT kDmaStatusBusy) OR kDmaStatusDone"

lemma RunDma_loop:
  "RunDma mem d = map_option (\<lambda>e. e\<lparr>dma_status := (dma_status e AND NOT kDmaStatusBusy) OR kDmaStatusDone\<rparr>)
     (dma_loop mem (dma_desc_addr d) (d\<lparr>dma_status := busy_status (dma_status d)\<rparr>))"
  by (simp add: RunDma_def busy_status_def Let_def map_option_bind split: bind_split)

text \<open>The descriptors that the controller can reach are a set that the next fields do not leave.\<close>

definition closed_descriptors :: "(nat \<Rightarrow> u8) \<Rightarrow> u32 set \<Rightarrow> bool" where
  "closed_descriptors f S \<longleftrightarrow> (\<forall>a\<in>S. desc_next f a \<in> insert 0 S)"

text \<open>Property C11. Writing the start bit performs exactly the copies of the descriptor list, in its order: when the
  next fields form the list \<open>as\<close> from the descriptor address, all of it in memory and no copy hitting a
  descriptor, the store returns, the memory is the one after copying each descriptor's low 24 bits of length
  (overlapping copies behave as \<open>memmove\<close>), the current descriptor is the last one, busy is clear and done is
  set. An empty list completes at once.\<close>

theorem RunDma_copies:
  assumes "renode_ok (parent_memory d)" "starts val" "chain (flat (parent_memory d)) (dma_desc_addr d) as"
    and "chain_ok (mem_range (parent_memory d)) (flat (parent_memory d)) (set as)"
  shows "\<exists>m'. start_dma renode_interface val d = Some (d\<lparr>dma_ctrl := val, parent_memory := m',
       dma_cur_desc := last (dma_cur_desc d # as), dma_status := done_status (dma_status d)\<rparr>)
    \<and> renode_ok m' \<and> flat m' = run_chain (flat (parent_memory d)) as (flat (parent_memory d))"
proof -
  let ?d = "d\<lparr>dma_ctrl := val, dma_status := busy_status (dma_status d)\<rparr>"
  have "same_descriptors (set as) (flat (parent_memory d)) (flat (parent_memory ?d))" by (simp add: same_descriptors_def)
  from renode_dma.fresh.dma_loop_chain [OF assms(4,3) subset_refl _ _ this] assms(1) obtain m' where
    "dma_loop (ops_of renode_interface) (dma_desc_addr d) ?d = Some (?d\<lparr>dma_cur_desc := last (dma_cur_desc d # as), parent_memory := m'\<rparr>)"
    "renode_ok m'" "flat m' = run_chain (flat (parent_memory d)) as (flat (parent_memory d))" by auto
  then show ?thesis using start_dma_runs [OF assms(2), of renode_interface d] by (intro exI [of _ m']) (simp add: RunDma_loop done_status_def)
qed

text \<open>Property C30. The store that starts the controller returns exactly when the next fields lead to zero:
  for descriptors in memory that no copy changes, a cyclic list keeps the simulator in the loop for ever.\<close>

theorem RunDma_returns:
  assumes "renode_ok (parent_memory d)" "starts val" "dma_desc_addr d \<in> insert 0 S"
    and "chain_ok (mem_range (parent_memory d)) (flat (parent_memory d)) S" "closed_descriptors (flat (parent_memory d)) S"
  shows "start_dma renode_interface val d \<noteq> None \<longleftrightarrow> (\<exists>as. chain (flat (parent_memory d)) (dma_desc_addr d) as)"
proof
  let ?f = "flat (parent_memory d)" and ?d = "d\<lparr>dma_ctrl := val, dma_status := busy_status (dma_status d)\<rparr>"
  have same: "same_descriptors S ?f (flat (parent_memory ?d))" by (simp add: same_descriptors_def)
  note runs = start_dma_runs [OF assms(2)]
  {
    assume "start_dma renode_interface val d \<noteq> None"
    then obtain e where "dma_loop (ops_of renode_interface) (dma_desc_addr d) ?d = Some e" by (auto simp: runs RunDma_loop)
    with renode_dma.fresh.dma_loop_ends [OF assms(4) _ this assms(3) _ _ same] assms(1,5)
    show "\<exists>as. chain ?f (dma_desc_addr d) as" by (simp add: closed_descriptors_def)
  next
    assume "\<exists>as. chain ?f (dma_desc_addr d) as"
    then obtain as where as: "chain ?f (dma_desc_addr d) as" by blast
    have "set as \<subseteq> S" using chain_closed [OF as assms(3)] assms(5) by (simp add: closed_descriptors_def)
    from renode_dma.fresh.dma_loop_chain [OF assms(4) as this _ _ same] assms(1)
    show "start_dma renode_interface val d \<noteq> None" by (auto simp: runs RunDma_loop)
  }
qed

subsection \<open>The controller seen from the bus\<close>

text \<open>The states that stores through the wrapper lead to; loads do not change it.\<close>

inductive dma_reachable :: "'m memory_interface \<Rightarrow> 'm \<Rightarrow> 'm dma \<Rightarrow> bool" for I m where
  initial: "dma_reachable I m (dma_init m)"
| store: "dma_reachable I m d \<Longrightarrow> if_Store (DmaMemoryWrapper I) a bs d = Some d' \<Longrightarrow> dma_reachable I m d'"
| vector_store: "dma_reachable I m d \<Longrightarrow> StoreMemory (DmaMemoryWrapper I) addresses msk el_size db d = Some d' \<Longrightarrow> dma_reachable I m d'"

definition dma_idle :: "'m dma \<Rightarrow> bool" where
  "dma_idle d \<longleftrightarrow> (dma_status d = 0 \<and> dma_cur_desc d = 0 \<or> dma_status d = kDmaStatusDone) \<and> dma_xfer_remain d = 0"

lemma dma_step_registers:
  assumes "dma_step mem a d = Some (b, e)"
  shows "dma_status e = dma_status d" "dma_xfer_remain e = dma_xfer_remain d" "dma_desc_addr e = dma_desc_addr d"
  using assms by (auto simp: dma_step_def dma_transfer_def bind_eq_Some_conv split: if_splits)

lemma dma_loop_registers:
  assumes "dma_loop mem a d = Some d'"
  shows "dma_status d' = dma_status d \<and> dma_xfer_remain d' = dma_xfer_remain d"
proof -
  have "dma_keeps mem (\<lambda>a e. dma_status e = dma_status d \<and> dma_xfer_remain e = dma_xfer_remain d)"
    unfolding dma_keeps_def by (auto simp: dma_step_registers)
  from dma_loop_invariant [OF assms this] show ?thesis by simp
qed

lemma RunDma_idle: "RunDma mem d = Some d' \<Longrightarrow> dma_idle d \<Longrightarrow> dma_idle d'"
  by (auto simp: RunDma_loop dma_idle_def busy_status_def dma_constants dest!: dma_loop_registers)

lemma Dma_Store_idle: "Dma_Store I a bs d = Some d' \<Longrightarrow> dma_idle d \<Longrightarrow> dma_idle d'"
  by (auto simp: Dma_Store_def HandleDmaWrite_def Let_def dma_idle_def split: if_splits dest!: RunDma_idle)

text \<open>Property C29. No program can observe a transfer in progress. In every state that stores through the wrapper
  lead to, the status register reads zero (before the first run, with the current descriptor still zero) or done,
  never busy, and the register of remaining bytes reads zero.\<close>

theorem dma_never_busy:
  assumes "dma_reachable I m d"
  shows "dma_idle d \<and> if_Load (DmaMemoryWrapper I) (ucast (kDmaBase + kDmaXferRemainOffset)) (replicate 4 x) False 0 d = Some (to_bytes (0 :: u32), NoInstruction)
    \<and> (\<exists>st. if_Load (DmaMemoryWrapper I) (ucast (kDmaBase + kDmaStatusOffset)) (replicate 4 x) False 0 d = Some (to_bytes st, NoInstruction)
         \<and> st AND kDmaStatusBusy = 0)"
proof -
  have i: "dma_idle d" using assms
  proof induction
    case (vector_store d addresses msk el_size db d')
    then show ?case by (auto simp: DmaMemoryWrapper_def dma_idle_def)
  qed (auto simp: dma_init_def dma_idle_def DmaMemoryWrapper_def dest: Dma_Store_idle)
  then show ?thesis
    by (auto simp: DmaMemoryWrapper_def Dma_Load_def IsDmaAddress_def HandleDmaRead_def dma_idle_def dma_constants)
qed

text \<open>The region that the constructor registers as full-range leaves the last byte out: an access is
  permitted exactly when it ends below the address \<open>0xFFFFFFFF\<close>.\<close>

theorem full_range_region:
  assumes "memory_regions s = []" "p AND kReadWriteExecute = p"
  shows "HasPermission a sz p (MpactSimulator_regions s) \<longleftrightarrow> unat a + unat sz \<le> 0xFFFFFFFF"
proof -
  have "unat (ucast a + ucast sz :: u64) = unat a + unat sz"
    using unsigned_less [of a, where 'a = nat] unsigned_less [of sz, where 'a = nat] by (simp add: unat_word_ariths)
  then show ?thesis using assms
    by (simp add: HasPermission_def MpactSimulator_regions_def AddMemoryRegion_def word_le_nat_alt and.commute)
qed

subsection \<open>The mailbox\<close>

text \<open>What is written to the mailbox is what the core finds at its address and what reading the mailbox returns.\<close>

lemma WriteMailbox_ReadMailbox:
  assumes "top_memory T = renode_ops" "renode_ok (rv_top s)" "mem_range (rv_top s) (unat kAddrMailbox) 16" "length (message mb) = 4"
  shows "\<exists>s'. WriteMailbox T mb s = Some s' \<and> mailbox s' = mb \<and> ReadMailbox T s' = Some (mb, s')"
proof -
  have l: "length (unlanes (message mb)) = 16" using assms(4) by (simp add: length_unlanes sizeof_def)
  have m: "\<lparr>message = map ((!) (message mb)) [0..<4]\<rparr> = mb" using assms(4) map_nth [of "message mb"] by simp
  have r: "mem_range (rv_top s) (unat (ucast kAddrMailbox :: u64)) (length (unlanes (message mb)))" using assms(3) l by simp
  with renode_flat.store_flat [OF assms(2) r] l obtain t where t: "Store renode_ops (ucast kAddrMailbox) (unlanes (message mb)) (rv_top s) = Some t"
    "renode_ok t" "mem_range t = mem_range (rv_top s)" "flat t = write_range (unat kAddrMailbox) (unlanes (message mb)) (flat (rv_top s))"
    by fastforce
  then have "Load renode_ops (ucast kAddrMailbox) 16 t = Some (unlanes (message mb))"
    using renode_flat.load_flat [of t "ucast kAddrMailbox" 16] assms(3) read_write_range [of "unat kAddrMailbox" "unlanes (message mb)"] l by simp
  then show ?thesis using t(1) assms(1) m by (simp add: WriteMailbox_def WriteMem_def ReadMailbox_def)
qed

subsection \<open>Instances\<close>

text \<open>The sample memory with the words \<open>ws\<close> at address \<open>0x100\<close>.\<close>

definition words_memory :: "u32 list \<Rightarrow> renode_memory" where
  "words_memory ws = sample_memory\<lparr>block_map :=
     (replicate 0x100 0 @ unlanes ws @ replicate (0xFFF00 - 4 * length ws) 0) # replicate 3 (replicate 0x100000 0)\<rparr>"

lemma sample_memory_fields:
  "addressable_unit_shift sample_memory = 0" "addressable_unit_size sample_memory = 1" "allocation_byte_size sample_memory = 0x100000"
  "memory_block_size_bytes sample_memory = 0x100000" "base_address sample_memory = 0" "max_address sample_memory = 0x400000"
  by (simp_all add: sample_memory_def CoralNPURenodeMemory_def kCoralnpuMaxMemoryAddress_def sample_blocks_def c_wrap_def sizeof_def)

lemma words_memory_ok: "length ws \<le> 0x100 \<Longrightarrow> renode_ok (words_memory ws)"
  by (simp add: renode_ok_def words_memory_def sample_memory_fields block_size_def sizeof_def)

lemma words_memory_range: "mem_range (words_memory ws) a n \<longleftrightarrow> a + n \<le> 0x400000"
  by (simp add: mem_range_def words_memory_def sample_memory_fields)

lemma words_memory_word:
  assumes "k < length ws" "length ws \<le> 0x100"
  shows "word_at (flat (words_memory ws)) (0x100 + 4 * k) = ws ! k"
proof -
  have f: "flat (words_memory ws) (0x100 + x) = unlanes ws ! x" if "x < 4 * length ws" for x
    using that assms(2) by (simp add: flat_def words_memory_def sample_memory_fields block_size_def nth_append sizeof_def)
  have "map (flat (words_memory ws)) [0x100 + 4 * k..<0x100 + 4 * k + 4] = take 4 (drop (k * 4) (unlanes ws))"
    using assms f [of "4 * k + _"] by (intro nth_equalityI) (simp_all add: sizeof_def ac_simps)
  then show ?thesis using unlanes_slice [OF assms(1)] by (simp add: word_at_def sizeof_def)
qed

definition sample_dma :: "u32 list \<Rightarrow> renode_memory dma" where
  "sample_dma ws = (dma_init (words_memory ws))\<lparr>dma_desc_addr := 0x100\<rparr>"

text \<open>Two descriptors: the first one copies itself to \<open>0x200\<close>, the second one four bytes of the copy to \<open>0x210\<close>.\<close>

definition sample_chain :: "u32 list" where
  "sample_chain = [0x100, 0x200, 0xFF000010, 0x120, 0, 0, 0, 0, 0x200, 0x210, 4, 0, 0, 0, 0, 0]"

lemma RunDma_copies_witness:
  "\<exists>m'. start_dma renode_interface 3 (sample_dma sample_chain) = Some ((sample_dma sample_chain)\<lparr>dma_ctrl := 3, parent_memory := m',
       dma_cur_desc := 0x120, dma_status := kDmaStatusDone\<rparr>)
    \<and> flat m' = run_chain (flat (words_memory sample_chain)) [0x100, 0x120] (flat (words_memory sample_chain))"
proof -
  note w = words_memory_word [of _ sample_chain]
  let ?f = "flat (words_memory sample_chain)"
  have d: "desc_src ?f 0x100 = 0x100" "desc_dst ?f 0x100 = 0x200" "desc_len ?f 0x100 = 16" "desc_next ?f 0x100 = 0x120"
    "desc_src ?f 0x120 = 0x200" "desc_dst ?f 0x120 = 0x210" "desc_len ?f 0x120 = 4" "desc_next ?f 0x120 = 0"
    using w [of 0] w [of 1] w [of 2] w [of 3] w [of 8] w [of 9] w [of 10] w [of 11] by (simp_all add: desc_defs sample_chain_def)
  have ok: "renode_ok (parent_memory (sample_dma sample_chain))"
    using words_memory_ok [of sample_chain] by (simp add: sample_dma_def dma_init_def sample_chain_def)
  have s: "starts 3" by (simp add: dma_constants)
  have c: "chain_ok (mem_range (words_memory sample_chain)) ?f (set [0x100, 0x120])"
    by (simp add: chain_ok_def desc_ok_def writes_apart_def words_memory_range d)
  from RunDma_copies [OF ok s, of "[0x100, 0x120]"] c show ?thesis
    by (auto simp: sample_dma_def dma_init_def d done_status_def busy_status_def dma_constants)
qed

text \<open>A descriptor that is its own successor.\<close>

lemma self_loop: "desc_next f a = a \<Longrightarrow> a \<noteq> 0 \<Longrightarrow> \<not> chain f a as"
  by (induction as) auto

lemma RunDma_returns_witness:
  "start_dma renode_interface 3 (sample_dma [0x100, 0x200, 4, 0x100]) = None"
proof -
  let ?ws = "[0x100, 0x200, 4, 0x100] :: u32 list"
  let ?f = "flat (words_memory ?ws)"
  note w = words_memory_word [of _ ?ws]
  have d: "desc_src ?f 0x100 = 0x100" "desc_dst ?f 0x100 = 0x200" "desc_len ?f 0x100 = 4" "desc_next ?f 0x100 = 0x100"
    using w [of 0] w [of 1] w [of 2] w [of 3] by (simp_all add: desc_defs)
  have ok: "renode_ok (parent_memory (sample_dma ?ws))" using words_memory_ok [of ?ws] by (simp add: sample_dma_def dma_init_def)
  have s: "starts 3" by (simp add: dma_constants)
  have c: "chain_ok (mem_range (words_memory ?ws)) ?f {0x100}" "closed_descriptors ?f {0x100}"
    by (simp_all add: chain_ok_def desc_ok_def writes_apart_def words_memory_range closed_descriptors_def d)
  have "\<not> (\<exists>as. chain ?f 0x100 as)" using self_loop [OF d(4)] by simp
  with RunDma_returns [OF ok s, of "{0x100}"] c show ?thesis by (simp add: sample_dma_def dma_init_def)
qed

lemma dma_never_busy_witness:
  "dma_idle ((dma_init sample_memory)\<lparr>dma_desc_addr := 0x100\<rparr>)"
proof -
  have "if_Store (DmaMemoryWrapper renode_interface) 0x40050008 (to_bytes (0x100 :: u32)) (dma_init sample_memory)
      = Some ((dma_init sample_memory)\<lparr>dma_desc_addr := 0x100\<rparr>)"
    by (simp add: DmaMemoryWrapper_def Dma_Store_def IsDmaAddress_def HandleDmaWrite_def dma_constants sizeof_def)
  from dma_reachable.store [OF dma_reachable.initial this]
  show ?thesis using dma_never_busy [of renode_interface sample_memory] by blast
qed

lemma full_range_region_witness:
  "\<not> HasPermission 0xFFFFFFFC 4 kRead (MpactSimulator_regions \<lparr>memory_regions = [], v2_misa = 0, v2_traps = [], vstart = 0, vl = 4,
     vector_length_multiplier = 8, selected_element_width = 4, vector_register_byte_length = 16\<rparr>)"
  by (subst full_range_region) (simp_all add: kReadWriteExecute_def kRead_def kWrite_def kExecute_def)

end
