(* ===== verification/NPU_Encoding.thy ===== *)
theory NPU_Encoding
  imports NPU_State
begin

text \<open>
  The operands of a decoded instruction of the first core, \<open>sim/coralnpu_encoding.{h,cc}\<close>. The decoders that give
  the opcode are generated by MPACT (a parameter); the fields they and the operand getters extract are those
  of \<open>sim/coralnpu_format.bin_fmt\<close>. An operand is described by what it is constructed from.
\<close>

unbundle bit_operations_syntax

subsection \<open>Fields\<close>

text \<open>\<open>n\<close> bits of the instruction word from bit \<open>lo\<close>, and concatenations of such fields as signed numbers.\<close>

definition bits :: "nat \<Rightarrow> nat \<Rightarrow> u32 \<Rightarrow> u32" where
  "bits lo n w = take_bit n (drop_bit lo w)"

definition ExtractRd :: "u32 \<Rightarrow> u32" where "ExtractRd = bits 7 5"
definition ExtractRs1 :: "u32 \<Rightarrow> u32" where "ExtractRs1 = bits 15 5"
definition ExtractRs2 :: "u32 \<Rightarrow> u32" where "ExtractRs2 = bits 20 5"
definition ExtractRUimm5 :: "u32 \<Rightarrow> u32" where "ExtractRUimm5 = ExtractRs2"
definition ExtractIUimm5 :: "u32 \<Rightarrow> u32" where "ExtractIUimm5 = ExtractRs1"
definition ExtractUImm12 :: "u32 \<Rightarrow> u32" where "ExtractUImm12 = bits 20 12"

definition ExtractImm12 :: "u32 \<Rightarrow> int" where
  "ExtractImm12 w = c_wrap True 12 (uint (bits 20 12 w))"

definition ExtractSImm :: "u32 \<Rightarrow> int" where
  "ExtractSImm w = c_wrap True 12 (uint (bits 25 7 w) * 2 ^ 5 + uint (bits 7 5 w))"

definition ExtractBImm :: "u32 \<Rightarrow> int" where
  "ExtractBImm w = c_wrap True 13 (uint (bits 31 1 w) * 2 ^ 12 + uint (bits 7 1 w) * 2 ^ 11 + uint (bits 25 6 w) * 2 ^ 5
     + uint (bits 8 4 w) * 2)"

definition ExtractUImm :: "u32 \<Rightarrow> u32" where
  "ExtractUImm w = push_bit 12 (bits 12 20 w)"

definition ExtractJImm :: "u32 \<Rightarrow> int" where
  "ExtractJImm w = c_wrap True 21 (uint (bits 31 1 w) * 2 ^ 20 + uint (bits 12 8 w) * 2 ^ 12 + uint (bits 20 1 w) * 2 ^ 11
     + uint (bits 21 10 w) * 2)"

text \<open>The format of the vector instructions.\<close>

definition ExtractFunc2 :: "u32 \<Rightarrow> u32" where "ExtractFunc2 = bits 26 6"
definition ExtractVs2 :: "u32 \<Rightarrow> u32" where "ExtractVs2 = bits 20 6"
definition ExtractVs1 :: "u32 \<Rightarrow> u32" where "ExtractVs1 = bits 14 6"
definition ExtractSz :: "u32 \<Rightarrow> u32" where "ExtractSz = bits 12 2"
definition ExtractVd :: "u32 \<Rightarrow> u32" where "ExtractVd = bits 6 6"
definition ExtractM :: "u32 \<Rightarrow> bool" where "ExtractM w \<longleftrightarrow> bits 5 1 w \<noteq> 0"
definition ExtractFunc1 :: "u32 \<Rightarrow> u32" where "ExtractFunc1 = bits 2 3"
definition ExtractForm :: "u32 \<Rightarrow> u32" where "ExtractForm = bits 0 2"
definition ExtractVs3 :: "u32 \<Rightarrow> u32" where "ExtractVs3 = bits 26 6"

lemmas extract_defs = ExtractRd_def ExtractRs1_def ExtractRs2_def ExtractRUimm5_def ExtractIUimm5_def ExtractUImm12_def
  ExtractImm12_def ExtractSImm_def ExtractBImm_def ExtractUImm_def ExtractJImm_def

lemmas vector_fields = ExtractFunc2_def ExtractVs2_def ExtractVs1_def ExtractSz_def ExtractVd_def ExtractM_def
  ExtractFunc1_def ExtractForm_def ExtractVs3_def

subsection \<open>Operands\<close>

text \<open>
  The operands of MPACT with the arguments of their constructors: an immediate value and the text shown for it, the literal zero,
  a register and the name shown for it, a group of vector registers and its name. \<open>NoSource\<close> and \<open>NoDest\<close>
  are the null pointer.
\<close>

datatype source_op =
    ImmediateOperand int "string option" | IntLiteralOperand int "string option" | XSource string string | FSource string string
  | VectorSource "string list" string | MpactVectorSource nat | VectorMaskSource nat | VectorTrueOperand | NoSource

datatype dest_op =
    XDest string int "string option" | FDest string int string | CsrSetBitsDest string int | VectorDest "string list" int string
  | MpactVectorDest nat int | NoDest

datatype OpcodeEnum = kNoOpcode | kAconvVxv | kAdwconvVxv | kVdwconvVxv | kAdwinit | kVcget | kAcset | kActr | OtherOpcode nat

datatype SourceOpEnum = kBImm12 | kCSRUimm5 | kCsrSource | kIImm12 | kIUimm5 | kRUimm5 | kJImm12 | kJImm20 | kRs1 | kRs2 | kSImm12 | kUImm20
  | kVs1 | kVs2 | kVdSource | kVs3 | kNoSource | OtherSource nat

datatype DestOpEnum = kCsrDest | kNextPc | kRd | kVdDest | kVs1Dest | kNoDest | OtherDest nat

record encoding =
  inst_word :: u32
  opcode :: OpcodeEnum

text \<open>\<open>kXRegisterAliases\<close> and the names of the CSRs belong to MPACT.\<close>

record names =
  x_alias :: "nat \<Rightarrow> string"
  f_alias :: "nat \<Rightarrow> string"
  GetCsrName :: "u32 \<Rightarrow> string option"

definition kXregPrefix :: "nat \<Rightarrow> string" where "kXregPrefix n = CHR ''x'' # digits 10 n"
definition kVregPrefix :: "nat \<Rightarrow> string" where "kVregPrefix n = CHR ''v'' # digits 10 n"

definition GetVRegGroup :: "nat \<Rightarrow> bool \<Rightarrow> nat \<Rightarrow> string list" where
  "GetVRegGroup reg_num strip_mine widen_factor =
     map (\<lambda>i. kVregPrefix (reg_num + i)) [0..<(if strip_mine then 4 else 1) * widen_factor]"

definition GetVectorRegisterSourceOp :: "u32 \<Rightarrow> bool \<Rightarrow> nat \<Rightarrow> source_op" where
  "GetVectorRegisterSourceOp reg_num strip_mine widen_factor =
     VectorSource (GetVRegGroup (unat reg_num) strip_mine widen_factor) (kVregPrefix (unat reg_num))"

definition GetVectorRegisterDestinationOp :: "u32 \<Rightarrow> bool \<Rightarrow> bool \<Rightarrow> int \<Rightarrow> dest_op" where
  "GetVectorRegisterDestinationOp reg_num strip_mine widening latency =
     VectorDest (GetVRegGroup (unat reg_num) strip_mine (if widening then 2 else 1)) latency (kVregPrefix (unat reg_num))"

text \<open>A scalar register: the literal zero for number 0.\<close>

definition zero_literal :: "names \<Rightarrow> source_op" where
  "zero_literal N = IntLiteralOperand 0 (Some (x_alias N 0))"

definition x_source :: "names \<Rightarrow> u32 \<Rightarrow> source_op" where
  "x_source N num = XSource (kXregPrefix (unat num)) (x_alias N (unat num))"

definition x_dest :: "names \<Rightarrow> u32 \<Rightarrow> int \<Rightarrow> dest_op" where
  "x_dest N num latency = XDest (kXregPrefix (unat num)) latency (Some (x_alias N (unat num)))"

definition x0_dest :: "names \<Rightarrow> dest_op" where
  "x0_dest N = XDest ''X0Dest'' 0 (Some (x_alias N 0))"

subsection \<open>Group sizes\<close>

definition ignore_unsigned :: "u32 \<Rightarrow> u32" where
  "ignore_unsigned func2 = func2 AND NOT 1"

definition IsWidenDestinationRegisterOp :: "encoding \<Rightarrow> bool" where
  "IsWidenDestinationRegisterOp e =
     (let func1 = ExtractFunc1 (inst_word e); func2 = ExtractFunc2 (inst_word e);
          func2_ignore_unsigned = ignore_unsigned func2
      in if func1 = 0b100 \<and> (func2_ignore_unsigned = 0b100 \<or> func2_ignore_unsigned = 0b110) then True
         else if func1 = 0b100 \<and> func2_ignore_unsigned = 0b1010 then True
         else if func1 = 0b001 \<and> func2 = 0b1101 then True
         else if func1 = 0b011 \<and> func2_ignore_unsigned = 0b0100 then True
         else if func1 = 0b110 \<and> (func2 = 0b011100 \<or> func2 = 0b011010) then True
         else opcode e = kVcget)"

definition GetSrc1WidenFactor :: "encoding \<Rightarrow> nat" where
  "GetSrc1WidenFactor e =
     (let func1 = ExtractFunc1 (inst_word e); func2 = ExtractFunc2 (inst_word e); sz = ExtractSz (inst_word e);
          func2_ignore_unsigned = ignore_unsigned func2
      in if func1 = 0b100 \<and> func2_ignore_unsigned = 0b1010 then 2
         else if func1 = 0b010 \<and> (sz = 0 \<or> sz = 1) \<and> (func2_ignore_unsigned = 0b010000 \<or> func2_ignore_unsigned = 0b010010) then 2
         else if func1 = 0b010 \<and> sz = 0 \<and> (func2_ignore_unsigned = 0b011000 \<or> func2_ignore_unsigned = 0b011010) then 4
         else if opcode e = kAconvVxv \<or> opcode e = kAcset \<or> opcode e = kActr then 8
         else 1)"

subsection \<open>Source operands\<close>

definition rs_source :: "names \<Rightarrow> u32 \<Rightarrow> source_op" where
  "rs_source N num = (if num = 0 then zero_literal N else x_source N num)"

definition csr_source :: "names \<Rightarrow> u32 \<Rightarrow> source_op" where
  "csr_source N csr_indx = ImmediateOperand (uint csr_indx) (GetCsrName N csr_indx)"

definition vs1_source :: "names \<Rightarrow> encoding \<Rightarrow> source_op" where
  "vs1_source N e =
     (let reg_num = ExtractVs1 (inst_word e); strip_mine = ExtractM (inst_word e); form = ExtractForm (inst_word e)
      in if form = 3 then
           (if reg_num = 0 then zero_literal N else x_source N (drop_bit 1 reg_num))
         else if opcode e = kAdwconvVxv \<or> opcode e = kVdwconvVxv then GetVectorRegisterSourceOp reg_num False 9
         else GetVectorRegisterSourceOp reg_num (opcode e = kAdwinit \<or> strip_mine) (GetSrc1WidenFactor e))"

definition vs2_source :: "names \<Rightarrow> encoding \<Rightarrow> source_op" where
  "vs2_source N e =
     (let reg_num = ExtractVs2 (inst_word e); strip_mine = ExtractM (inst_word e); form = ExtractForm (inst_word e)
      in if form = 2 \<or> form = 3 \<or> opcode e = kAconvVxv then
           (if reg_num = 0 then zero_literal N else x_source N (reg_num AND 0x1F))
         else GetVectorRegisterSourceOp reg_num strip_mine 1)"

definition vs3_source :: "encoding \<Rightarrow> source_op" where
  "vs3_source e =
     GetVectorRegisterSourceOp (ExtractVs3 (inst_word e)) False (if opcode e = kAconvVxv then 8 else 4)"

fun GetSource :: "names \<Rightarrow> encoding \<Rightarrow> SourceOpEnum \<Rightarrow> source_op" where
  "GetSource N e kBImm12 = ImmediateOperand (ExtractBImm (inst_word e)) None"
| "GetSource N e kCSRUimm5 = ImmediateOperand (uint (ExtractIUimm5 (inst_word e))) None"
| "GetSource N e kCsrSource = csr_source N (ExtractUImm12 (inst_word e))"
| "GetSource N e kIImm12 = ImmediateOperand (ExtractImm12 (inst_word e)) None"
| "GetSource N e kIUimm5 = ImmediateOperand (uint (ExtractRUimm5 (inst_word e))) None"
| "GetSource N e kRUimm5 = ImmediateOperand (uint (ExtractRUimm5 (inst_word e))) None"
| "GetSource N e kJImm12 = ImmediateOperand (ExtractImm12 (inst_word e)) None"
| "GetSource N e kJImm20 = ImmediateOperand (ExtractJImm (inst_word e)) None"
| "GetSource N e kRs1 = rs_source N (ExtractRs1 (inst_word e))"
| "GetSource N e kRs2 = rs_source N (ExtractRs2 (inst_word e))"
| "GetSource N e kSImm12 = ImmediateOperand (ExtractSImm (inst_word e)) None"
| "GetSource N e kUImm20 = ImmediateOperand (sint (ExtractUImm (inst_word e))) None"
| "GetSource N e kVs1 = vs1_source N e"
| "GetSource N e kVs2 = vs2_source N e"
| "GetSource N e kVdSource = GetVectorRegisterSourceOp (ExtractVd (inst_word e)) (ExtractM (inst_word e)) 1"
| "GetSource N e kVs3 = vs3_source e"
| "GetSource N e kNoSource = NoSource"
| "GetSource N e (OtherSource i) = NoSource"

subsection \<open>Destination operands\<close>

definition vd_dest :: "encoding \<Rightarrow> int \<Rightarrow> dest_op" where
  "vd_dest e latency =
     (let strip_mine = (opcode e = kVcget \<or> opcode e = kAdwinit \<or> opcode e = kVdwconvVxv \<or> ExtractM (inst_word e))
      in GetVectorRegisterDestinationOp (ExtractVd (inst_word e)) strip_mine (IsWidenDestinationRegisterOp e) latency)"

definition vs1_dest :: "names \<Rightarrow> encoding \<Rightarrow> int \<Rightarrow> dest_op" where
  "vs1_dest N e latency =
     (let reg_num = ExtractVs1 (inst_word e)
      in if reg_num = 0 then x0_dest N else x_dest N (drop_bit 1 reg_num) latency)"

definition rd_dest :: "names \<Rightarrow> u32 \<Rightarrow> int \<Rightarrow> dest_op" where
  "rd_dest N num latency = (if num = 0 then x0_dest N else x_dest N num latency)"

fun GetDestination :: "names \<Rightarrow> encoding \<Rightarrow> DestOpEnum \<Rightarrow> int \<Rightarrow> dest_op" where
  "GetDestination N e kCsrDest latency = XDest ''csr'' latency None"
| "GetDestination N e kNextPc latency = XDest ''pc'' latency None"
| "GetDestination N e kRd latency = rd_dest N (ExtractRd (inst_word e)) latency"
| "GetDestination N e kVdDest latency = vd_dest e latency"
| "GetDestination N e kVs1Dest latency = vs1_dest N e latency"
| "GetDestination N e kNoDest latency = NoDest"
| "GetDestination N e (OtherDest i) latency = NoDest"

subsection \<open>Parsing\<close>

text \<open>The first decode function that recognises the word gives the opcode; the last one's answer stands when none does.\<close>

fun first_opcode :: "(u32 \<Rightarrow> OpcodeEnum) list \<Rightarrow> u32 \<Rightarrow> OpcodeEnum \<Rightarrow> OpcodeEnum" where
  "first_opcode [] w op = op"
| "first_opcode (f # fs) w op = (let op = f w in if op \<noteq> kNoOpcode then op else first_opcode fs w op)"

definition ParseInstruction :: "(u32 \<Rightarrow> OpcodeEnum) list \<Rightarrow> u32 \<Rightarrow> encoding \<Rightarrow> encoding" where
  "ParseInstruction decode_functions word e =
     (let e = e\<lparr>inst_word := word\<rparr> in e\<lparr>opcode := first_opcode decode_functions word (opcode e)\<rparr>)"

end
