(* ===== verification/NPU_EncodingV2.thy ===== *)
theory NPU_EncodingV2
  imports NPU_Encoding NPU_V2State
begin

text \<open>
  The operands of the second core (\<open>sim/coralnpu_v2_getters.h\<close>, \<open>sim/coralnpu_v2_encoding_template.h\<close>, with the
  fields of \<open>sim/coralnpu_v2.bin_fmt\<close>) and the register groups that the M3 core adds for its conversions
  (\<open>sim/coralnpu_m3_encoding.cc\<close>), and the guard in front of the decoders (\<open>sim/coralnpu_{v2,m3,m4}_user_decoder.cc\<close>). \<open>MpactVectorSource\<close>, \<open>MpactVectorDest\<close> and the mask operands are what MPACT's
  helpers build for a register number.
\<close>

unbundle bit_operations_syntax

subsection \<open>Fields\<close>

definition ExtractRs3 :: "u32 \<Rightarrow> u32" where "ExtractRs3 = bits 27 5"
definition ExtractFunc3 :: "u32 \<Rightarrow> u32" where "ExtractFunc3 = bits 12 3"
definition ExtractPred :: "u32 \<Rightarrow> u32" where "ExtractPred = bits 24 4"
definition ExtractSucc :: "u32 \<Rightarrow> u32" where "ExtractSucc = bits 20 4"
definition ExtractNf :: "u32 \<Rightarrow> u32" where "ExtractNf = bits 29 3"
definition VArith_Vs1 :: "u32 \<Rightarrow> u32" where "VArith_Vs1 = bits 15 5"
definition VArith_Vs2 :: "u32 \<Rightarrow> u32" where "VArith_Vs2 = bits 20 5"
definition VArith_Vd :: "u32 \<Rightarrow> u32" where "VArith_Vd = bits 7 5"
definition VMem_Vs3 :: "u32 \<Rightarrow> u32" where "VMem_Vs3 = VArith_Vd"
definition ExtractVm :: "u32 \<Rightarrow> bool" where "ExtractVm w \<longleftrightarrow> bits 25 1 w \<noteq> 0"
definition ExtractSimm5 :: "u32 \<Rightarrow> int" where "ExtractSimm5 w = c_wrap True 5 (uint (VArith_Vs1 w))"
definition ExtractUimm5 :: "u32 \<Rightarrow> u32" where "ExtractUimm5 = VArith_Vs1"
definition ExtractZimm10 :: "u32 \<Rightarrow> int" where "ExtractZimm10 w = c_wrap True 10 (uint (bits 20 10 w))"
definition ExtractZimm11 :: "u32 \<Rightarrow> int" where "ExtractZimm11 w = c_wrap True 11 (uint (bits 20 11 w))"

subsection \<open>The second core\<close>

datatype V2SourceOp =
    v2_BImm12 | v2_CSRUimm5 | v2_Const1 | v2_Const2 | v2_Const4 | v2_Csr | v2_Frs1 | v2_Frs2 | v2_Frs3 | v2_IImm12 | v2_IUimm5 | v2_JImm12
  | v2_JImm20 | v2_Nf | v2_Pred | v2_RUimm5 | v2_Rm | v2_Rs1 | v2_Rs2 | v2_SImm12 | v2_Simm5 | v2_Succ | v2_UImm20 | v2_Uimm5
  | v2_Vd | v2_Vm | v2_Vmask | v2_VmaskTrue | v2_Vs1 | v2_Vs2 | v2_Vs3 | v2_Zimm10 | v2_Zimm11 | v2_NoSource | v2_OtherSource nat

datatype V2DestOp = v2_CsrDest | v2_Fflags | v2_Frd | v2_NextPc | v2_Rd | v2_VdDest | v2_NoDest | v2_OtherDest nat

definition kFregPrefix :: "nat \<Rightarrow> string" where "kFregPrefix n = CHR ''f'' # digits 10 n"

definition f_source :: "names \<Rightarrow> u32 \<Rightarrow> source_op" where
  "f_source N num = FSource (kFregPrefix (unat num)) (f_alias N (unat num))"

definition v2_rs_source :: "names \<Rightarrow> u32 \<Rightarrow> source_op" where
  "v2_rs_source N num = (if num = 0 then IntLiteralOperand 0 None else x_source N num)"

fun v2_GetSource :: "names \<Rightarrow> u32 \<Rightarrow> V2SourceOp \<Rightarrow> source_op" where
  "v2_GetSource N w v2_BImm12 = ImmediateOperand (ExtractBImm w) None"
| "v2_GetSource N w v2_CSRUimm5 = ImmediateOperand (uint (ExtractIUimm5 w)) None"
| "v2_GetSource N w v2_Const1 = ImmediateOperand 1 None"
| "v2_GetSource N w v2_Const2 = ImmediateOperand 2 None"
| "v2_GetSource N w v2_Const4 = ImmediateOperand 4 None"
| "v2_GetSource N w v2_Csr = csr_source N (ExtractUImm12 w)"
| "v2_GetSource N w v2_Frs1 = f_source N (ExtractRs1 w)"
| "v2_GetSource N w v2_Frs2 = f_source N (ExtractRs2 w)"
| "v2_GetSource N w v2_Frs3 = f_source N (ExtractRs3 w)"
| "v2_GetSource N w v2_IImm12 = ImmediateOperand (ExtractImm12 w) None"
| "v2_GetSource N w v2_IUimm5 = ImmediateOperand (uint (ExtractIUimm5 w)) None"
| "v2_GetSource N w v2_JImm12 = ImmediateOperand (ExtractImm12 w) None"
| "v2_GetSource N w v2_JImm20 = ImmediateOperand (ExtractJImm w) None"
| "v2_GetSource N w v2_Nf = ImmediateOperand (uint (ExtractNf w)) (Some (digits 10 (unat (ExtractNf w) + 1)))"
| "v2_GetSource N w v2_Pred = ImmediateOperand (uint (ExtractPred w)) None"
| "v2_GetSource N w v2_RUimm5 = ImmediateOperand (uint (ExtractRUimm5 w)) None"
| "v2_GetSource N w v2_Rm = IntLiteralOperand (uint (ExtractFunc3 w)) None"
| "v2_GetSource N w v2_Rs1 = v2_rs_source N (ExtractRs1 w)"
| "v2_GetSource N w v2_Rs2 = v2_rs_source N (ExtractRs2 w)"
| "v2_GetSource N w v2_SImm12 = ImmediateOperand (ExtractSImm w) None"
| "v2_GetSource N w v2_Simm5 = ImmediateOperand (ExtractSimm5 w) None"
| "v2_GetSource N w v2_Succ = ImmediateOperand (uint (ExtractSucc w)) None"
| "v2_GetSource N w v2_UImm20 = ImmediateOperand (sint (ExtractUImm w)) None"
| "v2_GetSource N w v2_Uimm5 = ImmediateOperand (uint (ExtractUimm5 w)) None"
| "v2_GetSource N w v2_Vd = MpactVectorSource (unat (VArith_Vd w))"
| "v2_GetSource N w v2_Vm = ImmediateOperand (if ExtractVm w then 1 else 0) (Some (if ExtractVm w then ''vm.t'' else ''vm.f''))"
| "v2_GetSource N w v2_Vmask = (if ExtractVm w then VectorTrueOperand else VectorMaskSource 0)"
| "v2_GetSource N w v2_VmaskTrue = VectorTrueOperand"
| "v2_GetSource N w v2_Vs1 = MpactVectorSource (unat (VArith_Vs1 w))"
| "v2_GetSource N w v2_Vs2 = MpactVectorSource (unat (VArith_Vs2 w))"
| "v2_GetSource N w v2_Vs3 = MpactVectorSource (unat (VMem_Vs3 w))"
| "v2_GetSource N w v2_Zimm10 = ImmediateOperand (ExtractZimm10 w) None"
| "v2_GetSource N w v2_Zimm11 = ImmediateOperand (ExtractZimm11 w) None"
| "v2_GetSource N w v2_NoSource = NoSource"
| "v2_GetSource N w (v2_OtherSource i) = NoSource"

definition v2_rd_dest :: "names \<Rightarrow> u32 \<Rightarrow> int \<Rightarrow> dest_op" where
  "v2_rd_dest N num latency = (if num = 0 then XDest ''X0Dest'' 0 None else x_dest N num latency)"

fun v2_GetDestination :: "names \<Rightarrow> u32 \<Rightarrow> V2DestOp \<Rightarrow> int \<Rightarrow> dest_op" where
  "v2_GetDestination N w v2_CsrDest latency = XDest ''csr'' latency None"
| "v2_GetDestination N w v2_Fflags latency = CsrSetBitsDest ''fflags'' latency"
| "v2_GetDestination N w v2_Frd latency = FDest (kFregPrefix (unat (ExtractRd w))) latency (f_alias N (unat (ExtractRd w)))"
| "v2_GetDestination N w v2_NextPc latency = XDest ''pc'' latency None"
| "v2_GetDestination N w v2_Rd latency = v2_rd_dest N (ExtractRd w) latency"
| "v2_GetDestination N w v2_VdDest latency = MpactVectorDest (unat (VArith_Vd w)) latency"
| "v2_GetDestination N w v2_NoDest latency = NoDest"
| "v2_GetDestination N w (v2_OtherDest i) latency = NoDest"

subsection \<open>The M3 core\<close>

datatype M3Opcode =
    kVfncvtbf16FFW | kVfncvtXuFW | kVfncvtXFW | kVfncvtFXuW | kVfncvtFXW | kVfncvtFFW | kVfncvtRodFFW | kVfncvtRtzXuFW | kVfncvtRtzXFW
  | kVfwcvtbf16FFV | kVfwcvtFFV | kVfwcvtXuFV | kVfwcvtXFV | kVfwcvtFXuV | kVfwcvtFXV | kVfwcvtRtzXuFV | kVfwcvtRtzXFV | M3OtherOpcode nat

definition vreg_names :: "string list" where
  "vreg_names = [''v0'', ''v1'', ''v2'', ''v3'', ''v4'', ''v5'', ''v6'', ''v7'', ''v8'', ''v9'', ''v10'', ''v11'', ''v12'', ''v13'', ''v14'', ''v15'',
     ''v16'', ''v17'', ''v18'', ''v19'', ''v20'', ''v21'', ''v22'', ''v23'', ''v24'', ''v25'', ''v26'', ''v27'', ''v28'', ''v29'', ''v30'', ''v31'']"

text \<open>\<open>vtype\<close> is \<open>None\<close> when there is no vector state.\<close>

definition reserved_vlmul :: "u32 option \<Rightarrow> bool" where
  "reserved_vlmul vtype = (case vtype of None \<Rightarrow> False | Some v \<Rightarrow> v AND 0x7 = 4)"

definition vlmul_of :: "u32 option \<Rightarrow> nat" where
  "vlmul_of vtype = (case vtype of None \<Rightarrow> 0 | Some v \<Rightarrow> unat (v AND 0x7))"

text \<open>The registers of an operand of twice the element width, and of one of the element width.\<close>

definition widened_regs_count :: "nat \<Rightarrow> nat" where
  "widened_regs_count vlmul =
     (let widen_factor = 2
      in if vlmul > 4 then (let denom = 2 ^ (8 - vlmul) in if widen_factor > denom then widen_factor div denom else 1)
         else 2 ^ vlmul * widen_factor)"

definition plain_regs_count :: "nat \<Rightarrow> nat" where
  "plain_regs_count vlmul = (if vlmul < 4 then 2 ^ vlmul else 1)"

text \<open>The registers of \<open>vregs_\<close> from \<open>reg_num\<close>; a misaligned group is the null pointer.\<close>

definition vreg_span :: "nat \<Rightarrow> nat \<Rightarrow> (string list \<times> string) option" where
  "vreg_span reg_num regs_count =
     (if reg_num mod regs_count \<noteq> 0 then None
      else Some (map (\<lambda>i. vreg_names ! (reg_num + i)) [0..<regs_count], vreg_names ! reg_num))"

definition m3_source :: "nat \<Rightarrow> nat \<Rightarrow> source_op" where
  "m3_source reg_num regs_count =
     (case vreg_span reg_num regs_count of None \<Rightarrow> NoSource | Some (regs, name) \<Rightarrow> VectorSource regs name)"

definition m3_dest :: "nat \<Rightarrow> nat \<Rightarrow> int \<Rightarrow> dest_op" where
  "m3_dest reg_num regs_count latency =
     (case vreg_span reg_num regs_count of None \<Rightarrow> NoDest | Some (regs, name) \<Rightarrow> VectorDest regs latency name)"

definition narrowing_opcodes :: "M3Opcode set" where
  "narrowing_opcodes = {kVfncvtbf16FFW, kVfncvtXuFW, kVfncvtXFW, kVfncvtFXuW, kVfncvtFXW, kVfncvtFFW, kVfncvtRodFFW, kVfncvtRtzXuFW, kVfncvtRtzXFW}"

definition widening_opcodes :: "M3Opcode set" where
  "widening_opcodes = {kVfwcvtbf16FFV, kVfwcvtFFV, kVfwcvtXuFV, kVfwcvtXFV, kVfwcvtFXuV, kVfwcvtFXV, kVfwcvtRtzXuFV, kVfwcvtRtzXFV}"

definition m3_GetSource :: "names \<Rightarrow> u32 option \<Rightarrow> u32 \<Rightarrow> M3Opcode \<Rightarrow> V2SourceOp \<Rightarrow> source_op" where
  "m3_GetSource N vtype w opc op =
     (if op = v2_Vs2 \<and> reserved_vlmul vtype then NoSource
      else if op = v2_Vs2 \<and> opc \<in> narrowing_opcodes then m3_source (unat (VArith_Vs2 w)) (widened_regs_count (vlmul_of vtype))
      else if opc = kVfwcvtbf16FFV \<and> op = v2_Vs2 then m3_source (unat (VArith_Vs2 w)) (plain_regs_count (vlmul_of vtype))
      else v2_GetSource N w op)"

definition m3_GetDestination :: "names \<Rightarrow> u32 option \<Rightarrow> u32 \<Rightarrow> M3Opcode \<Rightarrow> V2DestOp \<Rightarrow> int \<Rightarrow> dest_op" where
  "m3_GetDestination N vtype w opc op latency =
     (if op = v2_VdDest \<and> reserved_vlmul vtype then NoDest
      else if op = v2_VdDest \<and> opc \<in> widening_opcodes then m3_dest (unat (VArith_Vd w)) (widened_regs_count (vlmul_of vtype)) latency
      else if opc = kVfncvtbf16FFW \<and> op = v2_VdDest then m3_dest (unat (VArith_Vd w)) (plain_regs_count (vlmul_of vtype)) latency
      else v2_GetDestination N w op latency)"

subsection \<open>Instruction fetch\<close>

text \<open>
  The instruction that the user decoders return: the one MPACT's decoder gives, or one without opcode that raises an
  access fault, with its address and the value it traps with.
\<close>

datatype 'i decoded = FaultInstruction u64 u64 | DecodedInstruction 'i

definition kCoralNPUV2InstructionSize :: u32 where "kCoralNPUV2InstructionSize = 4"

definition v2_DecodeInstruction :: "(u64 \<Rightarrow> 'i) \<Rightarrow> u64 \<Rightarrow> CoralNPUV2State \<Rightarrow> 'i decoded" where
  "v2_DecodeInstruction decoder address s =
     (if \<not> HasPermission (ucast address) kCoralNPUV2InstructionSize kExecute s then FaultInstruction address 0
      else DecodedInstruction (decoder address))"

definition m3_DecodeInstruction :: "(u64 \<Rightarrow> 'i) \<Rightarrow> u64 \<Rightarrow> CoralNPUV2State \<Rightarrow> 'i decoded" where
  "m3_DecodeInstruction decoder address s =
     (if \<not> HasPermission (ucast address) 4 kExecute s then FaultInstruction address address
      else DecodedInstruction (decoder address))"

definition m4_DecodeInstruction :: "(u64 \<Rightarrow> 'i) \<Rightarrow> u64 \<Rightarrow> CoralNPUV2State \<Rightarrow> 'i decoded" where
  "m4_DecodeInstruction decoder address s =
     (if \<not> HasPermission (ucast address) 4 kExecute s then FaultInstruction address address
      else DecodedInstruction (decoder address))"

text \<open>The semantic function of the instruction.\<close>

fun run_decoded :: "('i \<Rightarrow> CoralNPUV2State \<Rightarrow> CoralNPUV2State) \<Rightarrow> 'i decoded \<Rightarrow> CoralNPUV2State \<Rightarrow> CoralNPUV2State" where
  "run_decoded execute (FaultInstruction address v) s = v2_Trap False v kInstructionAccessFault address s"
| "run_decoded execute (DecodedInstruction i) s = execute i s"

end
