(* ===== verification/NPU_EncodingClaims.thy ===== *)
theory NPU_EncodingClaims
  imports Complex_Main NPU_EncodingV2 NPU_VectorClaims NPU_V2Claims
begin

text \<open>The properties of the operand getters.\<close>

unbundle bit_operations_syntax
declare digits.simps [simp del]

lemma unat_bits: "n \<le> 32 \<Longrightarrow> unat (bits lo n w) < 2 ^ n"
  by (simp add: bits_def unsigned_take_bit_eq take_bit_nat_less_exp)

subsection \<open>Groups of the first core\<close>

text \<open>
  What the engine does with the operands of an instruction, by the fields that \<open>sim/coralnpu_arith.bin_fmt\<close>,
  \<open>sim/coralnpu_shift.bin_fmt\<close> and \<open>sim/coralnpu_mul.bin_fmt\<close> give its opcode.
\<close>

datatype vclass = Plain | Widening | Accumulating | Paired | Narrowing2 | Narrowing4



fun src1_regs :: "vclass \<Rightarrow> nat" where
  "src1_regs Accumulating = 2"
| "src1_regs Narrowing2 = 2"
| "src1_regs Narrowing4 = 4"
| "src1_regs c = 1"

text \<open>An argument getter reads no further than element \<open>bound\<close> of either operand.\<close>

definition agree_below :: "nat \<Rightarrow> nat \<Rightarrow> 'st \<Rightarrow> ('st, 'd::len, 'a::len, 'b::len) vinst \<Rightarrow> ('st, 'd, 'a, 'b) vinst \<Rightarrow> bool" where
  "agree_below bound1 bound2 s inst inst' \<longleftrightarrow> vector_register_width inst = 32 \<and> vector_register_width inst' = 32
     \<and> (\<forall>k < bound1. source1 inst s 0 k = source1 inst' s 0 k \<and> source2 inst s 0 k = source2 inst' s 0 k)
     \<and> (\<forall>k < bound2. source1 inst s 1 k = source1 inst' s 1 k \<and> source2 inst s 1 k = source2 inst' s 1 k)"

definition reads_within :: "nat \<Rightarrow> nat \<Rightarrow> nat \<Rightarrow> nat \<Rightarrow> ('st, 'd::len, 'a::len, 'b::len, 'x) getter \<Rightarrow> bool" where
  "reads_within n regs bound1 bound2 get \<longleftrightarrow> (\<forall>inst inst' s p e i. agree_below bound1 bound2 s inst inst'
     \<longrightarrow> p < n \<longrightarrow> e < 32 div sizeof TYPE('d) \<longrightarrow> i < regs \<longrightarrow> get inst s False n p e i = get inst' s False n p e i)"

lemma element_below: "p < n \<Longrightarrow> x < k \<Longrightarrow> p * k + x < n * (k :: nat)"
  using mult_le_mono1 [of "Suc p" n k] by simp

lemma reads_common:
  assumes "sizeof TYPE('d::len) = 2 * sizeof TYPE('s::len)" "sizeof TYPE('s) \<in> {1, 2}"
  shows "reads_within n 2 (n * (32 div sizeof TYPE('s))) (n * (32 div sizeof TYPE('s)))
      (CommonBinaryOpGetArg1 :: ('st, 'd, 's, 's, 's) getter)"
    and "reads_within n 2 (n * (32 div sizeof TYPE('s))) (n * (32 div sizeof TYPE('s)))
      (CommonBinaryOpGetArg2 :: ('st, 'd, 's, 's, 's) getter)"
  using assms element_below [where n = n]
  by (auto simp: reads_within_def agree_below_def CommonBinaryOpGetArg1_def CommonBinaryOpGetArg2_def Let_def)

lemma reads_accumulating:
  assumes "sizeof TYPE('d::len) = 2 * sizeof TYPE('s::len)" "sizeof TYPE('s) \<in> {1, 2}"
  shows "reads_within n 2 (n * src1_regs Accumulating * (32 div sizeof TYPE('d))) (n * (32 div sizeof TYPE('s)))
      (CommonBinaryOpGetArg1 :: ('st, 'd, 'd, 's, 'd) getter)"
    and "reads_within n 2 (n * src1_regs Accumulating * (32 div sizeof TYPE('d))) (n * (32 div sizeof TYPE('s)))
      (CommonBinaryOpGetArg2 :: ('st, 'd, 'd, 's, 's) getter)"
proof -
  have "p * 16 + e + n * 16 * i < 32 * n" if "p < n" "e < 16" "i < (2 :: nat)" for p e i
    using that element_below [of p n e 16] by (cases i) auto
  moreover have "p * 8 + e + n * 8 * i < 16 * n" if "p < n" "e < 8" "i < (2 :: nat)" for p e i
    using that element_below [of p n e 8] by (cases i) auto
  ultimately show "reads_within n 2 (n * src1_regs Accumulating * (32 div sizeof TYPE('d))) (n * (32 div sizeof TYPE('s)))
      (CommonBinaryOpGetArg1 :: ('st, 'd, 'd, 's, 'd) getter)"
    using assms by (auto simp: reads_within_def agree_below_def CommonBinaryOpGetArg1_def Let_def)
  show "reads_within n 2 (n * src1_regs Accumulating * (32 div sizeof TYPE('d))) (n * (32 div sizeof TYPE('s)))
      (CommonBinaryOpGetArg2 :: ('st, 'd, 'd, 's, 's) getter)"
    using assms element_below [where n = n] by (auto simp: reads_within_def agree_below_def CommonBinaryOpGetArg2_def Let_def)
qed

lemma reads_narrowing:
  assumes "sizeof TYPE('s::len) = factor * sizeof TYPE('d::len)" "(factor, sizeof TYPE('d)) \<in> {(2, 1), (2, 2), (4, 1)}"
  shows "reads_within n 1 (n * factor * (32 div sizeof TYPE('s))) 0 (VSransOpGetArg1 :: ('st, 'd, 's, 'd, 's) getter)"
proof -
  have half: "p * k + e div 2 + (if odd e then n * k else 0) < 2 * n * k" if "p < n" "e < 2 * k" for p e k :: nat
  proof -
    have "p * k + e div 2 < n * k" using element_below [of p n "e div 2" k] that by (simp add: less_mult_imp_div_less)
    then show ?thesis by (cases "odd e") (simp_all add: mult.commute [of k n])
  qed
  have quarter: "p * k + e div 4 + [0, 2, 1, 3] ! (e mod 4) * n * k < 4 * n * k" if "p < n" "e < 4 * k" for p e k :: nat
  proof -
    have "e mod 4 = 0 \<or> e mod 4 = 1 \<or> e mod 4 = 2 \<or> e mod 4 = 3" by presburger
    then have "[0, 2, 1, 3] ! (e mod 4) \<le> (3 :: nat)" by auto
    then have "[0, 2, 1, 3] ! (e mod 4) * (n * k) \<le> 3 * (n * k)" by (rule mult_le_mono1)
    moreover have "p * k + e div 4 < n * k" using element_below [of p n "e div 4" k] that by (simp add: less_mult_imp_div_less)
    ultimately show ?thesis by (simp only: mult.assoc)
  qed
  show ?thesis
    using assms half [of _ _ 16] half [of _ _ 8] quarter [of _ _ 8]
    by (auto simp: reads_within_def agree_below_def VSransOpGetArg1_def Let_def)
qed



subsection \<open>Register zero\<close>

lemma x_prefix: "n < 32 \<Longrightarrow> (kXregPrefix n = ''x0'') = (n = 0)"
proof -
  have "\<forall>n\<in>set [0..<32]. (kXregPrefix n = ''x0'') = (n = 0)" by code_simp
  then show "n < 32 \<Longrightarrow> ?thesis" by simp
qed

text \<open>Property C28. The decoder sends a result to register \<open>x0\<close> in one case only: the post-increment of a vector load or
  store whose scalar base is \<open>x0\<close> and whose unused bit 14 is set. In all other cases number zero stands for the
  register that is never read.\<close>

theorem x0_written:
  "(\<exists>l a. GetDestination N e op latency = XDest ''x0'' l a) \<longleftrightarrow> op = kVs1Dest \<and> ExtractVs1 (inst_word e) = 1"
proof -
  let ?v = "ExtractVs1 (inst_word e)"
  have v: "unat ?v < 64" using unat_bits [of 6 14] by (simp add: ExtractVs1_def)
  then have "unat (drop_bit 1 ?v) < 32" by (simp add: drop_bit_eq_div unat_div_distrib)
  then have "(kXregPrefix (unat (drop_bit 1 ?v)) = ''x0'') = (unat ?v div 2 = 0)"
    by (simp add: x_prefix drop_bit_eq_div unat_div_distrib)
  also have "\<dots> = (?v = 0 \<or> ?v = 1)" by (auto simp: div_eq_0_iff less_2_cases_iff word_unat_eq_iff)
  finally have s: "(kXregPrefix (unat (drop_bit 1 ?v)) = ''x0'') = (?v = 0 \<or> ?v = 1)" .
  let ?r = "ExtractRd (inst_word e)"
  have "unat ?r < 32" using unat_bits [of 5 7] by (simp add: ExtractRd_def)
  then have "(kXregPrefix (unat ?r) = ''x0'') = (?r = 0)" by (simp add: x_prefix unat_eq_zero)
  with s show ?thesis
    by (cases op) (auto simp: vs1_dest_def rd_dest_def x0_dest_def x_dest_def vd_dest_def GetVectorRegisterDestinationOp_def Let_def)
qed

subsection \<open>Groups of the M3 core\<close>

lemma vector_names: "n < 32 \<Longrightarrow> vreg_names ! n = kVregPrefix n"
proof -
  have "\<forall>n\<in>set [0..<32]. vreg_names ! n = kVregPrefix n" by code_simp
  then show "n < 32 \<Longrightarrow> ?thesis" by simp
qed

text \<open>The multiplier that the low three bits of \<open>vtype\<close> stand for.\<close>

definition lmul :: "nat \<Rightarrow> real" where
  "lmul v = (if v < 4 then 2 ^ v else 1 / 2 ^ (8 - v))"

text \<open>The group of \<open>k\<close> registers from \<open>r\<close>.\<close>

definition vgroup :: "nat \<Rightarrow> nat \<Rightarrow> string list" where
  "vgroup r k = map (\<lambda>i. kVregPrefix (r + i)) [0..<k]"

lemma below_8: "v < 8 \<longleftrightarrow> v = 0 \<or> v = 1 \<or> v = 2 \<or> v = 3 \<or> v = 4 \<or> v = 5 \<or> v = 6 \<or> v = (7 :: nat)"
  by auto

lemma vlmul_below: "vlmul_of vtype < 8"
proof -
  have "v AND 7 = take_bit 3 v" for v :: u32 by (simp add: take_bit_eq_mask mask_eq_exp_minus_1)
  then show ?thesis by (auto simp: vlmul_of_def unsigned_take_bit_eq take_bit_nat_less_exp [of 3, simplified] split: option.split)
qed

lemma regs_count_lmul:
  assumes "v < 8" "v \<noteq> 4"
  shows "real (widened_regs_count v) = max 1 (2 * lmul v)" "widened_regs_count v \<in> {1, 2, 4, 8, 16}"
  using assms by (auto simp: below_8 widened_regs_count_def lmul_def Let_def)

lemma group_inside: "r < 32 \<Longrightarrow> k \<in> {1, 2, 4, 8, 16} \<Longrightarrow> r mod k = 0 \<Longrightarrow> r + k \<le> (32 :: nat)"
  by (auto elim!: dvdE simp: mod_eq_0_iff_dvd)

text \<open>Property C27. The wide operand of a narrowing or widening conversion on the M3 core is a group of \<open>max 1 (2 LMUL)\<close>
  registers, fractional multipliers included, that starts at a multiple of its size and lies inside the 32 vector
  registers; a register number that is not such a multiple gives no operand. \<open>LMUL = 8\<close> is not refused: it gives groups of sixteen registers.\<close>

theorem m3_groups:
  assumes "v = vlmul_of vtype" "v \<noteq> 4" "real k = max 1 (2 * lmul v)" "r = unat (VArith_Vs2 w)" "d = unat (VArith_Vd w)"
    and "opc \<in> narrowing_opcodes" "opc' \<in> widening_opcodes"
  shows "m3_GetSource N vtype w opc v2_Vs2 = (if r mod k \<noteq> 0 then NoSource else VectorSource (vgroup r k) (kVregPrefix r))
    \<and> m3_GetDestination N vtype w opc' v2_VdDest latency = (if d mod k \<noteq> 0 then NoDest else VectorDest (vgroup d k) latency (kVregPrefix d))
    \<and> (r mod k = 0 \<longrightarrow> r + k \<le> 32) \<and> (d mod k = 0 \<longrightarrow> d + k \<le> 32)"
proof -
  have v: "v < 8" using vlmul_below assms(1) by simp
  have "real k = real (widened_regs_count v)" using regs_count_lmul(1) [OF v assms(2)] assms(3) by simp
  then have k: "k = widened_regs_count v" "k \<in> {1, 2, 4, 8, 16}" using regs_count_lmul(2) [OF v assms(2)] by simp_all
  have b: "r < 32" "d < 32" using unat_bits [of 5] assms(4,5) by (simp_all add: VArith_Vs2_def VArith_Vd_def)
  have i: "r + k \<le> 32" if "r mod k = 0" using group_inside [OF b(1) k(2) that] .
  have j: "d + k \<le> 32" if "d mod k = 0" using group_inside [OF b(2) k(2) that] .
  have "\<not> reserved_vlmul vtype"
    using assms(1,2) by (auto simp: reserved_vlmul_def vlmul_of_def split: option.splits)
  moreover have "vreg_span q k = (if q mod k \<noteq> 0 then None else Some (vgroup q k, kVregPrefix q))" if "q < 32" "q mod k = 0 \<Longrightarrow> q + k \<le> 32" for q
    using that by (auto simp: vreg_span_def vgroup_def vector_names)
  ultimately show ?thesis using assms(4-7) b i j
    by (simp add: m3_GetSource_def m3_GetDestination_def m3_source_def m3_dest_def k(1) [symmetric] assms(1) [symmetric])
qed

subsection \<open>Instruction fetch\<close>

text \<open>Property C10. On the second core and on M3 and M4 an instruction is decoded and executed only if one executable
  region contains its four bytes; otherwise executing it appends exactly one instruction access fault at its address and
  changes nothing else.\<close>

theorem fetch_guarded:
  fixes a :: u32
  assumes "regions_disjoint (memory_regions s)" "dec \<in> {v2_DecodeInstruction, m3_DecodeInstruction, m4_DecodeInstruction}"
    and "allowed \<longleftrightarrow> (\<exists>r \<in> set (memory_regions s). uint (start_address r) \<le> uint a
      \<and> uint a + 4 \<le> uint (start_address r) + uint (region_length r) \<and> permissions r AND kExecute = kExecute)"
  shows "\<exists>v \<in> {0, ucast a}. run_decoded execute (dec decoder (ucast a) s) s =
    (if allowed then execute (decoder (ucast a)) s
     else s\<lparr>v2_traps := v2_traps s @ [\<lparr>is_interrupt = False, trap_value = v, exception_code = kInstructionAccessFault, epc = ucast a\<rparr>]\<rparr>)"
proof -
  have "ucast (ucast a :: u64) = a" by (rule bit_word_eqI) (simp add: bit_ucast_iff)
  moreover have "HasPermission a 4 kExecute s = allowed"
    using HasPermission_decides [OF assms(1), of 4 a kExecute] assms(3) by simp
  ultimately show ?thesis using assms(2)
    by (auto simp: v2_DecodeInstruction_def m3_DecodeInstruction_def m4_DecodeInstruction_def kCoralNPUV2InstructionSize_def v2_Trap_def)
qed

subsection \<open>Instances\<close>

lemma fetch_guarded_witness:
  "\<exists>v \<in> {0, 0x10000}. run_decoded (\<lambda>i s. s) (m3_DecodeInstruction (\<lambda>a. ()) 0x10000 (sample_state default_memory_regions)) (sample_state default_memory_regions)
    = (sample_state default_memory_regions)\<lparr>v2_traps := [\<lparr>is_interrupt = False, trap_value = v, exception_code = kInstructionAccessFault, epc = 0x10000\<rparr>]\<rparr>"
proof -
  have d: "regions_disjoint (memory_regions (sample_state default_memory_regions))"
    by (simp add: sample_state_def default_memory_regions_def regions_apart_def)
  have n: "False \<longleftrightarrow> (\<exists>r \<in> set (memory_regions (sample_state default_memory_regions)). uint (start_address r) \<le> uint (0x10000 :: u32)
      \<and> uint (0x10000 :: u32) + 4 \<le> uint (start_address r) + uint (region_length r) \<and> permissions r AND kExecute = kExecute)"
    by (simp add: sample_state_def default_memory_regions_def kExecute_def kReadWrite_def kRead_def kWrite_def)
  from fetch_guarded [OF d _ n, of m3_DecodeInstruction "\<lambda>i s. s" "\<lambda>a. ()"] show ?thesis by (simp add: sample_state_def)
qed



definition sample_names :: names where
  "sample_names = \<lparr>x_alias = kXregPrefix, f_alias = kFregPrefix, GetCsrName = \<lambda>i. None\<rparr>"


lemma m3_groups_witness:
  "m3_GetSource sample_names (Some 1) 0x00400057 kVfncvtFFW v2_Vs2 = VectorSource (vgroup 4 4) (kVregPrefix 4)
    \<and> m3_GetDestination sample_names (Some 1) 0x00400157 kVfwcvtFFV v2_VdDest 0 = NoDest"
proof -
  have v: "1 = vlmul_of (Some 1)" "(1::nat) \<noteq> 4" "real 4 = max 1 (2 * lmul 1)" by (simp_all add: vlmul_of_def lmul_def)
  have o: "kVfncvtFFW \<in> narrowing_opcodes" "kVfwcvtFFV \<in> widening_opcodes" by (simp_all add: narrowing_opcodes_def widening_opcodes_def)
  have f: "4 = unat (VArith_Vs2 0x00400057)" "0 = unat (VArith_Vd 0x00400057)" "4 = unat (VArith_Vs2 0x00400157)" "2 = unat (VArith_Vd 0x00400157)"
    by (simp_all add: VArith_Vs2_def VArith_Vd_def bits_def)
  from m3_groups [OF v f(1,2) o, of sample_names 0] m3_groups [OF v f(3,4) o, of sample_names 0] show ?thesis by simp
qed

end
