(* ===== verification/Spec2Isabelle.thy ===== *)
theory Spec2Isabelle
  imports NPU_LayoutClaims NPU_BFloat16Props NPU_StateProps NPU_ConvolutionClaims NPU_V2Claims NPU_IsgClaims NPU_TopClaims NPU_DmaClaims NPU_EncodingClaims
begin

text \<open>
  A verification of the CoralNPU instruction-set simulator (\<open>src/sim\<close>). The simulator consists of
  the semantic functions of the CoralNPU instructions, written in C++ against the MPACT-Sim framework,
  the state they work on, the memory it shares with Renode, and the programs around them. MPACT itself
  (operands, data buffers, decoders, the RISC-V base instructions) is not in the repository; what the
  code relies on of it is a parameter or an explicit part of a result.

  \<^bold>\<open>Theories and code.\<close>

  \<^item> \<open>NPU_Prelude\<close>: types of machine integers, lemmas on words, lanes of registers, bytes and lists that
    all components share, and the collections of facts they use.
  \<^item> \<open>NPU_Lanes\<close>, \<open>NPU_VectorEngine\<close>: \<open>coralnpu_vector_instructions.cc\<close>. The first has the operations on one
    lane (\<open>VAddsHelper\<close>, \<open>CoralNPUVShiftHelper\<close>, ...), the second the templates that apply them to register
    groups (\<open>CoralNPUBinaryVectorOp\<close>, \<open>CoralNPUUnaryVectorOp\<close>, source getters, widening and narrowing) and one
    definition per instruction. Properties: \<open>NPU_LaneProps\<close> (one lane against exact arithmetic),
    \<open>NPU_EngineProps\<close> (a register group is processed lane by lane), \<open>NPU_VectorClaims\<close>, \<open>NPU_LayoutClaims\<close>.
  \<^item> \<open>NPU_BFloat16\<close>, \<open>NPU_BFloat16Props\<close>: the conversions of \<open>coralnpu_instructions.cc\<close>,
    \<open>coralnpu_m3_instructions.cc\<close> and \<open>coralnpu_m3_zfbfmin_overrides.cc\<close>; correct rounding against the exact
    value, agreement of the implementations, masked element-wise conversion.
  \<^item> \<open>NPU_State\<close>, \<open>NPU_StateProps\<close>: \<open>coralnpu_state.{h,cc}\<close> and the logging and termination instructions of
    \<open>coralnpu_instructions.cc\<close>.
  \<^item> \<open>NPU_Memory\<close>: the locale \<open>byte_memory\<close>, the contract of a memory that loads and stores bytes.
    \<open>NPU_RenodeMemory\<close> models \<open>renode/coralnpu_renode_memory.{h,cc}\<close>; \<open>NPU_RenodeMemoryProps\<close> interprets the
    locale on it, \<open>NPU_RenodeMemoryClaims\<close> states what follows.
  \<^item> \<open>NPU_VectorMemory\<close>: \<open>coralnpu_vector_memory_instructions.cc\<close>, over any memory of the contract.
    \<open>NPU_VectorMemoryProps\<close>, \<open>NPU_StripMining\<close> (the loop of \<open>getvl\<close>, load and store that kernels use)
    and \<open>NPU_VectorMemoryClaims\<close>, whose instances run on the Renode memory.
  \<^item> \<open>NPU_Convolution\<close>, \<open>NPU_ConvolutionProps\<close>, \<open>NPU_ConvolutionClaims\<close>:
    \<open>coralnpu_vector_convolution_instructions.{h,cc}\<close>.
  \<^item> \<open>NPU_V2State\<close>, \<open>NPU_V2Instructions\<close>, \<open>NPU_V2Props\<close>, \<open>NPU_V2Claims\<close>: the memory protection of the second
    core, \<open>coralnpu_v2_state.{h,cc}\<close> and \<open>coralnpu_v2_instructions.cc\<close>.

  \<^bold>\<open>Conventions.\<close> A \<open>struct\<close> or class is a record, with the names of the source; an instruction is a
  function of its operands and the state. Integers are words of their C++ width where they can wrap and
  mathematical integers where the code's values are bounded. Traps are recorded calls of MPACT's \<open>Trap\<close>.
  A failed \<open>CHECK\<close>, a C++ exception and an undefined access are \<open>None\<close> or an error value, never an
  arbitrary result. Registers are byte lists; their lanes are read little-endian, as on the hosts the
  simulator supports.

  \<^bold>\<open>Loops.\<close> Loops with a known number of rounds are folds over the rounds. \<open>load_loop\<close>, \<open>store_loop\<close> and
  \<open>string_load_loop\<close> may not end and are partial functions into \<open>option\<close>; their termination is a theorem
  (\<open>renode_refines_flat\<close>, \<open>StringLoadHelper_ends\<close>). The strip-mined loop takes fuel; \<open>strip_copy_correct\<close>
  shows that as many rounds as there are elements are enough.

  \<^bold>\<open>Not modelled.\<close> The instruction set descriptions and the decoders generated from them, because the
  generator and its semantics are not in the repository; main programs, ELF loading and the Renode,
  co-simulation and hardware bridges, which call the simulator and the host system. The run control
  (\<open>coralnpu_top.cc\<close>), the operand getters (\<open>coralnpu_encoding.cc\<close>), the M3 assembler, the random simulator
  and the instruction stream generator (\<open>isg\<close>) are the next parts of the plan.
\<close>

end
